(* ===== verification/Prelude.thy ===== *)
theory Prelude
  imports Main "HOL-Library.Word"
begin

text \<open>
  Shared vocabulary of the development: the machine integers of the client, the three-way
  outcome of a Rust call (a value, an error, a panic), the state-and-outcome computations in which
  the virtual machine is written, a weakest-precondition calculus for them, and the byte-level
  encodings of 256-bit integers.

  Integers.  \<open>U256\<close> is a \<open>256 word\<close>, \<open>H256\<close> (32 bytes) is represented by its big-endian value,
  an \<open>Address\<close> (20 bytes) by a \<open>160 word\<close>, a byte by an \<open>8 word\<close>.  A \<open>usize\<close> of a 64-bit
  build that is a length, an index or a counter is a \<open>nat\<close>, and every place where the code could
  leave the range below \<open>2 ^ 64\<close> says so explicitly.
\<close>

section \<open>Machine integers\<close>

type_synonym u8 = "8 word"
type_synonym u256 = "256 word"
type_synonym u512 = "512 word"
type_synonym h256 = "256 word"
type_synonym address = "160 word"
type_synonym bytes = "8 word list"

named_theorems wp_simps \<open>weakest preconditions of the computation combinators\<close>
named_theorems outcome_simps \<open>unfolding of outcomes\<close>

text \<open>
  The range of a \<open>usize\<close>, and the bound \<open>isize::MAX\<close> that Rust guarantees for the length of
  every \<open>Vec\<close>.
\<close>

abbreviation usize_range :: nat where
  "usize_range \<equiv> 2 ^ 64"

definition vec_ok :: "'a list \<Rightarrow> bool" where
  "vec_ok xs \<longleftrightarrow> length xs < 2 ^ 63"

text \<open>\<open>x.low_u64() as usize\<close>.\<close>

definition low_u64 :: "u256 \<Rightarrow> nat" where
  "low_u64 x = unat x mod usize_range"

lemma low_u64_small [simp]: "unat x < usize_range \<Longrightarrow> low_u64 x = unat x"
  by (simp add: low_u64_def)

lemma low_u64_less: "low_u64 x < usize_range"
  by (simp add: low_u64_def)

lemma unat_lt_u256: "unat (x :: u256) < 2 ^ 256"
  using unsigned_less [of x] by simp

lemma unat_lt_u8: "unat (x :: u8) < 256"
  using unsigned_less [of x] by simp

lemma unat_of_nat_u256: "n < 2 ^ 256 \<Longrightarrow> unat (of_nat n :: u256) = n"
  by (simp add: unat_of_nat)

lemma unat_of_nat_u256_small: "n < usize_range \<Longrightarrow> unat (of_nat n :: u256) = n"
  by (rule unat_of_nat_u256) (erule less_le_trans, simp)

lemma unat_of_nat_len [simp]: "vec_ok xs \<Longrightarrow> unat (of_nat (length xs) :: u256) = length xs"
  by (rule unat_of_nat_u256_small) (simp add: vec_ok_def)

lemma unat_eq_0_iff [simp]: "unat (x :: 'a::len word) = 0 \<longleftrightarrow> x = 0"
  by (metis unat_0 word_unat_eq_iff)

lemma unat_pos_iff [simp]: "0 < unat (x :: 'a::len word) \<longleftrightarrow> x \<noteq> 0"
  by (metis neq0_conv unat_eq_0_iff)

lemma unat_add_u256: "unat a + unat b < 2 ^ 256 \<Longrightarrow> unat (a + b :: u256) = unat a + unat b"
  by (subst unat_add_lem [THEN iffD1]) auto

lemma unat_sub_u256: "(b :: u256) \<le> a \<Longrightarrow> unat (a - b) = unat a - unat b"
  by (rule unat_sub)

text \<open>\<open>U256::overflowing_add\<close> and the saturating sum.\<close>

definition overflowing_add :: "'a::len word \<Rightarrow> 'a word \<Rightarrow> 'a word \<times> bool" where
  "overflowing_add a b = (a + b, 2 ^ LENGTH('a) \<le> unat a + unat b)"

definition overflowing_mul :: "'a::len word \<Rightarrow> 'a word \<Rightarrow> 'a word \<times> bool" where
  "overflowing_mul a b = (a * b, 2 ^ LENGTH('a) \<le> unat a * unat b)"

definition saturating_add :: "'a::len word \<Rightarrow> 'a word \<Rightarrow> 'a word" where
  "saturating_add a b = (if snd (overflowing_add a b) then - 1 else a + b)"

lemma overflowing_add_flag [simp]:
  "snd (overflowing_add a b) \<longleftrightarrow> 2 ^ LENGTH('a) \<le> unat a + unat b"
  "fst (overflowing_add a b) = a + b"
  for a b :: "'a::len word"
  by (simp_all add: overflowing_add_def)

lemma unat_saturating_add:
  "unat (saturating_add a b) = min (2 ^ LENGTH('a) - 1) (unat a + unat b)" for a b :: "'a::len word"
proof (cases "2 ^ LENGTH('a) \<le> unat a + unat b")
  case True
  then show ?thesis by (simp add: saturating_add_def unsigned_minus_1_eq_mask mask_eq_exp_minus_1)
next
  case False
  then have lt: "unat a + unat b < 2 ^ LENGTH('a)" by simp
  then have "unat (a + b) = unat a + unat b" by (subst unat_add_lem [symmetric])
  with lt show ?thesis by (simp add: saturating_add_def)
qed

section \<open>Outcomes\<close>

text \<open>
  A Rust call of type \<open>Result<T, E>\<close> either returns \<open>Ok\<close>, returns \<open>Err\<close>, or panics.  The panics of
  the virtual machine's own code are listed by the kind of the failing check; a panic raised inside
  the externalities (the host) is \<open>Host\<close>.
\<close>

datatype panic =
    Pop_empty
  | Index_out_of_bounds
  | Arith_overflow
  | Cast_overflow
  | Expect_failed
  | Assert_failed
  | Capacity_overflow
  | Host string

datatype ('e, 'a) outcome = Ok 'a | Err 'e | Panic panic

fun is_host :: "panic \<Rightarrow> bool" where
  "is_host (Host _) = True"
| "is_host _ = False"

definition is_ok :: "('e, 'a) outcome \<Rightarrow> bool" where
  "is_ok r \<longleftrightarrow> (case r of Ok _ \<Rightarrow> True | _ \<Rightarrow> False)"

fun map_outcome :: "('a \<Rightarrow> 'b) \<Rightarrow> ('e, 'a) outcome \<Rightarrow> ('e, 'b) outcome" where
  "map_outcome f (Ok a) = Ok (f a)"
| "map_outcome f (Err e) = Err e"
| "map_outcome f (Panic p) = Panic p"

text \<open>The operator \<open>?\<close> followed by the rest of the function.\<close>

fun ok_then :: "('e, 'a) outcome \<Rightarrow> ('a \<Rightarrow> ('e, 'b) outcome) \<Rightarrow> ('e, 'b) outcome" where
  "ok_then (Ok a) f = f a"
| "ok_then (Err e) f = Err e"
| "ok_then (Panic p) f = Panic p"

lemma ok_then_Ok_iff [simp]: "ok_then m f = Ok b \<longleftrightarrow> (\<exists>a. m = Ok a \<and> f a = Ok b)"
  by (cases m) auto

lemma ok_then_Panic_iff: "ok_then m f = Panic p \<longleftrightarrow> m = Panic p \<or> (\<exists>a. m = Ok a \<and> f a = Panic p)"
  by (cases m) auto

lemma ok_then_Err_iff: "ok_then m f = Err e \<longleftrightarrow> m = Err e \<or> (\<exists>a. m = Ok a \<and> f a = Err e)"
  by (cases m) auto

lemma ok_then_cong [fundef_cong]:
  "m = m' \<Longrightarrow> (\<And>a. m' = Ok a \<Longrightarrow> f a = f' a) \<Longrightarrow> ok_then m f = ok_then m' f'"
  by (cases m') auto

lemma map_outcome_Ok_iff [simp]: "map_outcome f r = Ok b \<longleftrightarrow> (\<exists>a. r = Ok a \<and> b = f a)"
  by (cases r) auto

lemma map_outcome_Err_iff [simp]: "map_outcome f r = Err e \<longleftrightarrow> r = Err e"
  by (cases r) auto

lemma map_outcome_Panic_iff [simp]: "map_outcome f r = Panic p \<longleftrightarrow> r = Panic p"
  by (cases r) auto

text \<open>\<open>sound r Q\<close>: the outcome is not a panic, and a value satisfies \<open>Q\<close>.\<close>

definition sound :: "('e, 'a) outcome \<Rightarrow> ('a \<Rightarrow> bool) \<Rightarrow> bool" where
  "sound r Q \<longleftrightarrow> (case r of Ok a \<Rightarrow> Q a | Err _ \<Rightarrow> True | Panic _ \<Rightarrow> False)"

lemma sound_simps [simp]:
  "sound (Ok a) Q = Q a" "sound (Err e) Q" "\<not> sound (Panic p) Q"
  "sound (if b then m else m') Q = (if b then sound m Q else sound m' Q)"
  by (simp_all add: sound_def)

lemma sound_ok_then [simp]: "sound (ok_then m f) Q = sound m (\<lambda>a. sound (f a) Q)"
  by (cases m) simp_all

lemma sound_map_outcome [simp]: "sound (map_outcome g m) Q = sound m (\<lambda>a. Q (g a))"
  by (cases m) simp_all

lemma sound_mono: "sound r Q \<Longrightarrow> (\<And>a. r = Ok a \<Longrightarrow> Q a \<Longrightarrow> Q' a) \<Longrightarrow> sound r Q'"
  by (cases r) auto

lemma sound_OkD: "sound r Q \<Longrightarrow> r = Ok a \<Longrightarrow> Q a"
  by simp

section \<open>Checked operators on words\<close>

text \<open>The operators \<open>+\<close>, \<open>-\<close>, \<open>*\<close> and \<open>/\<close> on machine words.\<close>

definition word_add :: "'a::len word \<Rightarrow> 'a word \<Rightarrow> ('e, 'a word) outcome" where
  "word_add a b = (if unat a + unat b < 2 ^ LENGTH('a) then Ok (a + b) else Panic Arith_overflow)"

definition word_sub :: "'a::len word \<Rightarrow> 'a word \<Rightarrow> ('e, 'a word) outcome" where
  "word_sub a b = (if b \<le> a then Ok (a - b) else Panic Arith_overflow)"

definition word_mul :: "'a::len word \<Rightarrow> 'a word \<Rightarrow> ('e, 'a word) outcome" where
  "word_mul a b = (if unat a * unat b < 2 ^ LENGTH('a) then Ok (a * b) else Panic Arith_overflow)"

definition word_div :: "'a::len word \<Rightarrow> 'a word \<Rightarrow> ('e, 'a word) outcome" where
  "word_div a b = (if b = 0 then Panic Arith_overflow else Ok (a div b))"

text \<open>The operators on a \<open>usize\<close> that is modelled by a natural number.\<close>

definition usize_add :: "nat \<Rightarrow> nat \<Rightarrow> ('e, nat) outcome" where
  "usize_add a b = (if a + b < usize_range then Ok (a + b) else Panic Arith_overflow)"

definition usize_sub :: "nat \<Rightarrow> nat \<Rightarrow> ('e, nat) outcome" where
  "usize_sub a b = (if b \<le> a then Ok (a - b) else Panic Arith_overflow)"

lemma of_nat_unat_word [simp]: "of_nat (unat (a :: 'a::len word)) = a"
  by simp

lemma word_add_nat:
  "unat a + unat b < 2 ^ LENGTH('a) \<Longrightarrow> word_add a b = Ok (of_nat (unat a + unat b))" for a b :: "'a::len word"
  by (simp add: word_add_def)

lemma word_sub_nat: "unat b \<le> unat a \<Longrightarrow> word_sub a b = Ok (of_nat (unat a - unat b))"
  for a b :: "'a::len word"
  by (simp add: word_sub_def word_le_nat_alt of_nat_diff)

lemma word_mul_nat:
  "unat a * unat b < 2 ^ LENGTH('a) \<Longrightarrow> word_mul a b = Ok (of_nat (unat a * unat b))" for a b :: "'a::len word"
  by (simp add: word_mul_def)

lemma word_div_nat: "unat b \<noteq> 0 \<Longrightarrow> word_div a b = Ok (of_nat (unat a div unat b))" for a b :: "'a::len word"
  by (simp add: word_div_def word_arith_nat_div)

lemma unat_drop_bit_word: "unat (drop_bit n a) = unat a div 2 ^ n" for a :: "'a::len word"
  by (simp only: unsigned_drop_bit_eq) (simp add: drop_bit_eq_div take_bit_nat_eq_self [OF unsigned_less])

lemma drop_bit_word_nat: "drop_bit n a = of_nat (unat a div 2 ^ n)" for a :: "'a::len word"
  by (metis of_nat_unat_word unat_drop_bit_word)

lemma push_bit_word_nat: "push_bit n a = of_nat (unat a * 2 ^ n)" for a :: "'a::len word"
  by (simp add: push_bit_eq_mult)

lemma of_nat_mod_word: "(of_nat (n mod 2 ^ LENGTH('a)) :: 'a::len word) = of_nat n"
  by (rule word_unat_eq_iff [THEN iffD2]) (simp add: unat_of_nat)

lemma overflowing_add_nat:
  "overflowing_add a b = (of_nat ((unat a + unat b) mod 2 ^ LENGTH('a)), 2 ^ LENGTH('a) \<le> unat a + unat b)"
  for a b :: "'a::len word"
  by (simp add: overflowing_add_def of_nat_mod_word)

lemma overflowing_mul_nat:
  "overflowing_mul a b = (of_nat ((unat a * unat b) mod 2 ^ LENGTH('a)), 2 ^ LENGTH('a) \<le> unat a * unat b)"
  for a b :: "'a::len word"
  by (simp add: overflowing_mul_def of_nat_mod_word)

lemma unat_ucast_wider:
  "LENGTH('a) \<le> LENGTH('b) \<Longrightarrow> unat (ucast a :: 'b::len word) = unat a" for a :: "'a::len word"
  by (simp add: unsigned_ucast_eq take_bit_nat_eq_self less_le_trans [OF unsigned_less])

lemma full_mul_nat:
  fixes a b :: "'a::len word"
  assumes "LENGTH('b) = 2 * LENGTH('a)"
  shows "unat ((ucast a :: 'b::len word) * ucast b) = unat a * unat b"
proof -
  have "unat a * unat b < 2 ^ LENGTH('a) * 2 ^ LENGTH('a)"
    by (rule mult_strict_mono') (auto intro: unsigned_less)
  also have "\<dots> = 2 ^ LENGTH('b)" by (simp add: assms power_add mult_2)
  finally have "unat (ucast a :: 'b word) * unat (ucast b :: 'b word) < 2 ^ LENGTH('b)"
    by (simp add: unat_ucast_wider assms)
  then have "unat ((ucast a :: 'b word) * ucast b) = unat (ucast a :: 'b word) * unat (ucast b :: 'b word)"
    by (simp add: unat_mult_lem)
  then show ?thesis by (simp add: unat_ucast_wider assms)
qed

lemma ucast_nat: "(ucast (a :: 'a::len word) :: 'b::len word) = of_nat (unat a)"
  by simp

lemma drop_bit_pos: "0 < drop_bit n a \<longleftrightarrow> 2 ^ n \<le> unat a" for a :: "'a::len word"
proof -
  have "0 < drop_bit n a \<longleftrightarrow> 0 < unat a div 2 ^ n"
    by (simp add: word_less_nat_alt unat_drop_bit_word)
  also have "\<dots> \<longleftrightarrow> 2 ^ n \<le> unat a" by (simp add: div_greater_zero_iff)
  finally show ?thesis .
qed

section \<open>Computations\<close>

text \<open>
  A method with a mutable receiver is a computation: it maps the state to an outcome and the state
  left behind, also when it fails, because the caller can still see what was changed before the
  error.
\<close>

type_synonym ('e, 's, 'a) comp = "'s \<Rightarrow> ('e, 'a) outcome \<times> 's"

definition ok :: "'a \<Rightarrow> ('e, 's, 'a) comp" where
  "ok a = (\<lambda>s. (Ok a, s))"

definition fail :: "'e \<Rightarrow> ('e, 's, 'a) comp" where
  "fail e = (\<lambda>s. (Err e, s))"

definition panic :: "panic \<Rightarrow> ('e, 's, 'a) comp" where
  "panic p = (\<lambda>s. (Panic p, s))"

definition lift :: "('e, 'a) outcome \<Rightarrow> ('e, 's, 'a) comp" where
  "lift r = (\<lambda>s. (r, s))"

definition gets :: "('s \<Rightarrow> 'a) \<Rightarrow> ('e, 's, 'a) comp" where
  "gets f = (\<lambda>s. (Ok (f s), s))"

definition modify :: "('s \<Rightarrow> 's) \<Rightarrow> ('e, 's, unit) comp" where
  "modify f = (\<lambda>s. (Ok (), f s))"

definition and_then :: "('e, 's, 'a) comp \<Rightarrow> ('a \<Rightarrow> ('e, 's, 'b) comp) \<Rightarrow> ('e, 's, 'b) comp" where
  "and_then m f = (\<lambda>s. case m s of (Ok a, s') \<Rightarrow> f a s' | (Err e, s') \<Rightarrow> (Err e, s')
     | (Panic p, s') \<Rightarrow> (Panic p, s'))"

lemma and_then_lift_Ok [simp]: "and_then (lift (Ok a)) f = f a"
  by (simp add: and_then_def lift_def)

text \<open>Run a computation on a component of the state.\<close>

definition zoom :: "('s \<Rightarrow> 't) \<Rightarrow> ('t \<Rightarrow> 's \<Rightarrow> 's) \<Rightarrow> ('e, 't, 'a) comp \<Rightarrow> ('e, 's, 'a) comp" where
  "zoom get put m = (\<lambda>s. case m (get s) of (r, t) \<Rightarrow> (r, put t s))"

text \<open>
  \<open>wp m Q R s\<close>: started in \<open>s\<close>, the computation does not panic in code of its own, ends in \<open>Q\<close> when
  it returns a value and in \<open>R\<close> when it returns an error.
\<close>

definition wp ::
  "('e, 's, 'a) comp \<Rightarrow> ('a \<Rightarrow> 's \<Rightarrow> bool) \<Rightarrow> ('e \<Rightarrow> 's \<Rightarrow> bool) \<Rightarrow> 's \<Rightarrow> bool" where
  "wp m Q R s \<longleftrightarrow> (case m s of (Ok a, s') \<Rightarrow> Q a s' | (Err e, s') \<Rightarrow> R e s' | (Panic p, _) \<Rightarrow> is_host p)"

lemma wp_ok [wp_simps]: "wp (ok a) Q R = Q a"
  by (simp add: fun_eq_iff wp_def ok_def)

lemma wp_fail [wp_simps]: "wp (fail e) Q R = R e"
  by (simp add: fun_eq_iff wp_def fail_def)

lemma wp_panic [wp_simps]: "wp (panic p) Q R = (\<lambda>s. is_host p)"
  by (simp add: fun_eq_iff wp_def panic_def)

lemma wp_gets [wp_simps]: "wp (gets f) Q R = (\<lambda>s. Q (f s) s)"
  by (simp add: fun_eq_iff wp_def gets_def)

lemma wp_modify [wp_simps]: "wp (modify f) Q R = (\<lambda>s. Q () (f s))"
  by (simp add: fun_eq_iff wp_def modify_def)

lemma wp_and_then [wp_simps]: "wp (and_then m f) Q R = wp m (\<lambda>a. wp (f a) Q R) R"
  by (simp add: fun_eq_iff wp_def and_then_def split: prod.split outcome.split)

lemma wp_lift [wp_simps]:
  "wp (lift r) Q R = (\<lambda>s. case r of Ok a \<Rightarrow> Q a s | Err e \<Rightarrow> R e s | Panic p \<Rightarrow> is_host p)"
  by (simp add: fun_eq_iff wp_def lift_def)

lemma wp_lift_sound: "sound r (\<lambda>a. Q a s) \<Longrightarrow> (\<And>e. R e s) \<Longrightarrow> wp (lift r) Q R s"
  by (cases r) (simp_all add: wp_lift)

lemma wp_if [wp_simps]: "wp (if b then m else n) Q R = (if b then wp m Q R else wp n Q R)"
  by simp

lemma wp_zoom:
  "wp (zoom get put m) Q R = (\<lambda>s. wp m (\<lambda>a t. Q a (put t s)) (\<lambda>e t. R e (put t s)) (get s))"
  by (simp add: fun_eq_iff wp_def zoom_def split: prod.split outcome.split)

lemma wp_mono:
  assumes "wp m Q R s" "\<And>a s'. Q a s' \<Longrightarrow> Q' a s'" "\<And>e s'. R e s' \<Longrightarrow> R' e s'"
  shows "wp m Q' R' s"
  using assms by (auto simp: wp_def split: prod.splits outcome.splits)

lemma wp_conj: "wp m Q R s \<Longrightarrow> wp m Q' R' s \<Longrightarrow> wp m (\<lambda>a s. Q a s \<and> Q' a s) (\<lambda>e s. R e s \<and> R' e s) s"
  by (auto simp: wp_def split: prod.splits outcome.splits)

lemma wp_OkD: "wp m Q R s \<Longrightarrow> m s = (Ok a, s') \<Longrightarrow> Q a s'"
  by (simp add: wp_def)

lemma wp_ErrD: "wp m Q R s \<Longrightarrow> m s = (Err e, s') \<Longrightarrow> R e s'"
  by (simp add: wp_def)

lemma wp_PanicD: "wp m Q R s \<Longrightarrow> m s = (Panic p, s') \<Longrightarrow> is_host p"
  by (simp add: wp_def)

lemmas comp_defs = ok_def fail_def panic_def lift_def gets_def modify_def and_then_def zoom_def

section \<open>Slices\<close>

text \<open>
  \<open>&v[from..to]\<close> panics unless \<open>from \<le> to \<le> v.len()\<close>; writing through \<open>&mut v[from..to]\<close> keeps the
  length of the vector.
\<close>

definition slice :: "'a list \<Rightarrow> nat \<Rightarrow> nat \<Rightarrow> ('e, 'a list) outcome" where
  "slice v i j = (if i \<le> j \<and> j \<le> length v then Ok (take (j - i) (drop i v)) else Panic Index_out_of_bounds)"

definition splice :: "'a list \<Rightarrow> nat \<Rightarrow> 'a list \<Rightarrow> 'a list" where
  "splice v i xs = take i v @ xs @ drop (i + length xs) v"

definition index :: "'a list \<Rightarrow> nat \<Rightarrow> ('e, 'a) outcome" where
  "index v i = (if i < length v then Ok (v ! i) else Panic Index_out_of_bounds)"

lemma length_splice [simp]: "i + length xs \<le> length v \<Longrightarrow> length (splice v i xs) = length v"
  by (simp add: splice_def)

lemma splice_Nil [simp]: "splice v i [] = v"
  by (simp add: splice_def)

lemma nth_splice:
  assumes "i + length xs \<le> length v" "j < length v"
  shows "splice v i xs ! j = (if i \<le> j \<and> j < i + length xs then xs ! (j - i) else v ! j)"
  using assms by (auto simp: splice_def nth_append min_def)

section \<open>Big-endian bytes\<close>

text \<open>\<open>U256::from(&[u8])\<close> on at most 32 bytes, and \<open>to_big_endian\<close>.\<close>

definition u256_from_be :: "bytes \<Rightarrow> u256" where
  "u256_from_be bs = foldl (\<lambda>acc b. acc * 256 + ucast b) 0 bs"

definition u256_to_be :: "u256 \<Rightarrow> bytes" where
  "u256_to_be x = map (\<lambda>i. ucast (drop_bit (8 * i) x)) (rev [0..<32])"

fun be_nat :: "bytes \<Rightarrow> nat" where
  "be_nat [] = 0"
| "be_nat (b # bs) = unat b * 256 ^ length bs + be_nat bs"

lemma be_nat_append: "be_nat (xs @ ys) = be_nat xs * 256 ^ length ys + be_nat ys"
  by (induction xs) (simp_all add: power_add algebra_simps)

lemma be_nat_less: "be_nat bs < 256 ^ length bs"
proof (induction bs)
  case (Cons b bs)
  have "unat b < 256" using unat_lt_u8 .
  then have "unat b \<le> 255" by simp
  then have "unat b * 256 ^ length bs \<le> 255 * 256 ^ length bs" by (rule mult_le_mono1)
  with Cons have "unat b * 256 ^ length bs + be_nat bs < 256 * 256 ^ length bs" by linarith
  then show ?case by simp
qed simp

lemma u256_from_be_snoc: "u256_from_be (bs @ [b]) = u256_from_be bs * 256 + ucast b"
  by (simp add: u256_from_be_def)

lemma u256_from_be_nat: "u256_from_be bs = of_nat (be_nat bs)"
proof (induction bs rule: rev_induct)
  case Nil
  then show ?case by (simp add: u256_from_be_def)
next
  case (snoc b bs)
  have "(ucast b :: u256) = of_nat (unat b)" by (simp add: unsigned_ucast_eq of_nat_unat)
  with snoc show ?case by (simp add: u256_from_be_snoc be_nat_append algebra_simps)
qed

lemma length_u256_to_be [simp]: "length (u256_to_be x) = 32"
  by (simp add: u256_to_be_def)

lemma be_nat_digits:
  "be_nat (map (\<lambda>i. of_nat (n div 256 ^ i)) (rev [0..<k])) = n mod 256 ^ k"
proof (induction k)
  case (Suc k)
  have "unat (of_nat (n div 256 ^ k) :: u8) = n div 256 ^ k mod 256"
    by (simp add: unat_of_nat)
  then show ?case
    using Suc by (simp add: mod_mult2_eq mult.commute [of 256])
qed simp

lemma u256_to_be_digits: "u256_to_be x = map (\<lambda>i. of_nat (unat x div 256 ^ i)) (rev [0..<32])"
proof -
  have "ucast (drop_bit (8 * i) x) = (of_nat (unat x div 256 ^ i) :: u8)" for i
  proof -
    have "unat (drop_bit (8 * i) x) = unat x div 2 ^ (8 * i)"
      by (simp only: unsigned_drop_bit_eq) (simp add: drop_bit_eq_div take_bit_nat_eq_self [OF unat_lt_u256])
    also have "\<dots> = unat x div 256 ^ i" by (simp add: power_mult)
    finally show ?thesis by (metis of_nat_unat)
  qed
  then show ?thesis by (simp add: u256_to_be_def)
qed

lemma be_nat_u256_to_be: "be_nat (u256_to_be x) = unat x"
  using unat_lt_u256 [of x] by (simp add: u256_to_be_digits be_nat_digits)

lemma u256_be_roundtrip [simp]: "u256_from_be (u256_to_be x) = x"
  by (simp add: u256_from_be_nat be_nat_u256_to_be)

section \<open>Shortest big-endian encodings\<close>

text \<open>
  \<open>be_bytes k n\<close> is what \<open>BigEndian::write\<close> puts into a buffer of \<open>k\<close> bytes, \<open>leading_zeros\<close> counts the zero bits of
  an integer of \<open>w\<close> bits, \<open>nat_bits\<close> (\<open>U256::bits\<close>) is the position of the highest set bit, counted from one, and
  \<open>be_min\<close> is the big-endian encoding without leading zeros.
\<close>

fun nat_bits :: "nat \<Rightarrow> nat" where
  "nat_bits n = (if n = 0 then 0 else Suc (nat_bits (n div 2)))"

declare nat_bits.simps [simp del]

lemma nat_bits_bound: "n < 2 ^ k \<Longrightarrow> nat_bits n \<le> k"
proof (induction k arbitrary: n)
  case 0
  then show ?case by (simp add: nat_bits.simps)
next
  case (Suc k)
  then have "n div 2 < 2 ^ k" by (simp add: less_mult_imp_div_less)
  with Suc.IH show ?case by (subst nat_bits.simps) auto
qed

definition be_bytes :: "nat \<Rightarrow> nat \<Rightarrow> bytes" where
  "be_bytes k n = map (\<lambda>i. of_nat (n div 256 ^ i)) (rev [0..<k])"

fun be_min :: "nat \<Rightarrow> bytes" where
  "be_min n = (if n = 0 then [] else be_min (n div 256) @ [of_nat n])"

declare be_min.simps [simp del]

definition leading_zeros :: "nat \<Rightarrow> nat \<Rightarrow> nat" where
  "leading_zeros w n = w - nat_bits n"

lemma be_min_0 [simp]: "be_min 0 = []"
  by (subst be_min.simps) simp

lemma be_min_pos: "0 < n \<Longrightarrow> be_min n = be_min (n div 256) @ [of_nat n]"
  by (subst be_min.simps) simp

lemma length_be_bytes [simp]: "length (be_bytes k n) = k"
  by (simp add: be_bytes_def)

lemma be_bytes_Suc: "be_bytes (Suc k) n = be_bytes k (n div 256) @ [of_nat n]"
proof -
  have "[0..<Suc k] = 0 # map Suc [0..<k]" by (simp add: map_Suc_upt upt_conv_Cons del: upt_Suc)
  then show ?thesis by (simp add: be_bytes_def div_mult2_eq rev_map del: upt_Suc)
qed

lemma nat_bits_div256: "0 < n \<Longrightarrow> (nat_bits n + 7) div 8 = Suc ((nat_bits (n div 256) + 7) div 8)"
proof -
  have bits: "nat_bits (2 * m + b) = Suc (nat_bits m)" if "0 < m" "b < 2" for m b
    using that by (subst nat_bits.simps) auto
  have div: "nat_bits m = k + nat_bits (m div 2 ^ k)" if "0 < m div 2 ^ k" for m k
    using that
  proof (induction k arbitrary: m)
    case (Suc k)
    then have "0 < m" by (cases m) auto
    with Suc.IH [of "m div 2"] Suc.prems show ?case by (subst nat_bits.simps) (simp add: div_mult2_eq)
  qed simp
  assume n: "0 < n"
  show ?thesis
  proof (cases "n div 256 = 0")
    case True
    then have "n < 2 ^ 8" by (simp add: div_eq_0_iff)
    then have "nat_bits n \<le> 8" by (rule nat_bits_bound)
    moreover have "0 < nat_bits n" using n by (subst nat_bits.simps) simp
    moreover have "nat_bits 0 = 0" by (subst nat_bits.simps) simp
    ultimately show ?thesis using True by simp
  next
    case False
    then have "nat_bits n = 8 + nat_bits (n div 2 ^ 8)" by (intro div) simp
    then show ?thesis by simp
  qed
qed

lemma length_be_min: "length (be_min n) = (nat_bits n + 7) div 8"
proof (induction n rule: be_min.induct)
  case (1 n)
  show ?case
  proof (cases "n = 0")
    case True
    then show ?thesis by (subst nat_bits.simps) simp
  next
    case False
    with 1 nat_bits_div256 [of n] show ?thesis by (simp add: be_min_pos)
  qed
qed

lemma be_bytes_min: "n < 256 ^ k \<Longrightarrow> be_bytes k n = replicate (k - length (be_min n)) 0 @ be_min n"
proof (induction k arbitrary: n)
  case 0
  then show ?case by (simp add: be_bytes_def)
next
  case (Suc k)
  show ?case
  proof (cases "n = 0")
    case True
    have "map (\<lambda>_. 0) xs = replicate (length xs) (0::u8)" for xs :: "nat list" by (rule map_replicate_const)
    then show ?thesis using True by (simp add: be_bytes_def map_replicate_const)
  next
    case False
    have "n div 256 < 256 ^ k" using Suc.prems by (simp add: less_mult_imp_div_less mult.commute)
    from Suc.IH [OF this] False show ?thesis by (simp add: be_bytes_Suc be_min_pos)
  qed
qed

lemma length_be_min_le: "n < 256 ^ k \<Longrightarrow> length (be_min n) \<le> k"
proof (induction k arbitrary: n)
  case (Suc k)
  have "n div 256 < 256 ^ k" using Suc.prems by (simp add: less_mult_imp_div_less mult.commute)
  from Suc.IH [OF this] show ?case by (cases "n = 0") (simp_all add: be_min_pos)
qed simp

text \<open>Dropping the leading zero bytes of a fixed-width encoding, counted in bits or in bytes.\<close>

lemma div8_up: "(8 * k - b) div 8 = k - (b + 7) div 8" for k b :: nat
proof -
  obtain q where q: "b \<le> 8 * q" "8 * q \<le> b + 7" "q = (b + 7) div 8" by simp
  show ?thesis
  proof (cases "q \<le> k")
    case True
    then obtain d where "k = q + d" using le_Suc_ex by blast
    obtain r where r: "r < 8" "8 * q = b + r" using q(1,2) le_Suc_ex [OF q(1)] by force
    with \<open>k = q + d\<close> have "8 * k - b = r + d * 8" by simp
    with r(1) \<open>k = q + d\<close> show ?thesis unfolding q(3) [symmetric] by simp
  next
    case False
    then have "8 * k - b = 0" using q(2) by linarith
    with False q(3) show ?thesis by simp
  qed
qed

lemma drop_leading:
  assumes "n < 256 ^ k"
  shows "drop (leading_zeros (8 * k) n div 8) (be_bytes k n) = be_min n"
proof -
  have "leading_zeros (8 * k) n div 8 = k - length (be_min n)"
    by (simp add: leading_zeros_def length_be_min div8_up)
  with assms show ?thesis by (simp add: be_bytes_min)
qed

lemma be_nat_be_min: "be_nat (be_min n) = n"
proof (induction n rule: be_min.induct)
  case (1 n)
  then show ?case by (cases "n = 0") (simp_all add: be_min_pos be_nat_append unat_of_nat)
qed

lemma be_min_hd: "0 < n \<Longrightarrow> be_min n \<noteq> [] \<and> hd (be_min n) \<noteq> 0"
proof (induction n rule: be_min.induct)
  case (1 n)
  show ?case
  proof (cases "n div 256 = 0")
    case True
    then have "n < 256" by (simp add: div_eq_0_iff)
    then have "unat (of_nat n :: u8) = n" by (simp add: unat_of_nat)
    with 1(2) have "(of_nat n :: u8) \<noteq> 0" by (metis neq0_conv unat_0)
    with True 1(2) show ?thesis by (simp add: be_min_pos)
  next
    case False
    with 1 have "be_min (n div 256) \<noteq> [] \<and> hd (be_min (n div 256)) \<noteq> 0" by simp
    then show ?thesis using 1(2) by (simp add: be_min_pos)
  qed
qed

lemma be_min_be_nat: "bs = [] \<or> hd bs \<noteq> 0 \<Longrightarrow> be_min (be_nat bs) = bs"
proof (induction bs rule: rev_induct)
  case (snoc b bs)
  have div: "be_nat (bs @ [b]) div 256 = be_nat bs" "of_nat (be_nat (bs @ [b])) = b"
  proof -
    show "be_nat (bs @ [b]) div 256 = be_nat bs" using unat_lt_u8 [of b] by (simp add: be_nat_append)
    have "(of_nat (be_nat bs * 256 + unat b) :: u8) = of_nat (be_nat bs) * of_nat 256 + of_nat (unat b)" by (simp only: of_nat_add of_nat_mult)
    also have "(of_nat 256 :: u8) = 0" by simp
    finally show "of_nat (be_nat (bs @ [b])) = b" by (simp add: be_nat_append)
  qed
  have pos: "0 < be_nat (bs @ [b])"
  proof (cases bs)
    case Nil
    with snoc.prems show ?thesis by simp
  next
    case (Cons c cs)
    with snoc.prems have "c \<noteq> 0" by simp
    with Cons show ?thesis by simp
  qed
  have "bs = [] \<or> hd bs \<noteq> 0" using snoc.prems by (cases bs) auto
  with snoc.IH pos div show ?case by (simp add: be_min_pos)
qed simp

end
