(* ===== verification/Instructions.thy ===== *)
theory Instructions
  imports Prelude
begin

text \<open>
  The opcodes of the EVM and the static table that gives, for each of them, the number of stack
  items it takes and returns and its gas price tier (\<open>ethcore/evm/src/instructions.rs\<close>).  An
  instruction is a byte, as in the source; its constants are abbreviations for the byte values.
\<close>

section \<open>Opcodes\<close>

type_synonym instruction = u8

abbreviation STOP :: instruction where
  "STOP \<equiv> 0x00"

abbreviation ADD :: instruction where
  "ADD \<equiv> 0x01"

abbreviation MUL :: instruction where
  "MUL \<equiv> 0x02"

abbreviation SUB :: instruction where
  "SUB \<equiv> 0x03"

abbreviation DIV :: instruction where
  "DIV \<equiv> 0x04"

abbreviation SDIV :: instruction where
  "SDIV \<equiv> 0x05"

abbreviation MOD :: instruction where
  "MOD \<equiv> 0x06"

abbreviation SMOD :: instruction where
  "SMOD \<equiv> 0x07"

abbreviation ADDMOD :: instruction where
  "ADDMOD \<equiv> 0x08"

abbreviation MULMOD :: instruction where
  "MULMOD \<equiv> 0x09"

abbreviation EXP :: instruction where
  "EXP \<equiv> 0x0a"

abbreviation SIGNEXTEND :: instruction where
  "SIGNEXTEND \<equiv> 0x0b"

abbreviation LT :: instruction where
  "LT \<equiv> 0x10"

abbreviation GT :: instruction where
  "GT \<equiv> 0x11"

abbreviation SLT :: instruction where
  "SLT \<equiv> 0x12"

abbreviation SGT :: instruction where
  "SGT \<equiv> 0x13"

abbreviation EQ :: instruction where
  "EQ \<equiv> 0x14"

abbreviation ISZERO :: instruction where
  "ISZERO \<equiv> 0x15"

abbreviation AND :: instruction where
  "AND \<equiv> 0x16"

abbreviation OR :: instruction where
  "OR \<equiv> 0x17"

abbreviation XOR :: instruction where
  "XOR \<equiv> 0x18"

abbreviation NOT :: instruction where
  "NOT \<equiv> 0x19"

abbreviation BYTE :: instruction where
  "BYTE \<equiv> 0x1a"

abbreviation SHA3 :: instruction where
  "SHA3 \<equiv> 0x20"

abbreviation ADDRESS :: instruction where
  "ADDRESS \<equiv> 0x30"

abbreviation BALANCE :: instruction where
  "BALANCE \<equiv> 0x31"

abbreviation ORIGIN :: instruction where
  "ORIGIN \<equiv> 0x32"

abbreviation CALLER :: instruction where
  "CALLER \<equiv> 0x33"

abbreviation CALLVALUE :: instruction where
  "CALLVALUE \<equiv> 0x34"

abbreviation CALLDATALOAD :: instruction where
  "CALLDATALOAD \<equiv> 0x35"

abbreviation CALLDATASIZE :: instruction where
  "CALLDATASIZE \<equiv> 0x36"

abbreviation CALLDATACOPY :: instruction where
  "CALLDATACOPY \<equiv> 0x37"

abbreviation CODESIZE :: instruction where
  "CODESIZE \<equiv> 0x38"

abbreviation CODECOPY :: instruction where
  "CODECOPY \<equiv> 0x39"

abbreviation GASPRICE :: instruction where
  "GASPRICE \<equiv> 0x3a"

abbreviation EXTCODESIZE :: instruction where
  "EXTCODESIZE \<equiv> 0x3b"

abbreviation EXTCODECOPY :: instruction where
  "EXTCODECOPY \<equiv> 0x3c"

abbreviation RETURNDATASIZE :: instruction where
  "RETURNDATASIZE \<equiv> 0x3d"

abbreviation RETURNDATACOPY :: instruction where
  "RETURNDATACOPY \<equiv> 0x3e"

abbreviation BLOCKHASH :: instruction where
  "BLOCKHASH \<equiv> 0x40"

abbreviation COINBASE :: instruction where
  "COINBASE \<equiv> 0x41"

abbreviation TIMESTAMP :: instruction where
  "TIMESTAMP \<equiv> 0x42"

abbreviation NUMBER :: instruction where
  "NUMBER \<equiv> 0x43"

abbreviation DIFFICULTY :: instruction where
  "DIFFICULTY \<equiv> 0x44"

abbreviation GASLIMIT :: instruction where
  "GASLIMIT \<equiv> 0x45"

abbreviation POP :: instruction where
  "POP \<equiv> 0x50"

abbreviation MLOAD :: instruction where
  "MLOAD \<equiv> 0x51"

abbreviation MSTORE :: instruction where
  "MSTORE \<equiv> 0x52"

abbreviation MSTORE8 :: instruction where
  "MSTORE8 \<equiv> 0x53"

abbreviation SLOAD :: instruction where
  "SLOAD \<equiv> 0x54"

abbreviation SSTORE :: instruction where
  "SSTORE \<equiv> 0x55"

abbreviation JUMP :: instruction where
  "JUMP \<equiv> 0x56"

abbreviation JUMPI :: instruction where
  "JUMPI \<equiv> 0x57"

abbreviation PC :: instruction where
  "PC \<equiv> 0x58"

abbreviation MSIZE :: instruction where
  "MSIZE \<equiv> 0x59"

abbreviation GAS :: instruction where
  "GAS \<equiv> 0x5a"

abbreviation JUMPDEST :: instruction where
  "JUMPDEST \<equiv> 0x5b"

abbreviation PUSH1 :: instruction where
  "PUSH1 \<equiv> 0x60"

abbreviation PUSH2 :: instruction where
  "PUSH2 \<equiv> 0x61"

abbreviation PUSH3 :: instruction where
  "PUSH3 \<equiv> 0x62"

abbreviation PUSH4 :: instruction where
  "PUSH4 \<equiv> 0x63"

abbreviation PUSH5 :: instruction where
  "PUSH5 \<equiv> 0x64"

abbreviation PUSH6 :: instruction where
  "PUSH6 \<equiv> 0x65"

abbreviation PUSH7 :: instruction where
  "PUSH7 \<equiv> 0x66"

abbreviation PUSH8 :: instruction where
  "PUSH8 \<equiv> 0x67"

abbreviation PUSH9 :: instruction where
  "PUSH9 \<equiv> 0x68"

abbreviation PUSH10 :: instruction where
  "PUSH10 \<equiv> 0x69"

abbreviation PUSH11 :: instruction where
  "PUSH11 \<equiv> 0x6a"

abbreviation PUSH12 :: instruction where
  "PUSH12 \<equiv> 0x6b"

abbreviation PUSH13 :: instruction where
  "PUSH13 \<equiv> 0x6c"

abbreviation PUSH14 :: instruction where
  "PUSH14 \<equiv> 0x6d"

abbreviation PUSH15 :: instruction where
  "PUSH15 \<equiv> 0x6e"

abbreviation PUSH16 :: instruction where
  "PUSH16 \<equiv> 0x6f"

abbreviation PUSH17 :: instruction where
  "PUSH17 \<equiv> 0x70"

abbreviation PUSH18 :: instruction where
  "PUSH18 \<equiv> 0x71"

abbreviation PUSH19 :: instruction where
  "PUSH19 \<equiv> 0x72"

abbreviation PUSH20 :: instruction where
  "PUSH20 \<equiv> 0x73"

abbreviation PUSH21 :: instruction where
  "PUSH21 \<equiv> 0x74"

abbreviation PUSH22 :: instruction where
  "PUSH22 \<equiv> 0x75"

abbreviation PUSH23 :: instruction where
  "PUSH23 \<equiv> 0x76"

abbreviation PUSH24 :: instruction where
  "PUSH24 \<equiv> 0x77"

abbreviation PUSH25 :: instruction where
  "PUSH25 \<equiv> 0x78"

abbreviation PUSH26 :: instruction where
  "PUSH26 \<equiv> 0x79"

abbreviation PUSH27 :: instruction where
  "PUSH27 \<equiv> 0x7a"

abbreviation PUSH28 :: instruction where
  "PUSH28 \<equiv> 0x7b"

abbreviation PUSH29 :: instruction where
  "PUSH29 \<equiv> 0x7c"

abbreviation PUSH30 :: instruction where
  "PUSH30 \<equiv> 0x7d"

abbreviation PUSH31 :: instruction where
  "PUSH31 \<equiv> 0x7e"

abbreviation PUSH32 :: instruction where
  "PUSH32 \<equiv> 0x7f"

abbreviation DUP1 :: instruction where
  "DUP1 \<equiv> 0x80"

abbreviation DUP2 :: instruction where
  "DUP2 \<equiv> 0x81"

abbreviation DUP3 :: instruction where
  "DUP3 \<equiv> 0x82"

abbreviation DUP4 :: instruction where
  "DUP4 \<equiv> 0x83"

abbreviation DUP5 :: instruction where
  "DUP5 \<equiv> 0x84"

abbreviation DUP6 :: instruction where
  "DUP6 \<equiv> 0x85"

abbreviation DUP7 :: instruction where
  "DUP7 \<equiv> 0x86"

abbreviation DUP8 :: instruction where
  "DUP8 \<equiv> 0x87"

abbreviation DUP9 :: instruction where
  "DUP9 \<equiv> 0x88"

abbreviation DUP10 :: instruction where
  "DUP10 \<equiv> 0x89"

abbreviation DUP11 :: instruction where
  "DUP11 \<equiv> 0x8a"

abbreviation DUP12 :: instruction where
  "DUP12 \<equiv> 0x8b"

abbreviation DUP13 :: instruction where
  "DUP13 \<equiv> 0x8c"

abbreviation DUP14 :: instruction where
  "DUP14 \<equiv> 0x8d"

abbreviation DUP15 :: instruction where
  "DUP15 \<equiv> 0x8e"

abbreviation DUP16 :: instruction where
  "DUP16 \<equiv> 0x8f"

abbreviation SWAP1 :: instruction where
  "SWAP1 \<equiv> 0x90"

abbreviation SWAP2 :: instruction where
  "SWAP2 \<equiv> 0x91"

abbreviation SWAP3 :: instruction where
  "SWAP3 \<equiv> 0x92"

abbreviation SWAP4 :: instruction where
  "SWAP4 \<equiv> 0x93"

abbreviation SWAP5 :: instruction where
  "SWAP5 \<equiv> 0x94"

abbreviation SWAP6 :: instruction where
  "SWAP6 \<equiv> 0x95"

abbreviation SWAP7 :: instruction where
  "SWAP7 \<equiv> 0x96"

abbreviation SWAP8 :: instruction where
  "SWAP8 \<equiv> 0x97"

abbreviation SWAP9 :: instruction where
  "SWAP9 \<equiv> 0x98"

abbreviation SWAP10 :: instruction where
  "SWAP10 \<equiv> 0x99"

abbreviation SWAP11 :: instruction where
  "SWAP11 \<equiv> 0x9a"

abbreviation SWAP12 :: instruction where
  "SWAP12 \<equiv> 0x9b"

abbreviation SWAP13 :: instruction where
  "SWAP13 \<equiv> 0x9c"

abbreviation SWAP14 :: instruction where
  "SWAP14 \<equiv> 0x9d"

abbreviation SWAP15 :: instruction where
  "SWAP15 \<equiv> 0x9e"

abbreviation SWAP16 :: instruction where
  "SWAP16 \<equiv> 0x9f"

abbreviation LOG0 :: instruction where
  "LOG0 \<equiv> 0xa0"

abbreviation LOG1 :: instruction where
  "LOG1 \<equiv> 0xa1"

abbreviation LOG2 :: instruction where
  "LOG2 \<equiv> 0xa2"

abbreviation LOG3 :: instruction where
  "LOG3 \<equiv> 0xa3"

abbreviation LOG4 :: instruction where
  "LOG4 \<equiv> 0xa4"

abbreviation CREATE :: instruction where
  "CREATE \<equiv> 0xf0"

abbreviation CALL :: instruction where
  "CALL \<equiv> 0xf1"

abbreviation CALLCODE :: instruction where
  "CALLCODE \<equiv> 0xf2"

abbreviation RETURN :: instruction where
  "RETURN \<equiv> 0xf3"

abbreviation DELEGATECALL :: instruction where
  "DELEGATECALL \<equiv> 0xf4"

abbreviation CREATE2 :: instruction where
  "CREATE2 \<equiv> 0xfb"

abbreviation REVERT :: instruction where
  "REVERT \<equiv> 0xfd"

abbreviation STATICCALL :: instruction where
  "STATICCALL \<equiv> 0xfa"

abbreviation SUICIDE :: instruction where
  "SUICIDE \<equiv> 0xff"

abbreviation MAX_NO_OF_TOPICS :: nat where
  "MAX_NO_OF_TOPICS \<equiv> 4"

section \<open>Opcode families\<close>

definition is_push :: "instruction \<Rightarrow> bool" where
  "is_push i \<longleftrightarrow> PUSH1 \<le> i \<and> i \<le> PUSH32"

definition get_push_bytes :: "instruction \<Rightarrow> ('e, nat) outcome" where
  "get_push_bytes i = (if is_push i then Ok (unat (i - PUSH1 + 1)) else Panic Assert_failed)"

definition push_bytes :: "instruction \<Rightarrow> ('e, nat) outcome" where
  "push_bytes i = (if is_push i then get_push_bytes i else Ok 0)"

definition get_dup_position :: "instruction \<Rightarrow> ('e, nat) outcome" where
  "get_dup_position i = (if DUP1 \<le> i \<and> i \<le> DUP16 then Ok (unat (i - DUP1)) else Panic Assert_failed)"

definition get_swap_position :: "instruction \<Rightarrow> ('e, nat) outcome" where
  "get_swap_position i =
     (if SWAP1 \<le> i \<and> i \<le> SWAP16 then Ok (unat (i - SWAP1 + 1)) else Panic Assert_failed)"

definition get_log_topics :: "instruction \<Rightarrow> ('e, nat) outcome" where
  "get_log_topics i = (if LOG0 \<le> i \<and> i \<le> LOG4 then Ok (unat (i - LOG0)) else Panic Assert_failed)"

section \<open>Gas price tiers and the instruction table\<close>

datatype GasPriceTier = Zero | Base | VeryLow | Low | Mid | High | Ext | Special | Invalid

fun get_tier_idx :: "GasPriceTier \<Rightarrow> nat" where
  "get_tier_idx Zero = 0"
| "get_tier_idx Base = 1"
| "get_tier_idx VeryLow = 2"
| "get_tier_idx Low = 3"
| "get_tier_idx Mid = 4"
| "get_tier_idx High = 5"
| "get_tier_idx Ext = 6"
| "get_tier_idx Special = 7"
| "get_tier_idx Invalid = 8"

record InstructionInfo =
  info_name :: string
  info_args :: nat
  info_ret :: nat
  info_tier :: GasPriceTier

definition new_info :: "string \<Rightarrow> nat \<Rightarrow> nat \<Rightarrow> GasPriceTier \<Rightarrow> InstructionInfo" where
  "new_info nm a r t = \<lparr>info_name = nm, info_args = a, info_ret = r, info_tier = t\<rparr>"

definition default_info :: InstructionInfo where
  "default_info = \<lparr>info_name = [], info_args = 0, info_ret = 0, info_tier = Invalid\<rparr>"

text \<open>
  The assignments to the array \<open>INSTRUCTIONS\<close>, in the order of the source; entries that are not
  assigned keep the default, whose tier is \<open>Invalid\<close>.
\<close>

definition instruction_table :: "(instruction \<times> InstructionInfo) list" where
  "instruction_table =
    [
     (STOP, new_info ''STOP'' 0 0 Zero),
     (ADD, new_info ''ADD'' 2 1 VeryLow),
     (SUB, new_info ''SUB'' 2 1 VeryLow),
     (MUL, new_info ''MUL'' 2 1 Low),
     (DIV, new_info ''DIV'' 2 1 Low),
     (SDIV, new_info ''SDIV'' 2 1 Low),
     (MOD, new_info ''MOD'' 2 1 Low),
     (SMOD, new_info ''SMOD'' 2 1 Low),
     (EXP, new_info ''EXP'' 2 1 Special),
     (NOT, new_info ''NOT'' 1 1 VeryLow),
     (LT, new_info ''LT'' 2 1 VeryLow),
     (GT, new_info ''GT'' 2 1 VeryLow),
     (SLT, new_info ''SLT'' 2 1 VeryLow),
     (SGT, new_info ''SGT'' 2 1 VeryLow),
     (EQ, new_info ''EQ'' 2 1 VeryLow),
     (ISZERO, new_info ''ISZERO'' 1 1 VeryLow),
     (AND, new_info ''AND'' 2 1 VeryLow),
     (OR, new_info ''OR'' 2 1 VeryLow),
     (XOR, new_info ''XOR'' 2 1 VeryLow),
     (BYTE, new_info ''BYTE'' 2 1 VeryLow),
     (ADDMOD, new_info ''ADDMOD'' 3 1 Mid),
     (MULMOD, new_info ''MULMOD'' 3 1 Mid),
     (SIGNEXTEND, new_info ''SIGNEXTEND'' 2 1 Low),
     (RETURNDATASIZE, new_info ''RETURNDATASIZE'' 0 1 Base),
     (RETURNDATACOPY, new_info ''RETURNDATACOPY'' 3 0 VeryLow),
     (SHA3, new_info ''SHA3'' 2 1 Special),
     (ADDRESS, new_info ''ADDRESS'' 0 1 Base),
     (BALANCE, new_info ''BALANCE'' 1 1 Special),
     (ORIGIN, new_info ''ORIGIN'' 0 1 Base),
     (CALLER, new_info ''CALLER'' 0 1 Base),
     (CALLVALUE, new_info ''CALLVALUE'' 0 1 Base),
     (CALLDATALOAD, new_info ''CALLDATALOAD'' 1 1 VeryLow),
     (CALLDATASIZE, new_info ''CALLDATASIZE'' 0 1 Base),
     (CALLDATACOPY, new_info ''CALLDATACOPY'' 3 0 VeryLow),
     (CODESIZE, new_info ''CODESIZE'' 0 1 Base),
     (CODECOPY, new_info ''CODECOPY'' 3 0 VeryLow),
     (GASPRICE, new_info ''GASPRICE'' 0 1 Base),
     (EXTCODESIZE, new_info ''EXTCODESIZE'' 1 1 Special),
     (EXTCODECOPY, new_info ''EXTCODECOPY'' 4 0 Special),
     (BLOCKHASH, new_info ''BLOCKHASH'' 1 1 Ext),
     (COINBASE, new_info ''COINBASE'' 0 1 Base),
     (TIMESTAMP, new_info ''TIMESTAMP'' 0 1 Base),
     (NUMBER, new_info ''NUMBER'' 0 1 Base),
     (DIFFICULTY, new_info ''DIFFICULTY'' 0 1 Base),
     (GASLIMIT, new_info ''GASLIMIT'' 0 1 Base),
     (POP, new_info ''POP'' 1 0 Base),
     (MLOAD, new_info ''MLOAD'' 1 1 VeryLow),
     (MSTORE, new_info ''MSTORE'' 2 0 VeryLow),
     (MSTORE8, new_info ''MSTORE8'' 2 0 VeryLow),
     (SLOAD, new_info ''SLOAD'' 1 1 Special),
     (SSTORE, new_info ''SSTORE'' 2 0 Special),
     (JUMP, new_info ''JUMP'' 1 0 Mid),
     (JUMPI, new_info ''JUMPI'' 2 0 High),
     (PC, new_info ''PC'' 0 1 Base),
     (MSIZE, new_info ''MSIZE'' 0 1 Base),
     (GAS, new_info ''GAS'' 0 1 Base),
     (JUMPDEST, new_info ''JUMPDEST'' 0 0 Special),
     (PUSH1, new_info ''PUSH1'' 0 1 VeryLow),
     (PUSH2, new_info ''PUSH2'' 0 1 VeryLow),
     (PUSH3, new_info ''PUSH3'' 0 1 VeryLow),
     (PUSH4, new_info ''PUSH4'' 0 1 VeryLow),
     (PUSH5, new_info ''PUSH5'' 0 1 VeryLow),
     (PUSH6, new_info ''PUSH6'' 0 1 VeryLow),
     (PUSH7, new_info ''PUSH7'' 0 1 VeryLow),
     (PUSH8, new_info ''PUSH8'' 0 1 VeryLow),
     (PUSH9, new_info ''PUSH9'' 0 1 VeryLow),
     (PUSH10, new_info ''PUSH10'' 0 1 VeryLow),
     (PUSH11, new_info ''PUSH11'' 0 1 VeryLow),
     (PUSH12, new_info ''PUSH12'' 0 1 VeryLow),
     (PUSH13, new_info ''PUSH13'' 0 1 VeryLow),
     (PUSH14, new_info ''PUSH14'' 0 1 VeryLow),
     (PUSH15, new_info ''PUSH15'' 0 1 VeryLow),
     (PUSH16, new_info ''PUSH16'' 0 1 VeryLow),
     (PUSH17, new_info ''PUSH17'' 0 1 VeryLow),
     (PUSH18, new_info ''PUSH18'' 0 1 VeryLow),
     (PUSH19, new_info ''PUSH19'' 0 1 VeryLow),
     (PUSH20, new_info ''PUSH20'' 0 1 VeryLow),
     (PUSH21, new_info ''PUSH21'' 0 1 VeryLow),
     (PUSH22, new_info ''PUSH22'' 0 1 VeryLow),
     (PUSH23, new_info ''PUSH23'' 0 1 VeryLow),
     (PUSH24, new_info ''PUSH24'' 0 1 VeryLow),
     (PUSH25, new_info ''PUSH25'' 0 1 VeryLow),
     (PUSH26, new_info ''PUSH26'' 0 1 VeryLow),
     (PUSH27, new_info ''PUSH27'' 0 1 VeryLow),
     (PUSH28, new_info ''PUSH28'' 0 1 VeryLow),
     (PUSH29, new_info ''PUSH29'' 0 1 VeryLow),
     (PUSH30, new_info ''PUSH30'' 0 1 VeryLow),
     (PUSH31, new_info ''PUSH31'' 0 1 VeryLow),
     (PUSH32, new_info ''PUSH32'' 0 1 VeryLow),
     (DUP1, new_info ''DUP1'' 1 2 VeryLow),
     (DUP2, new_info ''DUP2'' 2 3 VeryLow),
     (DUP3, new_info ''DUP3'' 3 4 VeryLow),
     (DUP4, new_info ''DUP4'' 4 5 VeryLow),
     (DUP5, new_info ''DUP5'' 5 6 VeryLow),
     (DUP6, new_info ''DUP6'' 6 7 VeryLow),
     (DUP7, new_info ''DUP7'' 7 8 VeryLow),
     (DUP8, new_info ''DUP8'' 8 9 VeryLow),
     (DUP9, new_info ''DUP9'' 9 10 VeryLow),
     (DUP10, new_info ''DUP10'' 10 11 VeryLow),
     (DUP11, new_info ''DUP11'' 11 12 VeryLow),
     (DUP12, new_info ''DUP12'' 12 13 VeryLow),
     (DUP13, new_info ''DUP13'' 13 14 VeryLow),
     (DUP14, new_info ''DUP14'' 14 15 VeryLow),
     (DUP15, new_info ''DUP15'' 15 16 VeryLow),
     (DUP16, new_info ''DUP16'' 16 17 VeryLow),
     (SWAP1, new_info ''SWAP1'' 2 2 VeryLow),
     (SWAP2, new_info ''SWAP2'' 3 3 VeryLow),
     (SWAP3, new_info ''SWAP3'' 4 4 VeryLow),
     (SWAP4, new_info ''SWAP4'' 5 5 VeryLow),
     (SWAP5, new_info ''SWAP5'' 6 6 VeryLow),
     (SWAP6, new_info ''SWAP6'' 7 7 VeryLow),
     (SWAP7, new_info ''SWAP7'' 8 8 VeryLow),
     (SWAP8, new_info ''SWAP8'' 9 9 VeryLow),
     (SWAP9, new_info ''SWAP9'' 10 10 VeryLow),
     (SWAP10, new_info ''SWAP10'' 11 11 VeryLow),
     (SWAP11, new_info ''SWAP11'' 12 12 VeryLow),
     (SWAP12, new_info ''SWAP12'' 13 13 VeryLow),
     (SWAP13, new_info ''SWAP13'' 14 14 VeryLow),
     (SWAP14, new_info ''SWAP14'' 15 15 VeryLow),
     (SWAP15, new_info ''SWAP15'' 16 16 VeryLow),
     (SWAP16, new_info ''SWAP16'' 17 17 VeryLow),
     (LOG0, new_info ''LOG0'' 2 0 Special),
     (LOG1, new_info ''LOG1'' 3 0 Special),
     (LOG2, new_info ''LOG2'' 4 0 Special),
     (LOG3, new_info ''LOG3'' 5 0 Special),
     (LOG4, new_info ''LOG4'' 6 0 Special),
     (CREATE, new_info ''CREATE'' 3 1 Special),
     (CALL, new_info ''CALL'' 7 1 Special),
     (CALLCODE, new_info ''CALLCODE'' 7 1 Special),
     (RETURN, new_info ''RETURN'' 2 0 Zero),
     (DELEGATECALL, new_info ''DELEGATECALL'' 6 1 Special),
     (STATICCALL, new_info ''STATICCALL'' 6 1 Special),
     (SUICIDE, new_info ''SUICIDE'' 1 0 Special),
     (CREATE2, new_info ''CREATE2'' 3 1 Special),
     (REVERT, new_info ''REVERT'' 2 0 Zero)]"

definition INSTRUCTIONS :: "instruction \<Rightarrow> InstructionInfo" where
  "INSTRUCTIONS i = (case map_of instruction_table i of Some info \<Rightarrow> info | None \<Rightarrow> default_info)"

section \<open>Lemmas\<close>

text \<open>A statement about a family of consecutive opcodes is checked opcode by opcode.\<close>

lemma u8_interval:
  assumes "a \<le> i" "i \<le> (b :: u8)" "list_all (\<lambda>n. P (of_nat n)) [unat a..<Suc (unat b)]"
  shows "P i"
proof -
  from assms(1,2) have "unat i \<in> set [unat a..<Suc (unat b)]" by (auto simp: word_le_nat_alt)
  with assms(3) have "P (of_nat (unat i))" unfolding list_all_iff by blast
  then show ?thesis by simp
qed

lemma distinct_instruction_table: "distinct (map fst instruction_table)"
  by code_simp

lemma INSTRUCTIONS_table: "(i, info) \<in> set instruction_table \<Longrightarrow> INSTRUCTIONS i = info"
  using distinct_instruction_table by (simp add: INSTRUCTIONS_def)

lemma INSTRUCTIONS_all: "list_all (\<lambda>(i, info). INSTRUCTIONS i = info) instruction_table"
  using INSTRUCTIONS_table by (simp add: list_all_iff split_beta)

text \<open>One equation per row of the table.\<close>

lemmas INSTRUCTIONS_simps =
  INSTRUCTIONS_all [unfolded instruction_table_def list.pred_inject prod.case new_info_def]

lemma push_info:
  assumes "is_push i"
  shows "info_args (INSTRUCTIONS i) = 0 \<and> info_ret (INSTRUCTIONS i) = 1 \<and> info_tier (INSTRUCTIONS i) = VeryLow"
  by (rule u8_interval [of PUSH1 _ PUSH32])
    (use assms in \<open>simp_all add: is_push_def upt_rec_numeral INSTRUCTIONS_simps\<close>)

lemma dup_info:
  assumes "DUP1 \<le> i" "i \<le> DUP16"
  shows "info_args (INSTRUCTIONS i) = unat (i - DUP1) + 1 \<and> info_ret (INSTRUCTIONS i) = unat (i - DUP1) + 2
    \<and> info_tier (INSTRUCTIONS i) = VeryLow"
  by (rule u8_interval [of DUP1 _ DUP16]) (use assms in \<open>simp_all add: upt_rec_numeral INSTRUCTIONS_simps\<close>)

lemma swap_info:
  assumes "SWAP1 \<le> i" "i \<le> SWAP16"
  shows "info_args (INSTRUCTIONS i) = unat (i - SWAP1 + 1) + 1 \<and> info_ret (INSTRUCTIONS i) = unat (i - SWAP1 + 1) + 1
    \<and> info_tier (INSTRUCTIONS i) = VeryLow"
  by (rule u8_interval [of SWAP1 _ SWAP16]) (use assms in \<open>simp_all add: upt_rec_numeral INSTRUCTIONS_simps\<close>)

lemma log_info:
  assumes "LOG0 \<le> i" "i \<le> LOG4"
  shows "info_args (INSTRUCTIONS i) = unat (i - LOG0) + 2 \<and> info_ret (INSTRUCTIONS i) = 0
    \<and> info_tier (INSTRUCTIONS i) = Special \<and> unat (i - LOG0) \<le> MAX_NO_OF_TOPICS"
  by (rule u8_interval [of LOG0 _ LOG4]) (use assms in \<open>simp_all add: upt_rec_numeral INSTRUCTIONS_simps\<close>)

end
