(* ===== verification/Schedule.thy ===== *)
theory Schedule
  imports Prelude
begin

text \<open>
  The cost schedule of the EVM and its constructors for the eras of the main network
  (\<open>ethcore/vm/src/schedule.rs\<close>), and the conditions on a schedule under which the gas arithmetic of the
  interpreter is safe.
\<close>

section \<open>Data\<close>

datatype CleanDustMode = Off | BasicOnly | WithCodeAndStorage

record WasmCosts =
  wasm_alloc :: nat
  wasm_div :: nat
  wasm_mul :: nat
  wasm_mem :: nat
  wasm_mem_cmp :: nat
  wasm_mem_copy :: nat
  wasm_mem_move :: nat
  wasm_mem_set :: nat
  wasm_static_region :: nat
  wasm_static_u256 :: nat
  wasm_static_address :: nat

record Schedule =
  exceptional_failed_code_deposit :: bool
  have_delegate_call :: bool
  have_create2 :: bool
  have_revert :: bool
  stack_limit :: nat
  max_depth :: nat
  tier_step_gas :: "nat list"
  exp_gas :: nat
  exp_byte_gas :: nat
  sha3_gas :: nat
  sha3_word_gas :: nat
  sload_gas :: nat
  sstore_set_gas :: nat
  sstore_reset_gas :: nat
  sstore_refund_gas :: nat
  jumpdest_gas :: nat
  log_gas :: nat
  log_data_gas :: nat
  log_topic_gas :: nat
  create_gas :: nat
  call_gas :: nat
  call_stipend :: nat
  call_value_transfer_gas :: nat
  call_new_account_gas :: nat
  suicide_refund_gas :: nat
  memory_gas :: nat
  quad_coeff_div :: nat
  create_data_gas :: nat
  create_data_limit :: nat
  tx_gas :: nat
  tx_create_gas :: nat
  tx_data_zero_gas :: nat
  tx_data_non_zero_gas :: nat
  copy_gas :: nat
  extcodesize_gas :: nat
  extcodecopy_base_gas :: nat
  balance_gas :: nat
  suicide_gas :: nat
  suicide_to_new_account_cost :: nat
  sub_gas_cap_divisor :: "nat option"
  no_empty :: bool
  kill_empty :: bool
  blockhash_gas :: nat
  have_static_call :: bool
  have_return_data :: bool
  kill_dust :: CleanDustMode
  eip86 :: bool
  wasm :: WasmCosts

section \<open>Constructors\<close>

definition default_wasm_costs :: WasmCosts where
  "default_wasm_costs =
    \<lparr>wasm_alloc = 2, wasm_div = 16, wasm_mul = 4, wasm_mem = 2, wasm_mem_cmp = 1,
     wasm_mem_copy = 1, wasm_mem_move = 1, wasm_mem_set = 1, wasm_static_region = 1,
     wasm_static_u256 = 64, wasm_static_address = 40\<rparr>"

definition schedule_new :: "bool \<Rightarrow> bool \<Rightarrow> nat \<Rightarrow> Schedule" where
  "schedule_new efcd hdc tcg =
    \<lparr>exceptional_failed_code_deposit = efcd, have_delegate_call = hdc, have_create2 = False,
     have_revert = False, stack_limit = 1024, max_depth = 1024,
     tier_step_gas = [0, 2, 3, 5, 8, 10, 20, 0], exp_gas = 10, exp_byte_gas = 10, sha3_gas = 30,
     sha3_word_gas = 6, sload_gas = 50, sstore_set_gas = 20000, sstore_reset_gas = 5000,
     sstore_refund_gas = 15000, jumpdest_gas = 1, log_gas = 375, log_data_gas = 8,
     log_topic_gas = 375, create_gas = 32000, call_gas = 40, call_stipend = 2300,
     call_value_transfer_gas = 9000, call_new_account_gas = 25000, suicide_refund_gas = 24000,
     memory_gas = 3, quad_coeff_div = 512, create_data_gas = 200,
     create_data_limit = 2 ^ 64 - 1, tx_gas = 21000, tx_create_gas = tcg, tx_data_zero_gas = 4,
     tx_data_non_zero_gas = 68, copy_gas = 3, extcodesize_gas = 20, extcodecopy_base_gas = 20,
     balance_gas = 20, suicide_gas = 0, suicide_to_new_account_cost = 0,
     sub_gas_cap_divisor = None, no_empty = False, kill_empty = False, blockhash_gas = 20,
     have_static_call = False, have_return_data = False, kill_dust = Off, eip86 = False,
     wasm = default_wasm_costs\<rparr>"

definition new_frontier :: Schedule where
  "new_frontier = schedule_new False False 21000"

definition new_homestead :: Schedule where
  "new_homestead = schedule_new True True 53000"

definition new_post_eip150 :: "nat \<Rightarrow> bool \<Rightarrow> bool \<Rightarrow> bool \<Rightarrow> Schedule" where
  "new_post_eip150 max_code_size fix_exp noem killem =
    \<lparr>exceptional_failed_code_deposit = True, have_delegate_call = True, have_create2 = False,
     have_revert = False, stack_limit = 1024, max_depth = 1024,
     tier_step_gas = [0, 2, 3, 5, 8, 10, 20, 0], exp_gas = 10,
     exp_byte_gas = (if fix_exp then 50 else 10), sha3_gas = 30, sha3_word_gas = 6,
     sload_gas = 200, sstore_set_gas = 20000, sstore_reset_gas = 5000,
     sstore_refund_gas = 15000, jumpdest_gas = 1, log_gas = 375, log_data_gas = 8,
     log_topic_gas = 375, create_gas = 32000, call_gas = 700, call_stipend = 2300,
     call_value_transfer_gas = 9000, call_new_account_gas = 25000, suicide_refund_gas = 24000,
     memory_gas = 3, quad_coeff_div = 512, create_data_gas = 200,
     create_data_limit = max_code_size, tx_gas = 21000, tx_create_gas = 53000,
     tx_data_zero_gas = 4, tx_data_non_zero_gas = 68, copy_gas = 3, extcodesize_gas = 700,
     extcodecopy_base_gas = 700, balance_gas = 400, suicide_gas = 5000,
     suicide_to_new_account_cost = 25000, sub_gas_cap_divisor = Some 64, no_empty = noem,
     kill_empty = killem, blockhash_gas = 20, have_static_call = False,
     have_return_data = False, kill_dust = Off, eip86 = False, wasm = default_wasm_costs\<rparr>"

definition new_byzantium :: Schedule where
  "new_byzantium = (new_post_eip150 24576 True True True)
    \<lparr>have_create2 := True, have_revert := True, have_static_call := True, have_return_data := True\<rparr>"

definition default_schedule :: Schedule where
  "default_schedule = new_frontier"

section \<open>Well-formed schedules\<close>

text \<open>
  Prices charged for an instruction on its own: each is positive and fits 32 bits, so that every
  instruction that does not halt costs gas and no sum of prices leaves a \<open>usize\<close>.
\<close>

definition base_prices :: "Schedule \<Rightarrow> nat list" where
  "base_prices s = [exp_gas s, sha3_gas s, sload_gas s, sstore_set_gas s, sstore_reset_gas s, log_gas s,
     create_gas s, call_gas s, extcodesize_gas s, extcodecopy_base_gas s, balance_gas s, blockhash_gas s]"

text \<open>Prices added to or multiplied into a base price.\<close>

definition extra_prices :: "Schedule \<Rightarrow> nat list" where
  "extra_prices s = [exp_byte_gas s, sha3_word_gas s, log_data_gas s, log_topic_gas s, call_stipend s,
     call_value_transfer_gas s, call_new_account_gas s, memory_gas s, copy_gas s, suicide_gas s,
     suicide_to_new_account_cost s]"

definition wf_schedule :: "Schedule \<Rightarrow> bool" where
  "wf_schedule s \<longleftrightarrow>
     length (tier_step_gas s) = 8 \<and> (\<forall>c \<in> set (tier_step_gas s). c < 2 ^ 32)
     \<and> (\<forall>t \<in> set [1, 2, 3, 4, 5, 6]. 0 < tier_step_gas s ! t)
     \<and> (\<forall>c \<in> set (base_prices s). 0 < c \<and> c < 2 ^ 32) \<and> (\<forall>c \<in> set (extra_prices s). c < 2 ^ 32)
     \<and> sha3_word_gas s < 2 ^ 4 \<and> copy_gas s < 2 ^ 4
     \<and> call_stipend s < call_value_transfer_gas s \<and> quad_coeff_div s = 512 \<and> stack_limit s < 2 ^ 32
     \<and> (\<forall>d. sub_gas_cap_divisor s = Some d \<longrightarrow> 0 < d \<and> d < 2 ^ 32)"

lemmas schedule_defs = new_frontier_def new_homestead_def new_byzantium_def new_post_eip150_def
  schedule_new_def default_schedule_def base_prices_def extra_prices_def

lemma wf_schedule_new: "wf_schedule (schedule_new efcd hdc tcg)"
  by (simp add: wf_schedule_def schedule_defs)

lemma wf_new_post_eip150: "wf_schedule (new_post_eip150 sz fe ne ke)"
  by (simp add: wf_schedule_def schedule_defs)

lemma wf_new_byzantium: "wf_schedule new_byzantium"
  by (simp add: wf_schedule_def schedule_defs)

lemma wf_schedule_tier:
  assumes "wf_schedule s" "t < 8"
  shows "tier_step_gas s ! t < 2 ^ 32"
proof -
  from assms have "t < length (tier_step_gas s)" by (simp add: wf_schedule_def)
  then have "tier_step_gas s ! t \<in> set (tier_step_gas s)" by (rule nth_mem)
  with assms(1) show ?thesis by (auto simp: wf_schedule_def)
qed

text \<open>The conditions, one fact each, for use in proofs.\<close>

lemma wf_schedule_base: "wf_schedule s \<Longrightarrow> c \<in> set (base_prices s) \<Longrightarrow> 0 < c \<and> c < 2 ^ 32"
  by (simp add: wf_schedule_def)

lemma wf_schedule_extra: "wf_schedule s \<Longrightarrow> c \<in> set (extra_prices s) \<Longrightarrow> c < 2 ^ 32"
  by (simp add: wf_schedule_def)

end
