(* ===== verification/Vm_Types.thy ===== *)
theory Vm_Types
  imports Schedule
begin

text \<open>
  The vocabulary a virtual machine shares with its host (\<open>ethcore/vm/src\<close>): errors, return data, the
  parameters of an action, the block environment, and the interface \<open>Ext\<close> through which the machine reads
  and changes the world.  The trait object of the source is a record of operations (a dictionary) over
  an abstract host state; the locale \<open>ext_host\<close> states what the machine relies on, and is interpreted by
  the hosts.
\<close>

section \<open>Errors\<close>

datatype vm_error =
    OutOfGas
  | BadJumpDestination nat
  | BadInstruction u8
  | StackUnderflow string nat nat
  | OutOfStack string nat nat
  | BuiltIn string
  | MutableCallInStaticContext
  | Internal string
  | Wasm string
  | OutOfBounds
  | Reverted

type_synonym 'a vm_result = "(vm_error, 'a) outcome"
type_synonym ('s, 'a) vm_comp = "(vm_error, 's, 'a) comp"

section \<open>Return data\<close>

record ReturnData =
  rd_mem :: bytes
  rd_offset :: nat
  rd_size :: nat

definition rd_empty :: ReturnData where
  "rd_empty = \<lparr>rd_mem = [], rd_offset = 0, rd_size = 0\<rparr>"

definition rd_new :: "bytes \<Rightarrow> nat \<Rightarrow> nat \<Rightarrow> ReturnData" where
  "rd_new m off sz = \<lparr>rd_mem = m, rd_offset = off, rd_size = sz\<rparr>"

text \<open>The slice a \<open>ReturnData\<close> dereferences to.\<close>

definition rd_deref :: "ReturnData \<Rightarrow> bytes vm_result" where
  "rd_deref rd = slice (rd_mem rd) (rd_offset rd) (rd_offset rd + rd_size rd)"

definition wf_return_data :: "ReturnData \<Rightarrow> bool" where
  "wf_return_data rd \<longleftrightarrow> vec_ok (rd_mem rd) \<and> rd_offset rd + rd_size rd \<le> length (rd_mem rd)"

definition rd_bytes :: "ReturnData \<Rightarrow> bytes" where
  "rd_bytes rd = take (rd_size rd) (drop (rd_offset rd) (rd_mem rd))"

lemma rd_deref_wf: "wf_return_data rd \<Longrightarrow> rd_deref rd = Ok (rd_bytes rd)"
  by (simp add: wf_return_data_def rd_deref_def rd_bytes_def slice_def)

lemma length_rd_bytes: "wf_return_data rd \<Longrightarrow> length (rd_bytes rd) = rd_size rd"
  by (auto simp: wf_return_data_def rd_bytes_def)

lemma vec_ok_rd_bytes: "wf_return_data rd \<Longrightarrow> vec_ok (rd_bytes rd)"
  by (simp add: wf_return_data_def rd_bytes_def vec_ok_def min_def)

lemma wf_rd_empty [simp]: "wf_return_data rd_empty"
  by (simp add: rd_empty_def wf_return_data_def vec_ok_def)

datatype GasLeft =
    Known u256
  | NeedsReturn u256 ReturnData bool

section \<open>Action parameters and environment\<close>

datatype CallType = NoCall | Call | CallCode | DelegateCall | StaticCall

datatype ActionValue = Transfer u256 | Apparent u256

fun action_value :: "ActionValue \<Rightarrow> u256" where
  "action_value (Transfer x) = x"
| "action_value (Apparent x) = x"

datatype ParamsType = Embedded | Separate

record ActionParams =
  ap_code_address :: address
  ap_code_hash :: "h256 option"
  ap_address :: address
  ap_sender :: address
  ap_origin :: address
  ap_gas :: u256
  ap_gas_price :: u256
  ap_value :: ActionValue
  ap_code :: "bytes option"
  ap_data :: "bytes option"
  ap_call_type :: CallType
  ap_params_type :: ParamsType

definition KECCAK_EMPTY :: h256 where
  "KECCAK_EMPTY = 0xc5d2460186f7233c927e7db2dcc703c0e500b653ca82273b7bfad8045d85a470"

definition default_params :: ActionParams where
  "default_params = \<lparr>ap_code_address = 0, ap_code_hash = Some KECCAK_EMPTY, ap_address = 0, ap_sender = 0,
     ap_origin = 0, ap_gas = 0, ap_gas_price = 0, ap_value = Transfer 0, ap_code = None, ap_data = None,
     ap_call_type = NoCall, ap_params_type = Separate\<rparr>"

record EnvInfo =
  ei_number :: nat
  ei_author :: address
  ei_timestamp :: nat
  ei_difficulty :: u256
  ei_gas_limit :: u256
  ei_last_hashes :: "h256 list"
  ei_gas_used :: u256

definition default_env_info :: EnvInfo where
  "default_env_info = \<lparr>ei_number = 0, ei_author = 0, ei_timestamp = 0, ei_difficulty = 0, ei_gas_limit = 0,
     ei_last_hashes = [], ei_gas_used = 0\<rparr>"

section \<open>The host interface\<close>

datatype ContractCreateResult =
    Created address u256
  | CreateFailed
  | CreateReverted u256 ReturnData

datatype MessageCallResult =
    CallSuccess u256 ReturnData
  | CallFailed
  | CallReverted u256 ReturnData

datatype CreateContractAddress = FromSenderAndNonce | FromCodeHash | FromSenderAndCodeHash

text \<open>
  The trait \<open>Ext\<close>.  Methods that take \<open>&self\<close> may still fill caches behind interior mutability, so all
  methods are computations on the host state; the four accessors \<open>schedule\<close>, \<open>env_info\<close>, \<open>depth\<close> and
  \<open>is_static\<close> are plain functions.  \<open>call\<close> receives the current contents of the output slice and returns
  its new contents beside the result.
\<close>

record 'e ext_ops =
  ext_storage_at :: "h256 \<Rightarrow> ('e, h256) vm_comp"
  ext_set_storage :: "h256 \<Rightarrow> h256 \<Rightarrow> ('e, unit) vm_comp"
  ext_exists :: "address \<Rightarrow> ('e, bool) vm_comp"
  ext_exists_and_not_null :: "address \<Rightarrow> ('e, bool) vm_comp"
  ext_origin_balance :: "('e, u256) vm_comp"
  ext_balance :: "address \<Rightarrow> ('e, u256) vm_comp"
  ext_blockhash :: "u256 \<Rightarrow> ('e, h256) vm_comp"
  ext_create :: "u256 \<Rightarrow> u256 \<Rightarrow> bytes \<Rightarrow> CreateContractAddress \<Rightarrow> ('e, ContractCreateResult) vm_comp"
  ext_call :: "u256 \<Rightarrow> address \<Rightarrow> address \<Rightarrow> u256 option \<Rightarrow> bytes \<Rightarrow> address \<Rightarrow> bytes \<Rightarrow> CallType \<Rightarrow>
     ('e, MessageCallResult \<times> bytes) vm_comp"
  ext_extcode :: "address \<Rightarrow> ('e, bytes) vm_comp"
  ext_extcodesize :: "address \<Rightarrow> ('e, nat) vm_comp"
  ext_log :: "h256 list \<Rightarrow> bytes \<Rightarrow> ('e, unit) vm_comp"
  ext_ret :: "u256 \<Rightarrow> ReturnData \<Rightarrow> bool \<Rightarrow> ('e, u256) vm_comp"
  ext_suicide :: "address \<Rightarrow> ('e, unit) vm_comp"
  ext_inc_sstore_clears :: "('e, unit) vm_comp"
  ext_trace_next_instruction :: "nat \<Rightarrow> u8 \<Rightarrow> u256 \<Rightarrow> ('e, bool) vm_comp"
  ext_trace_prepare_execute :: "nat \<Rightarrow> u8 \<Rightarrow> u256 \<Rightarrow> ('e, unit) vm_comp"
  ext_trace_executed :: "u256 \<Rightarrow> u256 list \<Rightarrow> (nat \<times> bytes) option \<Rightarrow> (u256 \<times> u256) option \<Rightarrow> ('e, unit) vm_comp"
  ext_schedule :: "'e \<Rightarrow> Schedule"
  ext_env_info :: "'e \<Rightarrow> EnvInfo"
  ext_depth :: "'e \<Rightarrow> nat"
  ext_is_static :: "'e \<Rightarrow> bool"

text \<open>What no operation of the host may change while a machine is running on it.\<close>

definition same_env :: "'e ext_ops \<Rightarrow> 'e \<Rightarrow> 'e \<Rightarrow> bool" where
  "same_env X e e' \<longleftrightarrow> ext_schedule X e' = ext_schedule X e \<and> ext_env_info X e' = ext_env_info X e
     \<and> ext_depth X e' = ext_depth X e \<and> ext_is_static X e' = ext_is_static X e"

lemma same_env_refl [simp]: "same_env X e e"
  by (simp add: same_env_def)

lemma same_env_trans: "same_env X a b \<Longrightarrow> same_env X b c \<Longrightarrow> same_env X a c"
  by (simp add: same_env_def)

fun create_ok :: "u256 \<Rightarrow> ContractCreateResult \<Rightarrow> bool" where
  "create_ok g (Created a left) \<longleftrightarrow> left \<le> g"
| "create_ok g CreateFailed \<longleftrightarrow> True"
| "create_ok g (CreateReverted left rd) \<longleftrightarrow> left \<le> g \<and> wf_return_data rd"

fun call_ok :: "u256 \<Rightarrow> MessageCallResult \<Rightarrow> bool" where
  "call_ok g (CallSuccess left rd) \<longleftrightarrow> left \<le> g \<and> wf_return_data rd"
| "call_ok g CallFailed \<longleftrightarrow> True"
| "call_ok g (CallReverted left rd) \<longleftrightarrow> left \<le> g \<and> wf_return_data rd"

text \<open>
  An operation of the host keeps the host's invariant and the environment, and its result satisfies
  \<open>Q\<close>.  By the definition of \<open>wp\<close> it may panic only in the host's own code.
\<close>

definition host_op :: "'e ext_ops \<Rightarrow> ('e \<Rightarrow> bool) \<Rightarrow> ('e, 'a) vm_comp \<Rightarrow> ('a \<Rightarrow> bool) \<Rightarrow> bool" where
  "host_op X hinv m Q \<longleftrightarrow> (\<forall>e. hinv e \<longrightarrow>
     wp m (\<lambda>a e'. hinv e' \<and> same_env X e e' \<and> Q a) (\<lambda>err e'. hinv e' \<and> same_env X e e') e)"

lemma host_opD:
  "host_op X hinv m Q \<Longrightarrow> hinv e \<Longrightarrow>
     wp m (\<lambda>a e'. hinv e' \<and> same_env X e e' \<and> Q a) (\<lambda>err e'. hinv e' \<and> same_env X e e') e"
  by (simp add: host_op_def)

text \<open>The contract composes like the computations do.\<close>

lemma host_op_lift: "sound r Q \<Longrightarrow> host_op X hinv (lift r) Q"
  by (cases r) (simp_all add: host_op_def wp_lift)

lemma host_op_ok: "Q a \<Longrightarrow> host_op X hinv (ok a) Q"
  by (simp add: host_op_def wp_ok)

lemma host_op_and_then:
  assumes "host_op X hinv m P" "\<And>a. P a \<Longrightarrow> host_op X hinv (f a) Q"
  shows "host_op X hinv (and_then m f) Q"
  unfolding host_op_def wp_and_then
proof (intro allI impI)
  fix e assume "hinv e"
  from host_opD [OF assms(1) this]
  show "wp m (\<lambda>a. wp (f a) (\<lambda>b e'. hinv e' \<and> same_env X e e' \<and> Q b) (\<lambda>_ e'. hinv e' \<and> same_env X e e'))
          (\<lambda>_ e'. hinv e' \<and> same_env X e e') e"
  proof (rule wp_mono)
    fix a s assume "hinv s \<and> same_env X e s \<and> P a"
    then show "wp (f a) (\<lambda>b e'. hinv e' \<and> same_env X e e' \<and> Q b) (\<lambda>_ e'. hinv e' \<and> same_env X e e') s"
      using host_opD [OF assms(2), of a s] by (auto elim!: wp_mono intro: same_env_trans)
  qed simp
qed

lemma host_op_if: "(b \<Longrightarrow> host_op X hinv m Q) \<Longrightarrow> (\<not> b \<Longrightarrow> host_op X hinv m' Q) \<Longrightarrow> host_op X hinv (if b then m else m') Q"
  by simp

lemma host_op_weaken: "host_op X hinv m P \<Longrightarrow> (\<And>a. P a \<Longrightarrow> Q a) \<Longrightarrow> host_op X hinv m Q"
  unfolding host_op_def by (blast intro: wp_mono)

locale ext_host =
  fixes X :: "'e ext_ops" and hinv :: "'e \<Rightarrow> bool"
  assumes host_schedule: "hinv e \<Longrightarrow> wf_schedule (ext_schedule X e)"
    and host_storage_at: "host_op X hinv (ext_storage_at X k) (\<lambda>_. True)"
    and host_set_storage: "host_op X hinv (ext_set_storage X k v) (\<lambda>_. True)"
    and host_exists: "host_op X hinv (ext_exists X a) (\<lambda>_. True)"
    and host_exists_and_not_null: "host_op X hinv (ext_exists_and_not_null X a) (\<lambda>_. True)"
    and host_origin_balance: "host_op X hinv (ext_origin_balance X) (\<lambda>_. True)"
    and host_balance: "host_op X hinv (ext_balance X a) (\<lambda>_. True)"
    and host_blockhash: "host_op X hinv (ext_blockhash X n) (\<lambda>_. True)"
    and host_create: "host_op X hinv (ext_create X g v c sch) (create_ok g)"
    and host_call: "host_op X hinv (ext_call X g s r w d ca out ct)
      (\<lambda>(res, out'). call_ok g res \<and> length out' = length out)"
    and host_extcode: "host_op X hinv (ext_extcode X a) vec_ok"
    and host_extcodesize: "host_op X hinv (ext_extcodesize X a) (\<lambda>n. n < usize_range)"
    and host_log: "host_op X hinv (ext_log X tps d) (\<lambda>_. True)"
    and host_ret: "host_op X hinv (ext_ret X g rd ap) (\<lambda>left. left \<le> g)"
    and host_suicide: "host_op X hinv (ext_suicide X a) (\<lambda>_. True)"
    and host_inc_sstore_clears: "host_op X hinv (ext_inc_sstore_clears X) (\<lambda>_. True)"
    and host_trace_next: "host_op X hinv (ext_trace_next_instruction X pc i g) (\<lambda>_. True)"
    and host_trace_prepare: "host_op X hinv (ext_trace_prepare_execute X pc i g) (\<lambda>_. True)"
    and host_trace_executed: "host_op X hinv (ext_trace_executed X g st md sd) (\<lambda>_. True)"
begin

lemmas host_ops = host_storage_at host_set_storage host_exists host_exists_and_not_null host_origin_balance
  host_balance host_blockhash host_create host_call host_extcode host_extcodesize host_log host_suicide
  host_inc_sstore_clears host_trace_next host_trace_prepare host_trace_executed

lemma host_rule:
  assumes "host_op X hinv m P" "hinv e"
    and "\<And>a e'. hinv e' \<Longrightarrow> same_env X e e' \<Longrightarrow> P a \<Longrightarrow> Q a e'"
    and "\<And>err e'. hinv e' \<Longrightarrow> same_env X e e' \<Longrightarrow> R err e'"
  shows "wp m Q R e"
  using host_opD [OF assms(1,2)] by (rule wp_mono) (use assms(3,4) in auto)

end

end
