(* ===== verification/Cost_Type.thy ===== *)
theory Cost_Type
  imports Vm_Types
begin

text \<open>
  The interpreter computes gas in one of two types (\<open>ethcore/evm/src/evm.rs\<close>, trait \<open>CostType\<close>): \<open>usize\<close>
  when the gas supplied fits, \<open>U256\<close> otherwise.  The trait is a record of operations with one value per
  implementation.  Both implementations are words, so the plain operators panic when their result leaves
  the width: this is what \<open>U256\<close> does always and \<open>usize\<close> does in builds with overflow checks.
  The locale \<open>cost_type\<close> states the arithmetic both implement, through the natural number \<open>val\<close> of a
  cost and its inverse \<open>mk\<close>.
\<close>

section \<open>The trait and its implementations\<close>

record 'g cost_ops =
  cost_from :: "nat \<Rightarrow> 'g"
  cost_add :: "'g \<Rightarrow> 'g \<Rightarrow> 'g vm_result"
  cost_sub :: "'g \<Rightarrow> 'g \<Rightarrow> 'g vm_result"
  cost_mul :: "'g \<Rightarrow> 'g \<Rightarrow> 'g vm_result"
  cost_div :: "'g \<Rightarrow> 'g \<Rightarrow> 'g vm_result"
  cost_shr :: "'g \<Rightarrow> nat \<Rightarrow> 'g"
  cost_shl :: "'g \<Rightarrow> nat \<Rightarrow> 'g"
  cost_less :: "'g \<Rightarrow> 'g \<Rightarrow> bool"
  as_u256 :: "'g \<Rightarrow> u256"
  from_u256 :: "u256 \<Rightarrow> 'g vm_result"
  as_usize :: "'g \<Rightarrow> nat vm_result"
  overflow_add :: "'g \<Rightarrow> 'g \<Rightarrow> 'g \<times> bool"
  overflow_mul :: "'g \<Rightarrow> 'g \<Rightarrow> 'g \<times> bool"
  overflow_mul_shr :: "'g \<Rightarrow> 'g \<Rightarrow> nat \<Rightarrow> 'g \<times> bool"

text \<open>\<open>impl CostType for usize\<close>.\<close>

definition usize_from_u256 :: "u256 \<Rightarrow> 64 word vm_result" where
  "usize_from_u256 v = (let res = (of_nat (low_u64 v) :: 64 word)
     in if ucast res \<noteq> v then Err OutOfGas else Ok res)"

definition usize_overflow_mul_shr :: "64 word \<Rightarrow> 64 word \<Rightarrow> nat \<Rightarrow> 64 word \<times> bool" where
  "usize_overflow_mul_shr a b n =
     (let (c, o1) = overflowing_mul (ucast a :: 128 word) (ucast b);
          o2 = (o1 \<or> drop_bit 64 c > 0);
          parts0 = (ucast (drop_bit n c) :: 64 word);
          result = parts0
      in (result, o2 \<or> parts0 > result))"

definition usize_cost :: "64 word cost_ops" where
  "usize_cost = \<lparr>cost_from = of_nat, cost_add = word_add, cost_sub = word_sub, cost_mul = word_mul,
     cost_div = word_div, cost_shr = (\<lambda>a n. drop_bit n a), cost_shl = (\<lambda>a n. push_bit n a), cost_less = (<),
     as_u256 = ucast, from_u256 = usize_from_u256, as_usize = (\<lambda>a. Ok (unat a)),
     overflow_add = overflowing_add, overflow_mul = overflowing_mul,
     overflow_mul_shr = usize_overflow_mul_shr\<rparr>"

text \<open>\<open>impl CostType for U256\<close>; \<open>as_u64\<close> panics above \<open>u64::MAX\<close>.\<close>

definition u256_as_usize :: "u256 \<Rightarrow> nat vm_result" where
  "u256_as_usize a = (if unat a < usize_range then Ok (unat a) else Panic Cast_overflow)"

definition u256_overflow_mul_shr :: "u256 \<Rightarrow> u256 \<Rightarrow> nat \<Rightarrow> u256 \<times> bool" where
  "u256_overflow_mul_shr a b n =
     (let x = (ucast a :: u512) * ucast b; ov = (drop_bit 256 x > 0)
      in (ucast (drop_bit n x), ov))"

definition u256_cost :: "u256 cost_ops" where
  "u256_cost = \<lparr>cost_from = of_nat, cost_add = word_add, cost_sub = word_sub, cost_mul = word_mul,
     cost_div = word_div, cost_shr = (\<lambda>a n. drop_bit n a), cost_shl = (\<lambda>a n. push_bit n a), cost_less = (<),
     as_u256 = (\<lambda>a. a), from_u256 = Ok, as_usize = u256_as_usize,
     overflow_add = overflowing_add, overflow_mul = overflowing_mul,
     overflow_mul_shr = u256_overflow_mul_shr\<rparr>"

section \<open>The implementations through natural numbers\<close>

lemma usize_overflow_mul_shr_nat:
  "usize_overflow_mul_shr a b n = (of_nat (unat a * unat b div 2 ^ n mod 2 ^ 64), 2 ^ 64 \<le> unat a * unat b)"
proof -
  let ?c = "(ucast a :: 128 word) * ucast b"
  have c: "unat ?c = unat a * unat b" by (rule full_mul_nat) simp
  have "unat (ucast a :: 128 word) = unat a" "unat (ucast b :: 128 word) = unat b"
    by (simp_all add: unat_ucast_wider)
  moreover have "unat a * unat b < 2 ^ 128"
    unfolding c [symmetric] using unsigned_less [of ?c] by simp
  ultimately have "overflowing_mul (ucast a :: 128 word) (ucast b) = (?c, False)"
    by (simp add: overflowing_mul_def)
  moreover have "(ucast (drop_bit n ?c) :: 64 word) = of_nat (unat a * unat b div 2 ^ n mod 2 ^ 64)"
  proof -
    have "(ucast (drop_bit n ?c) :: 64 word) = of_nat (unat (drop_bit n ?c))" by simp
    also have "\<dots> = of_nat (unat a * unat b div 2 ^ n)" by (simp only: unat_drop_bit_word c)
    finally show ?thesis using of_nat_mod_word [where 'a = 64] by simp
  qed
  ultimately show ?thesis
    by (simp add: usize_overflow_mul_shr_def drop_bit_pos c)
qed

lemma u256_overflow_mul_shr_nat:
  "u256_overflow_mul_shr a b n = (of_nat (unat a * unat b div 2 ^ n mod 2 ^ 256), 2 ^ 256 \<le> unat a * unat b)"
proof -
  let ?c = "(ucast a :: u512) * ucast b"
  have c: "unat ?c = unat a * unat b" by (rule full_mul_nat) simp
  have "(ucast (drop_bit n ?c) :: u256) = of_nat (unat a * unat b div 2 ^ n mod 2 ^ 256)"
  proof -
    have "(ucast (drop_bit n ?c) :: u256) = of_nat (unat (drop_bit n ?c))" by simp
    also have "\<dots> = of_nat (unat a * unat b div 2 ^ n)" by (simp only: unat_drop_bit_word c)
    finally show ?thesis using of_nat_mod_word [where 'a = 256] by simp
  qed
  then show ?thesis
    by (simp add: u256_overflow_mul_shr_def drop_bit_pos c Let_def)
qed

lemma usize_from_u256_nat:
  "usize_from_u256 v = (if unat v < 2 ^ 64 then Ok (of_nat (unat v)) else Err OutOfGas)"
proof -
  have "unat (of_nat (low_u64 v) :: 64 word) = low_u64 v" by (simp add: unat_of_nat low_u64_def)
  then have "unat (ucast (of_nat (low_u64 v) :: 64 word) :: u256) = low_u64 v"
    by (subst unat_ucast_wider) simp_all
  then have "ucast (of_nat (low_u64 v) :: 64 word) = v \<longleftrightarrow> low_u64 v = unat v"
    by (metis word_unat_eq_iff)
  also have "\<dots> \<longleftrightarrow> unat v < 2 ^ 64"
    using low_u64_less [of v] by (auto simp: low_u64_def)
  finally show ?thesis
    by (simp add: usize_from_u256_def Let_def)
qed

section \<open>The contract of a cost type\<close>

locale cost_type =
  fixes C :: "'g cost_ops" and val :: "'g \<Rightarrow> nat" and mk :: "nat \<Rightarrow> 'g" and W :: nat
  assumes width: "64 \<le> W" "W \<le> 256"
    and val_less: "val a < 2 ^ W"
    and val_mk [simp]: "n < 2 ^ W \<Longrightarrow> val (mk n) = n"
    and mk_val [simp]: "mk (val a) = a"
    and cost_from: "n < usize_range \<Longrightarrow> cost_from C n = mk n"
    and cost_add: "val a + val b < 2 ^ W \<Longrightarrow> cost_add C a b = Ok (mk (val a + val b))"
    and cost_sub: "val b \<le> val a \<Longrightarrow> cost_sub C a b = Ok (mk (val a - val b))"
    and cost_mul: "val a * val b < 2 ^ W \<Longrightarrow> cost_mul C a b = Ok (mk (val a * val b))"
    and cost_div: "val b \<noteq> 0 \<Longrightarrow> cost_div C a b = Ok (mk (val a div val b))"
    and cost_shr: "cost_shr C a n = mk (val a div 2 ^ n)"
    and cost_shl: "val a * 2 ^ n < 2 ^ W \<Longrightarrow> cost_shl C a n = mk (val a * 2 ^ n)"
    and cost_less: "cost_less C a b \<longleftrightarrow> val a < val b"
    and as_u256: "as_u256 C a = of_nat (val a)"
    and from_u256: "from_u256 C v = (if unat v < 2 ^ W then Ok (mk (unat v)) else Err OutOfGas)"
    and as_usize: "as_usize C a = (if val a < usize_range then Ok (val a) else Panic Cast_overflow)"
    and overflow_add: "overflow_add C a b = (mk ((val a + val b) mod 2 ^ W), 2 ^ W \<le> val a + val b)"
    and overflow_mul: "overflow_mul C a b = (mk (val a * val b mod 2 ^ W), 2 ^ W \<le> val a * val b)"
    and overflow_mul_shr:
      "overflow_mul_shr C a b n = (mk (val a * val b div 2 ^ n mod 2 ^ W), 2 ^ W \<le> val a * val b)"
begin

lemma usize_le_width: "usize_range \<le> 2 ^ W"
  using width(1) by (rule power_increasing) simp

lemma small_less_width: "n < usize_range \<Longrightarrow> n < 2 ^ W"
  using usize_le_width by linarith

lemma width_le_u256: "(2 :: nat) ^ W \<le> 2 ^ 256"
  using width(2) by (rule power_increasing) simp

lemma unat_as_u256 [simp]: "unat (as_u256 C a) = val a"
  using val_less [of a] width_le_u256 by (simp only: as_u256) (rule unat_of_nat_u256, linarith)

lemma val_inj: "val a = val b \<Longrightarrow> a = b"
  by (metis mk_val)

lemma from_as_u256 [simp]: "from_u256 C (as_u256 C a) = Ok a"
  by (simp add: from_u256 val_less)

lemma val_from [simp]: "n < usize_range \<Longrightarrow> val (cost_from C n) = n"
  by (simp add: cost_from small_less_width)

lemma val_shr [simp]: "val (cost_shr C a n) = val a div 2 ^ n"
proof -
  have "val a div 2 ^ n \<le> val a" by (rule div_le_dividend)
  also have "\<dots> < 2 ^ W" by (rule val_less)
  finally show ?thesis by (simp add: cost_shr)
qed

end

section \<open>Both implementations satisfy it\<close>

interpretation usize_gas: cost_type usize_cost unat of_nat 64
  by unfold_locales
    (simp_all add: usize_cost_def unsigned_less [where 'b = 64, simplified] unat_of_nat word_add_nat word_sub_nat word_mul_nat
      word_div_nat drop_bit_word_nat push_bit_word_nat word_less_nat_alt usize_from_u256_nat
      overflowing_add_nat overflowing_mul_nat usize_overflow_mul_shr_nat)

interpretation u256_gas: cost_type u256_cost unat of_nat 256
  by unfold_locales
    (simp_all add: u256_cost_def unat_lt_u256 [simplified] unat_of_nat word_add_nat word_sub_nat word_mul_nat
      word_div_nat drop_bit_word_nat push_bit_word_nat word_less_nat_alt u256_as_usize_def
      overflowing_add_nat overflowing_mul_nat u256_overflow_mul_shr_nat)

end
