(* ===== verification/Evm_Stack.thy ===== *)
theory Evm_Stack
  imports Vm_Types
begin

text \<open>
  The operand stack (\<open>ethcore/evm/src/interpreter/stack.rs\<close>): a vector whose last element is the top, and
  the scratch array into which \<open>pop_n\<close> moves log topics.
\<close>

section \<open>Operations\<close>

record 's VecStack =
  st_items :: "'s list"
  st_logs :: "'s list"

definition with_capacity :: "'s \<Rightarrow> 's VecStack" where
  "with_capacity zero = \<lparr>st_items = [], st_logs = replicate 4 zero\<rparr>"

definition peek :: "'s VecStack \<Rightarrow> nat \<Rightarrow> 's vm_result" where
  "peek st no_from_top =
     (if no_from_top < length (st_items st) then Ok (st_items st ! (length (st_items st) - no_from_top - 1))
      else Panic Index_out_of_bounds)"

definition swap_with_top :: "nat \<Rightarrow> ('s VecStack, unit) vm_comp" where
  "swap_with_top no_from_top = (\<lambda>st.
     let xs = st_items st; len = length xs in
     if no_from_top < len
     then (Ok (), st\<lparr>st_items := xs[len - no_from_top - 1 := xs ! (len - 1), len - 1 := xs ! (len - no_from_top - 1)]\<rparr>)
     else (Panic Index_out_of_bounds, st))"

definition has :: "'s VecStack \<Rightarrow> nat \<Rightarrow> bool" where
  "has st no_of_elems \<longleftrightarrow> no_of_elems \<le> length (st_items st)"

definition pop_back :: "('s VecStack, 's) vm_comp" where
  "pop_back = (\<lambda>st. if st_items st = [] then (Panic Pop_empty, st)
     else (Ok (last (st_items st)), st\<lparr>st_items := butlast (st_items st)\<rparr>))"

text \<open>The loop \<open>for i in 0..no_of_elems { self.logs[i] = self.pop_back() }\<close>.\<close>

fun pop_n_loop :: "nat \<Rightarrow> nat \<Rightarrow> ('s VecStack, unit) vm_comp" where
  "pop_n_loop i 0 = ok ()"
| "pop_n_loop i (Suc k) =
     and_then pop_back (\<lambda>x st. if i < length (st_logs st)
       then pop_n_loop (Suc i) k (st\<lparr>st_logs := (st_logs st)[i := x]\<rparr>)
       else (Panic Index_out_of_bounds, st))"

definition pop_n :: "nat \<Rightarrow> ('s VecStack, 's list) vm_comp" where
  "pop_n no_of_elems =
     (if no_of_elems \<le> 4
      then and_then (pop_n_loop 0 no_of_elems) (\<lambda>_ st. (slice (st_logs st) 0 no_of_elems, st))
      else panic Assert_failed)"

definition push :: "'s \<Rightarrow> ('s VecStack, unit) vm_comp" where
  "push elem = modify (\<lambda>st. st\<lparr>st_items := st_items st @ [elem]\<rparr>)"

definition size_of :: "'s VecStack \<Rightarrow> nat" where
  "size_of st = length (st_items st)"

definition peek_top :: "'s VecStack \<Rightarrow> nat \<Rightarrow> 's list vm_result" where
  "peek_top st no_from_top =
     (if no_from_top \<le> length (st_items st)
      then slice (st_items st) (length (st_items st) - no_from_top) (length (st_items st))
      else Panic Assert_failed)"

section \<open>Weakest preconditions\<close>

definition wf_stack :: "'s VecStack \<Rightarrow> bool" where
  "wf_stack st \<longleftrightarrow> length (st_logs st) = 4"

lemma wf_with_capacity [simp]: "wf_stack (with_capacity z)"
  by (simp add: wf_stack_def with_capacity_def)

lemma wf_stack_items [simp]: "wf_stack (st\<lparr>st_items := xs\<rparr>) = wf_stack st"
  by (simp add: wf_stack_def)

lemma wp_pop_back [wp_simps]:
  "wp pop_back Q R = (\<lambda>st.
     0 < length (st_items st) \<and> Q (last (st_items st)) (st\<lparr>st_items := butlast (st_items st)\<rparr>))"
  by (simp add: fun_eq_iff wp_def pop_back_def)

lemma wp_push [wp_simps]: "wp (push x) Q R = (\<lambda>st. Q () (st\<lparr>st_items := st_items st @ [x]\<rparr>))"
  by (simp add: push_def wp_simps)

lemma wp_swap_with_top [wp_simps]:
  "wp (swap_with_top n) Q R = (\<lambda>st.
     n < length (st_items st) \<and>
     Q () (st\<lparr>st_items := (st_items st)[length (st_items st) - n - 1 := st_items st ! (length (st_items st) - 1),
       length (st_items st) - 1 := st_items st ! (length (st_items st) - n - 1)]\<rparr>))"
  by (simp add: fun_eq_iff wp_def swap_with_top_def Let_def)

text \<open>The topics come in the order in which they are popped.\<close>

lemma pop_n_loop_result:
  assumes "k \<le> length (st_items st)" "i + k \<le> length (st_logs st)"
  shows "pop_n_loop i k st =
    (Ok (), st\<lparr>st_items := take (length (st_items st) - k) (st_items st),
       st_logs := splice (st_logs st) i (take k (rev (st_items st)))\<rparr>)"
  using assms
proof (induction k arbitrary: i st)
  case 0
  then show ?case by (simp add: ok_def)
next
  case (Suc k)
  let ?xs = "st_items st"
  from Suc.prems have ne: "?xs \<noteq> []" and i: "i < length (st_logs st)" by auto
  then obtain ys x where xs: "?xs = ys @ [x]" by (metis rev_exhaust)
  let ?st = "st\<lparr>st_items := ys, st_logs := (st_logs st)[i := x]\<rparr>"
  have "pop_n_loop (Suc i) k ?st = (Ok (), ?st\<lparr>st_items := take (length ys - k) ys,
     st_logs := splice ((st_logs st)[i := x]) (Suc i) (take k (rev ys))\<rparr>)"
    using Suc.IH [of ?st "Suc i"] Suc.prems xs by simp
  moreover have "splice ((st_logs st)[i := x]) (Suc i) (take k (rev ys)) = splice (st_logs st) i (x # take k (rev ys))"
    using i by (simp add: splice_def take_Suc_conv_app_nth take_update_swap list_update_append)
  ultimately show ?case
    using i xs by (simp add: and_then_def pop_back_def)
qed

lemma pop_n_result:
  assumes "n \<le> length (st_items st)" "n \<le> 4" "wf_stack st"
  shows "pop_n n st =
    (Ok (take n (rev (st_items st))), st\<lparr>st_items := take (length (st_items st) - n) (st_items st),
       st_logs := splice (st_logs st) 0 (take n (rev (st_items st)))\<rparr>)"
proof -
  have l: "length (st_logs st) = 4" using assms(3) by (simp add: wf_stack_def)
  have "pop_n_loop 0 n st = (Ok (), st\<lparr>st_items := take (length (st_items st) - n) (st_items st),
       st_logs := splice (st_logs st) 0 (take n (rev (st_items st)))\<rparr>)"
    by (rule pop_n_loop_result) (use assms l in auto)
  then show ?thesis
    using assms l by (simp add: pop_n_def and_then_def slice_def splice_def)
qed

lemma wp_pop_n:
  assumes "n \<le> length (st_items st)" "n \<le> 4" "wf_stack st"
    and "\<And>lg. length lg = 4 \<Longrightarrow>
      Q (take n (rev (st_items st))) (st\<lparr>st_items := take (length (st_items st) - n) (st_items st), st_logs := lg\<rparr>)"
  shows "wp (pop_n n) Q R st"
  using assms by (simp add: wp_def pop_n_result wf_stack_def)

lemma peek_ok: "n < length (st_items st) \<Longrightarrow> peek st n = Ok (st_items st ! (length (st_items st) - n - 1))"
  by (simp add: peek_def)

lemma peek_Ok_iff:
  "peek st n = Ok x \<longleftrightarrow> n < length (st_items st) \<and> x = st_items st ! (length (st_items st) - n - 1)"
  by (auto simp: peek_def)

end
