(* ===== verification/Gasometer.thy ===== *)
theory Gasometer
  imports Instructions Cost_Type Evm_Stack
begin

text \<open>
  What an instruction costs and how much memory it needs
  (\<open>ethcore/evm/src/interpreter/gasometer.rs\<close>).  The definitions take the cost type as a dictionary \<open>C\<close>
  and the host as a dictionary \<open>X\<close>.  The lemmas are proved for every cost type that satisfies
  \<open>cost_type\<close> and every host that satisfies \<open>ext_host\<close>.
\<close>

section \<open>Definitions\<close>

datatype 'g Request =
    Gas 'g
  | GasMem 'g 'g
  | GasMemProvide 'g 'g "u256 option"
  | GasMemCopy 'g 'g 'g

record 'g InstructionRequirements =
  gas_cost :: 'g
  provide_gas :: "'g option"
  memory_total_gas :: 'g
  memory_required_size :: nat

record 'g Gasometer =
  current_gas :: 'g
  current_mem_gas :: 'g

definition new_gasometer :: "'g cost_ops \<Rightarrow> 'g \<Rightarrow> 'g Gasometer" where
  "new_gasometer C g = \<lparr>current_gas = g, current_mem_gas = cost_from C 0\<rparr>"

text \<open>The macro \<open>overflowing!\<close>: an overflow is an out-of-gas error.\<close>

definition overflowing :: "'g \<times> bool \<Rightarrow> 'g vm_result" where
  "overflowing x = (case x of (v, overflow) \<Rightarrow> if overflow then Err OutOfGas else Ok v)"

text \<open>A sum of \<open>usize\<close> prices.\<close>

definition usize_ck :: "nat \<Rightarrow> nat vm_result" where
  "usize_ck n = (if n < usize_range then Ok n else Panic Arith_overflow)"

definition u256_to_address :: "u256 \<Rightarrow> address" where
  "u256_to_address x = ucast x"

definition address_to_u256 :: "address \<Rightarrow> u256" where
  "address_to_u256 a = ucast a"

definition verify_gas :: "'g cost_ops \<Rightarrow> 'g Gasometer \<Rightarrow> 'g \<Rightarrow> unit vm_result" where
  "verify_gas C gm cost = (if cost_less C (current_gas gm) cost then Err OutOfGas else Ok ())"

definition gas_provided ::
  "'g cost_ops \<Rightarrow> 'g Gasometer \<Rightarrow> Schedule \<Rightarrow> 'g \<Rightarrow> u256 option \<Rightarrow> 'g vm_result" where
  "gas_provided C gm sch needed req =
     (let requested = map_option (from_u256 C) req;
          enough = (\<not> cost_less C (current_gas gm) needed);
          otherwise = (case requested of
              Some r \<Rightarrow> r
            | None \<Rightarrow> if enough then cost_sub C (current_gas gm) needed else Ok (cost_from C 0))
      in case sub_gas_cap_divisor sch of
           Some cap_divisor \<Rightarrow>
             if enough then
               ok_then (cost_sub C (current_gas gm) needed) (\<lambda>gas_remaining.
               ok_then (if cap_divisor = 64 then cost_sub C gas_remaining (cost_shr C gas_remaining 6)
                        else ok_then (cost_div C gas_remaining (cost_from C cap_divisor))
                               (\<lambda>q. cost_sub C gas_remaining q)) (\<lambda>max_gas_provided.
               case requested of
                 Some (Ok r) \<Rightarrow> Ok (if cost_less C max_gas_provided r then max_gas_provided else r)
               | _ \<Rightarrow> Ok max_gas_provided))
             else otherwise
         | None \<Rightarrow> otherwise)"

definition mem_needed_const :: "'g cost_ops \<Rightarrow> u256 \<Rightarrow> nat \<Rightarrow> 'g vm_result" where
  "mem_needed_const C mem add = ok_then (overflowing (overflowing_add mem (of_nat add))) (from_u256 C)"

definition mem_needed :: "'g cost_ops \<Rightarrow> u256 \<Rightarrow> u256 \<Rightarrow> 'g vm_result" where
  "mem_needed C offset sz =
     (if sz = 0 then Ok (cost_from C 0)
      else ok_then (overflowing (overflowing_add offset sz)) (from_u256 C))"

definition add_gas_usize :: "'g cost_ops \<Rightarrow> 'g \<Rightarrow> nat \<Rightarrow> 'g \<times> bool" where
  "add_gas_usize C v num = overflow_add C v (cost_from C num)"

text \<open>The closure of \<open>mem_gas_cost\<close>.\<close>

definition gas_for_mem :: "'g cost_ops \<Rightarrow> Schedule \<Rightarrow> 'g \<Rightarrow> 'g vm_result" where
  "gas_for_mem C sch mem_size =
     (let s = cost_shr C mem_size 5 in
      ok_then (overflowing (overflow_mul C s (cost_from C (memory_gas sch)))) (\<lambda>a.
      if quad_coeff_div sch \<noteq> 512 then Panic Assert_failed else
      ok_then (overflowing (overflow_mul_shr C s s 9)) (\<lambda>b.
      overflowing (overflow_add C a b))))"

definition mem_gas_cost ::
  "'g cost_ops \<Rightarrow> 'g Gasometer \<Rightarrow> Schedule \<Rightarrow> nat \<Rightarrow> 'g \<Rightarrow> ('g \<times> 'g \<times> nat) vm_result" where
  "mem_gas_cost C gm sch cur_mem_size mem_size =
     ok_then (overflowing (overflow_add C mem_size (cost_from C 31))) (\<lambda>up.
       let current_mem_size = cost_from C cur_mem_size;
           req_mem_size_rounded = cost_shl C (cost_shr C up 5) 5
       in ok_then
            (if cost_less C current_mem_size req_mem_size_rounded
             then ok_then (gas_for_mem C sch req_mem_size_rounded) (\<lambda>new_mem_gas.
                  ok_then (cost_sub C new_mem_gas (current_mem_gas gm)) (\<lambda>c. Ok (c, new_mem_gas)))
             else Ok (cost_from C 0, current_mem_gas gm))
            (\<lambda>(c, new_mem_gas). map_outcome (\<lambda>n. (c, new_mem_gas, n)) (as_usize C req_mem_size_rounded)))"

text \<open>\<open>cmp::max\<close> on costs.\<close>

definition cost_max :: "'g cost_ops \<Rightarrow> 'g \<Rightarrow> 'g \<Rightarrow> 'g" where
  "cost_max C a b = (if cost_less C b a then a else b)"

text \<open>
  The price of a new account, charged by \<open>CALL\<close> and \<open>SUICIDE\<close>: before EIP-161 (\<open>no_empty\<close>) when the account
  does not exist, afterwards when value moves to an account that is missing or null.
\<close>

definition new_account_charge :: "'e ext_ops \<Rightarrow> Schedule \<Rightarrow> bool \<Rightarrow> address \<Rightarrow> ('e, bool) vm_comp" where
  "new_account_charge X sch is_value_transfer a =
     (if \<not> no_empty sch then and_then (ext_exists X a) (\<lambda>b. ok (\<not> b))
      else if is_value_transfer then and_then (ext_exists_and_not_null X a) (\<lambda>b. ok (\<not> b))
      else ok False)"

text \<open>The first \<open>match\<close> of \<open>requirements\<close>: what the instruction requests.\<close>

definition request_sstore :: "'g cost_ops \<Rightarrow> 'e ext_ops \<Rightarrow> Schedule \<Rightarrow> u256 VecStack \<Rightarrow> ('e, 'g Request) vm_comp" where
  "request_sstore C X sch st =
     and_then (lift (peek st 0)) (\<lambda>address. and_then (lift (peek st 1)) (\<lambda>newval.
     and_then (ext_storage_at X address) (\<lambda>val.
     ok (Gas (cost_from C (if val = 0 \<and> newval \<noteq> 0 then sstore_set_gas sch else sstore_reset_gas sch))))))"

definition request_suicide :: "'g cost_ops \<Rightarrow> 'e ext_ops \<Rightarrow> Schedule \<Rightarrow> u256 VecStack \<Rightarrow> ('e, 'g Request) vm_comp" where
  "request_suicide C X sch st =
     and_then (ext_origin_balance X) (\<lambda>ob.
     and_then (lift (peek st 0)) (\<lambda>a.
     and_then (new_account_charge X sch (ob \<noteq> 0) (u256_to_address a)) (\<lambda>charge.
     if charge
     then lift (map_outcome Gas (overflowing
            (overflow_add C (cost_from C (suicide_gas sch)) (cost_from C (suicide_to_new_account_cost sch)))))
     else ok (Gas (cost_from C (suicide_gas sch))))))"

definition request_sha3 :: "'g cost_ops \<Rightarrow> Schedule \<Rightarrow> u256 VecStack \<Rightarrow> 'g Request vm_result" where
  "request_sha3 C sch st =
     ok_then (peek st 1) (\<lambda>sz. ok_then (from_u256 C sz) (\<lambda>g.
     ok_then (overflowing (add_gas_usize C g 31)) (\<lambda>w.
     let words = cost_shr C w 5 in
     ok_then (cost_mul C (cost_from C (sha3_word_gas sch)) words) (\<lambda>wg.
     ok_then (cost_add C (cost_from C (sha3_gas sch)) wg) (\<lambda>gas.
     ok_then (peek st 0) (\<lambda>off. map_outcome (GasMem gas) (mem_needed C off sz)))))))"

definition request_copy :: "'g cost_ops \<Rightarrow> 'g \<Rightarrow> u256 VecStack \<Rightarrow> nat \<Rightarrow> nat \<Rightarrow> 'g Request vm_result" where
  "request_copy C gas st i j =
     ok_then (peek st i) (\<lambda>off. ok_then (peek st j) (\<lambda>sz.
     ok_then (mem_needed C off sz) (\<lambda>mem. map_outcome (GasMemCopy gas mem) (from_u256 C sz))))"

definition request_log :: "'g cost_ops \<Rightarrow> Schedule \<Rightarrow> instruction \<Rightarrow> u256 VecStack \<Rightarrow> 'g Request vm_result" where
  "request_log C sch i st =
     ok_then (get_log_topics i) (\<lambda>no_of_topics.
     ok_then (usize_ck (log_gas sch + log_topic_gas sch * no_of_topics)) (\<lambda>lg.
     ok_then (peek st 1) (\<lambda>sz. ok_then (from_u256 C sz) (\<lambda>g.
     ok_then (overflowing (overflow_mul C g (cost_from C (log_data_gas sch)))) (\<lambda>data_gas.
     ok_then (overflowing (overflow_add C data_gas (cost_from C lg))) (\<lambda>gas.
     ok_then (peek st 0) (\<lambda>off. map_outcome (GasMem gas) (mem_needed C off sz))))))))"

text \<open>The larger of the two memory ranges of a message call.\<close>

definition two_ranges :: "'g cost_ops \<Rightarrow> u256 VecStack \<Rightarrow> nat \<Rightarrow> nat \<Rightarrow> 'g vm_result" where
  "two_ranges C st out_i in_i =
     ok_then (peek st out_i) (\<lambda>o1. ok_then (peek st (Suc out_i)) (\<lambda>s1. ok_then (mem_needed C o1 s1) (\<lambda>a.
     ok_then (peek st in_i) (\<lambda>o2. ok_then (peek st (Suc in_i)) (\<lambda>s2. ok_then (mem_needed C o2 s2) (\<lambda>b.
     Ok (cost_max C a b)))))))"

definition request_call ::
  "'g cost_ops \<Rightarrow> 'e ext_ops \<Rightarrow> Schedule \<Rightarrow> instruction \<Rightarrow> u256 VecStack \<Rightarrow> ('e, 'g Request) vm_comp" where
  "request_call C X sch i st =
     and_then (lift (two_ranges C st 5 3)) (\<lambda>mem.
     and_then (lift (peek st 1)) (\<lambda>a. and_then (lift (peek st 2)) (\<lambda>v.
     let is_value_transfer = (v \<noteq> 0) in
     and_then (if i = CALL then new_account_charge X sch is_value_transfer (u256_to_address a) else ok False) (\<lambda>charge.
     and_then (lift (if charge
         then overflowing (overflow_add C (cost_from C (call_gas sch)) (cost_from C (call_new_account_gas sch)))
         else Ok (cost_from C (call_gas sch)))) (\<lambda>gas.
     and_then (lift (if is_value_transfer
         then overflowing (overflow_add C gas (cost_from C (call_value_transfer_gas sch)))
         else Ok gas)) (\<lambda>gas.
     and_then (lift (peek st 0)) (\<lambda>requested.
     ok (GasMemProvide gas mem (Some requested)))))))))"

definition request_of ::
  "'g cost_ops \<Rightarrow> 'e ext_ops \<Rightarrow> Schedule \<Rightarrow> instruction \<Rightarrow> 'g \<Rightarrow> u256 VecStack \<Rightarrow> ('e, 'g Request) vm_comp" where
  "request_of C X sch i default_gas st =
     (if i = JUMPDEST then ok (Gas (cost_from C 1))
      else if i = SSTORE then request_sstore C X sch st
      else if i = SLOAD then ok (Gas (cost_from C (sload_gas sch)))
      else if i = BALANCE then ok (Gas (cost_from C (balance_gas sch)))
      else if i = EXTCODESIZE then ok (Gas (cost_from C (extcodesize_gas sch)))
      else if i = SUICIDE then request_suicide C X sch st
      else if i = MSTORE \<or> i = MLOAD then
        lift (ok_then (peek st 0) (\<lambda>off. map_outcome (GasMem default_gas) (mem_needed_const C off 32)))
      else if i = MSTORE8 then
        lift (ok_then (peek st 0) (\<lambda>off. map_outcome (GasMem default_gas) (mem_needed_const C off 1)))
      else if i = RETURN \<or> i = REVERT then
        lift (ok_then (peek st 0) (\<lambda>off. ok_then (peek st 1) (\<lambda>sz.
          map_outcome (GasMem default_gas) (mem_needed C off sz))))
      else if i = SHA3 then lift (request_sha3 C sch st)
      else if i = CALLDATACOPY \<or> i = CODECOPY \<or> i = RETURNDATACOPY then lift (request_copy C default_gas st 0 2)
      else if i = EXTCODECOPY then lift (request_copy C (cost_from C (extcodecopy_base_gas sch)) st 1 3)
      else if LOG0 \<le> i \<and> i \<le> LOG4 then lift (request_log C sch i st)
      else if i = CALL \<or> i = CALLCODE then request_call C X sch i st
      else if i = DELEGATECALL \<or> i = STATICCALL then
        lift (ok_then (two_ranges C st 4 2) (\<lambda>mem. ok_then (peek st 0) (\<lambda>requested.
          Ok (GasMemProvide (cost_from C (call_gas sch)) mem (Some requested)))))
      else if i = CREATE \<or> i = CREATE2 then
        lift (ok_then (peek st 1) (\<lambda>off. ok_then (peek st 2) (\<lambda>sz. ok_then (mem_needed C off sz) (\<lambda>mem.
          Ok (GasMemProvide (cost_from C (create_gas sch)) mem None)))))
      else if i = EXP then
        lift (ok_then (peek st 1) (\<lambda>expon.
          let no_of_bytes = (nat_bits (unat expon) + 7) div 8 in
          map_outcome (\<lambda>n. Gas (cost_from C n)) (usize_ck (exp_gas sch + exp_byte_gas sch * no_of_bytes))))
      else if i = BLOCKHASH then ok (Gas (cost_from C (blockhash_gas sch)))
      else ok (Gas default_gas))"

text \<open>The second \<open>match\<close> of \<open>requirements\<close>: memory expansion and the gas handed to a child.\<close>

definition settle :: "'g cost_ops \<Rightarrow> 'g Gasometer \<Rightarrow> Schedule \<Rightarrow> nat \<Rightarrow> 'g Request \<Rightarrow> 'g InstructionRequirements vm_result" where
  "settle C gm sch cur_mem_size req = (case req of
       Gas gas \<Rightarrow> Ok \<lparr>gas_cost = gas, provide_gas = None, memory_total_gas = current_mem_gas gm,
         memory_required_size = 0\<rparr>
     | GasMem gas mem_size \<Rightarrow>
         ok_then (mem_gas_cost C gm sch cur_mem_size mem_size) (\<lambda>(mgc, new_mem_gas, new_mem_size).
         ok_then (overflowing (overflow_add C gas mgc)) (\<lambda>gas.
         Ok \<lparr>gas_cost = gas, provide_gas = None, memory_total_gas = new_mem_gas,
           memory_required_size = new_mem_size\<rparr>))
     | GasMemProvide gas mem_size requested \<Rightarrow>
         ok_then (mem_gas_cost C gm sch cur_mem_size mem_size) (\<lambda>(mgc, new_mem_gas, new_mem_size).
         ok_then (overflowing (overflow_add C gas mgc)) (\<lambda>gas.
         ok_then (gas_provided C gm sch gas requested) (\<lambda>provided.
         ok_then (overflowing (overflow_add C gas provided)) (\<lambda>total_gas.
         Ok \<lparr>gas_cost = total_gas, provide_gas = Some provided, memory_total_gas = new_mem_gas,
           memory_required_size = new_mem_size\<rparr>))))
     | GasMemCopy gas mem_size copy \<Rightarrow>
         ok_then (mem_gas_cost C gm sch cur_mem_size mem_size) (\<lambda>(mgc, new_mem_gas, new_mem_size).
         ok_then (overflowing (add_gas_usize C copy 31)) (\<lambda>up.
         let copy = cost_shr C up 5 in
         ok_then (cost_mul C (cost_from C (copy_gas sch)) copy) (\<lambda>cg.
         ok_then (overflowing (overflow_add C gas cg)) (\<lambda>gas.
         ok_then (overflowing (overflow_add C gas mgc)) (\<lambda>gas.
         Ok \<lparr>gas_cost = gas, provide_gas = None, memory_total_gas = new_mem_gas,
           memory_required_size = new_mem_size\<rparr>))))))"

definition requirements ::
  "'g cost_ops \<Rightarrow> 'e ext_ops \<Rightarrow> 'g Gasometer \<Rightarrow> instruction \<Rightarrow> InstructionInfo \<Rightarrow> u256 VecStack \<Rightarrow> nat \<Rightarrow>
     ('e, 'g InstructionRequirements) vm_comp" where
  "requirements C X gm i info st cur_mem_size =
     and_then (gets (ext_schedule X)) (\<lambda>sch.
     and_then (lift (index (tier_step_gas sch) (get_tier_idx (info_tier info)))) (\<lambda>step_gas.
     and_then (request_of C X sch i (cost_from C step_gas) st) (\<lambda>cost.
     lift (settle C gm sch cur_mem_size cost))))"

section \<open>Specification of the memory price\<close>

text \<open>
  The yellow paper's price of \<open>w\<close> words of memory, the number of words that hold \<open>n\<close> bytes, and the end of
  a memory range (an empty range ends at zero, whatever its offset).
\<close>

definition mem_price :: "Schedule \<Rightarrow> nat \<Rightarrow> nat" where
  "mem_price sch w = w * memory_gas sch + w * w div 512"

definition mem_words :: "nat \<Rightarrow> nat" where
  "mem_words n = (n + 31) div 32"

definition range_end :: "u256 \<Rightarrow> u256 \<Rightarrow> nat" where
  "range_end off sz = (if sz = 0 then 0 else unat off + unat sz)"

lemma mem_price_mono: "v \<le> w \<Longrightarrow> mem_price sch v \<le> mem_price sch w"
  by (simp add: mem_price_def add_mono div_le_mono mult_le_mono)

lemma mem_words_bounds: "n \<le> 32 * mem_words n" "32 * mem_words n \<le> n + 31"
  by (simp_all add: mem_words_def)

text \<open>
  The gasometer has charged for the memory allocated so far: the size is a whole number of words and
  \<open>current_mem_gas\<close> is its price.
\<close>

definition mem_paid :: "('g \<Rightarrow> nat) \<Rightarrow> Schedule \<Rightarrow> 'g \<Rightarrow> nat \<Rightarrow> bool" where
  "mem_paid val sch mem_gas n \<longleftrightarrow> n mod 32 = 0 \<and> n < 2 ^ 63 \<and> val mem_gas = mem_price sch (n div 32)"

section \<open>The gasometer for every cost type\<close>

context cost_type
begin

lemma overflowing_mod: "overflowing (mk (n mod 2 ^ W), 2 ^ W \<le> n) = (if n < 2 ^ W then Ok (mk n) else Err OutOfGas)"
  by (simp add: overflowing_def)

lemma overflowing_add: "overflowing (overflow_add C a b)
    = (if val a + val b < 2 ^ W then Ok (mk (val a + val b)) else Err OutOfGas)"
  by (simp add: overflow_add overflowing_mod)

lemma overflowing_mul: "overflowing (overflow_mul C a b)
    = (if val a * val b < 2 ^ W then Ok (mk (val a * val b)) else Err OutOfGas)"
  by (simp add: overflow_mul overflowing_mod)

lemma overflowing_mul_shr: "overflowing (overflow_mul_shr C a b n)
    = (if val a * val b < 2 ^ W then Ok (mk (val a * val b div 2 ^ n)) else Err OutOfGas)"
proof -
  have "val a * val b div 2 ^ n mod 2 ^ W = val a * val b div 2 ^ n" if "val a * val b < 2 ^ W"
    using div_le_dividend [of "val a * val b" "2 ^ n"] that by (intro mod_less) linarith
  then show ?thesis
    by (auto simp: overflow_mul_shr overflowing_def)
qed

lemma from_0 [simp]: "cost_from C 0 = mk 0"
  by (simp add: cost_from)

lemma mem_needed_eq: "mem_needed C off sz
    = (if range_end off sz < 2 ^ W then Ok (mk (range_end off sz)) else Err OutOfGas)"
proof (cases "sz = 0 \<or> 2 ^ 256 \<le> unat off + unat sz")
  case True
  then show ?thesis
    using width_le_u256 by (auto simp: mem_needed_def range_end_def overflowing_def overflowing_add_def)
next
  case False
  then have "unat (off + sz) = unat off + unat sz" by (simp add: unat_add_u256)
  with False show ?thesis
    by (auto simp: mem_needed_def range_end_def overflowing_def overflowing_add_def from_u256)
qed

lemma mem_needed_const_eq:
  assumes "n < usize_range"
  shows "mem_needed_const C off n = (if unat off + n < 2 ^ W then Ok (mk (unat off + n)) else Err OutOfGas)"
proof -
  have n: "unat (of_nat n :: u256) = n" using assms by (rule unat_of_nat_u256_small)
  show ?thesis
  proof (cases "2 ^ 256 \<le> unat off + n")
    case True
    then show ?thesis
      using width_le_u256 n by (auto simp: mem_needed_const_def overflowing_def overflowing_add_def)
  next
    case False
    then have "unat (off + of_nat n) = unat off + n" using n by (simp add: unat_add_u256)
    with False n show ?thesis
      by (auto simp: mem_needed_const_def overflowing_def overflowing_add_def from_u256)
  qed
qed

lemma gas_for_mem_eq:
  assumes "wf_schedule sch"
  shows "gas_for_mem C sch a = (let w = val a div 32 in
    if w * memory_gas sch < 2 ^ W \<and> w * w < 2 ^ W \<and> mem_price sch w < 2 ^ W
    then Ok (mk (mem_price sch w)) else Err OutOfGas)"
proof -
  have m: "memory_gas sch < usize_range"
    using wf_schedule_base [OF assms, of "memory_gas sch"] wf_schedule_extra [OF assms, of "memory_gas sch"]
    by (simp add: base_prices_def extra_prices_def)
  have q: "quad_coeff_div sch = 512" using assms by (simp add: wf_schedule_def)
  have d: "val a div 32 * (val a div 32) div 512 \<le> val a div 32 * (val a div 32)"
    by (rule div_le_dividend)
  then show ?thesis
    using m q by (auto simp: gas_for_mem_def overflowing_mul overflowing_mul_shr overflowing_add mem_price_def Let_def)
qed

text \<open>
  \<open>mem_gas_cost\<close> completely: it charges the difference of the prices of the new and the old size, runs out of
  gas exactly when an intermediate product overflows the cost type, and panics only when the
  rounded size does not fit a \<open>usize\<close>.
\<close>

lemma mem_gas_cost_eq:
  assumes "wf_schedule sch" "mem_paid val sch (current_mem_gas gm) n"
  shows "mem_gas_cost C gm sch n m = (let w = mem_words (val m); v = max w (n div 32) in
    if 2 ^ W \<le> val m + 31 then Err OutOfGas
    else if n < 32 * w \<and> \<not> (w * memory_gas sch < 2 ^ W \<and> w * w < 2 ^ W \<and> mem_price sch w < 2 ^ W) then Err OutOfGas
    else if usize_range \<le> 32 * w then Panic Cast_overflow
    else Ok (mk (mem_price sch v - mem_price sch (n div 32)), mk (mem_price sch v), 32 * w))"
proof (cases "2 ^ W \<le> val m + 31")
  case True
  then show ?thesis by (simp add: mem_gas_cost_def overflowing_add Let_def)
next
  case False
  let ?w = "mem_words (val m)"
  have n: "n < usize_range" "n = 32 * (n div 32)" and paid: "val (current_mem_gas gm) = mem_price sch (n div 32)"
    using assms(2) by (auto simp: mem_paid_def)
  have w32: "32 * ?w < 2 ^ W" using mem_words_bounds(2) [of "val m"] False by linarith
  then have w: "?w < 2 ^ W" by linarith
  have up: "cost_shl C (cost_shr C (mk (val m + 31)) 5) 5 = mk (32 * ?w)"
    using False w w32 by (simp add: cost_shr cost_shl mem_words_def mult.commute)
  show ?thesis
  proof (cases "n < 32 * ?w")
    case lt: True
    then have "n div 32 \<le> ?w" by linarith
    then have mono: "mem_price sch (n div 32) \<le> mem_price sch ?w" and mx: "max ?w (n div 32) = ?w"
      by (auto intro: mem_price_mono)
    show ?thesis
      using False lt n paid mono mx w32
      by (simp add: mem_gas_cost_def overflowing_add Let_def up cost_less gas_for_mem_eq [OF assms(1)]
          cost_sub as_usize)
  next
    case ge: False
    then have mx: "max ?w (n div 32) = n div 32" by linarith
    have "mk (mem_price sch (n div 32)) = current_mem_gas gm" using paid by (metis mk_val)
    then show ?thesis
      using False ge n paid mx w32
      by (simp add: mem_gas_cost_def overflowing_add Let_def up cost_less as_usize)
  qed
qed

text \<open>The gas handed to a child: all of it, or all but the \<open>d\<close>th part when the schedule caps it (EIP-150).\<close>

lemma gas_provided_capped:
  assumes "wf_schedule sch" "sub_gas_cap_divisor sch = Some d" "val needed \<le> val (current_gas gm)"
  shows "gas_provided C gm sch needed req =
    (let avail = val (current_gas gm) - val needed; cap = avail - avail div d in
     Ok (mk (case req of Some r \<Rightarrow> min (unat r) cap | None \<Rightarrow> cap)))"
proof -
  let ?avail = "val (current_gas gm) - val needed"
  let ?cap = "?avail - ?avail div d"
  have d: "0 < d" "d < usize_range" using assms(1,2) by (auto simp: wf_schedule_def)
  have lt: "?avail < 2 ^ W" "?cap < 2 ^ W" "?avail div d \<le> ?avail" "?avail div d < 2 ^ W"
    using val_less [of "current_gas gm"] div_le_dividend [of ?avail d] by linarith+
  have "(if d = 64 then cost_sub C (mk ?avail) (cost_shr C (mk ?avail) 6)
      else ok_then (cost_div C (mk ?avail) (cost_from C d)) (cost_sub C (mk ?avail))) = Ok (mk ?cap)"
    using d lt by (simp add: cost_sub cost_div del: diff_diff_left)
  then show ?thesis
    using assms lt
    by (auto simp: gas_provided_def Let_def cost_less cost_sub from_u256 min_def split: option.split)
qed

lemma gas_provided_uncapped:
  assumes "sub_gas_cap_divisor sch = None \<or> val (current_gas gm) < val needed"
  shows "gas_provided C gm sch needed req =
    (case req of Some r \<Rightarrow> if unat r < 2 ^ W then Ok (mk (unat r)) else Err OutOfGas
     | None \<Rightarrow> Ok (mk (val (current_gas gm) - val needed)))"
  using assms by (auto simp: gas_provided_def Let_def cost_less cost_sub from_u256 split: option.split)

lemma gas_provided_sound:
  assumes "wf_schedule sch"
  shows "sound (gas_provided C gm sch needed req) (\<lambda>_. True)"
proof (cases "sub_gas_cap_divisor sch = None \<or> val (current_gas gm) < val needed")
  case True
  then show ?thesis by (simp add: gas_provided_uncapped split: option.split)
next
  case False
  then obtain d where "sub_gas_cap_divisor sch = Some d" by auto
  from gas_provided_capped [OF assms this] False show ?thesis by (simp add: Let_def)
qed

lemma mem_gas_cost_sound:
  assumes "wf_schedule sch" "mem_paid val sch (current_mem_gas gm) n" "W = 64"
  shows "sound (mem_gas_cost C gm sch n m) (\<lambda>(c, total, sz).
    sz = 32 * mem_words (val m) \<and> mem_paid val sch total (max n sz)
    \<and> val c = mem_price sch (max n sz div 32) - mem_price sch (n div 32))"
proof -
  let ?w = "mem_words (val m)"
  have n: "n mod 32 = 0" "n < 2 ^ 63" and paid: "val (current_mem_gas gm) = mem_price sch (n div 32)"
    using assms(2) by (auto simp: mem_paid_def)
  have mx: "max n (32 * ?w) div 32 = max ?w (n div 32)" "max n (32 * ?w) mod 32 = 0"
    using n by (auto simp: max_def)
  have small: "32 * ?w < 2 ^ 63" if "?w * ?w < 2 ^ W"
  proof -
    have "?w ^ 2 < (2 ^ 32) ^ 2" using that assms(3) by (simp add: power2_eq_square)
    then have "?w < 2 ^ 32" by (rule power_less_imp_less_base) simp
    then show ?thesis by simp
  qed
  have lt: "mem_price sch (n div 32) < 2 ^ W" by (metis paid val_less)
  have "mem_price sch (max ?w (n div 32)) < 2 ^ W" if "n < 32 * ?w \<longrightarrow> mem_price sch ?w < 2 ^ W"
    using that lt by (cases "n < 32 * ?w") (auto simp: max_def)
  moreover have "32 * ?w < 2 ^ 63" if "n < 32 * ?w \<longrightarrow> ?w * ?w < 2 ^ W"
    using that small n by (cases "n < 32 * ?w") auto
  ultimately show ?thesis
    using n mx assms(3)
    by (auto simp: mem_gas_cost_eq [OF assms(1,2)] Let_def mem_paid_def)
qed

end

section \<open>What \<open>requirements\<close> promises\<close>

text \<open>The price and the memory in a request, and what \<open>settle\<close> makes of them.\<close>

fun request_gas :: "('g \<Rightarrow> nat) \<Rightarrow> Schedule \<Rightarrow> 'g Request \<Rightarrow> nat" where
  "request_gas val sch (Gas g) = val g"
| "request_gas val sch (GasMem g m) = val g"
| "request_gas val sch (GasMemProvide g m r) = val g"
| "request_gas val sch (GasMemCopy g m c) = val g + copy_gas sch * mem_words (val c)"

fun request_mem :: "('g \<Rightarrow> nat) \<Rightarrow> 'g Request \<Rightarrow> nat" where
  "request_mem val (Gas g) = 0"
| "request_mem val (GasMem g m) = val m"
| "request_mem val (GasMemProvide g m r) = val m"
| "request_mem val (GasMemCopy g m c) = val m"

fun request_provides :: "'g Request \<Rightarrow> bool" where
  "request_provides (GasMemProvide g m r) = True"
| "request_provides _ = False"

definition settled ::
  "('g \<Rightarrow> nat) \<Rightarrow> Schedule \<Rightarrow> nat \<Rightarrow> 'g Request \<Rightarrow> 'g InstructionRequirements \<Rightarrow> bool" where
  "settled val sch n req r \<longleftrightarrow>
     memory_required_size r = 32 * mem_words (request_mem val req)
     \<and> mem_paid val sch (memory_total_gas r) (max n (memory_required_size r))
     \<and> (provide_gas r \<noteq> None \<longleftrightarrow> request_provides req)
     \<and> val (gas_cost r) = request_gas val sch req
         + (mem_price sch (max n (memory_required_size r) div 32) - mem_price sch (n div 32))
         + (case provide_gas r of Some p \<Rightarrow> val p | None \<Rightarrow> 0)"

lemma mem_words_0 [simp]: "mem_words 0 = 0"
  by (simp add: mem_words_def)

context cost_type
begin

lemma settle_sound:
  assumes "wf_schedule sch" "mem_paid val sch (current_mem_gas gm) n" "W = 64"
  shows "sound (settle C gm sch n req) (settled val sch n req)"
proof (cases req)
  case (Gas g)
  then show ?thesis using assms by (simp add: settle_def settled_def mem_paid_def)
next
  case (GasMem g m)
  then show ?thesis
    using mem_gas_cost_sound [OF assms, of m]
    by (auto simp: settle_def settled_def overflowing_add elim!: sound_mono)
next
  case (GasMemProvide g m rq)
  then show ?thesis
    using mem_gas_cost_sound [OF assms, of m]
    by (auto simp: settle_def settled_def overflowing_add
      intro!: sound_mono [OF gas_provided_sound [OF assms(1)]] elim!: sound_mono)
next
  case (GasMemCopy g m c)
  have w: "mem_words (val c) < 2 ^ 60" if "val c + 31 < 2 ^ 64"
    using that mem_words_bounds(2) [of "val c"] by simp
  have cg: "copy_gas sch < 16" using assms(1) by (simp add: wf_schedule_def)
  then have *: "copy_gas sch * mem_words (val c) < 2 ^ 64" if "val c + 31 < 2 ^ 64"
    using mult_strict_mono' [OF cg w [OF that]] by simp
  have "copy_gas sch < usize_range" using cg by simp
  from GasMemCopy * w show ?thesis
    using mem_gas_cost_sound [OF assms, of m] cg assms(3)
    by (auto simp: settle_def settled_def add_gas_usize_def overflowing_add cost_mul cost_shr
      mem_words_def [symmetric] Let_def elim!: sound_mono)
qed

end

text \<open>The \<open>k\<close>th operand, counted from the top.\<close>

definition arg :: "'s VecStack \<Rightarrow> nat \<Rightarrow> 's" where
  "arg st k = st_items st ! (length (st_items st) - k - 1)"

lemma peek_arg: "n \<le> length (st_items st) \<Longrightarrow> k < n \<Longrightarrow> peek st k = Ok (arg st k)"
  by (simp add: peek_def arg_def)

text \<open>The memory an instruction touches, from its operands.\<close>

definition mem_ranges :: "instruction \<Rightarrow> u256 VecStack \<Rightarrow> (u256 \<times> u256) list" where
  "mem_ranges i st =
     (if i = MSTORE \<or> i = MLOAD then [(arg st 0, 32)]
      else if i = MSTORE8 then [(arg st 0, 1)]
      else if i = RETURN \<or> i = REVERT \<or> i = SHA3 \<or> (LOG0 \<le> i \<and> i \<le> LOG4) then [(arg st 0, arg st 1)]
      else if i = CALLDATACOPY \<or> i = CODECOPY \<or> i = RETURNDATACOPY then [(arg st 0, arg st 2)]
      else if i = EXTCODECOPY then [(arg st 1, arg st 3)]
      else if i = CALL \<or> i = CALLCODE then [(arg st 3, arg st 4), (arg st 5, arg st 6)]
      else if i = DELEGATECALL \<or> i = STATICCALL then [(arg st 2, arg st 3), (arg st 4, arg st 5)]
      else if i = CREATE \<or> i = CREATE2 then [(arg st 1, arg st 2)]
      else [])"

definition starts_child :: "instruction \<Rightarrow> bool" where
  "starts_child i \<longleftrightarrow> i = CREATE \<or> i = CREATE2 \<or> i = CALL \<or> i = CALLCODE \<or> i = DELEGATECALL \<or> i = STATICCALL"

definition halts :: "instruction \<Rightarrow> bool" where
  "halts i \<longleftrightarrow> i = STOP \<or> i = RETURN \<or> i = REVERT \<or> i = SUICIDE"

text \<open>
  A lower bound of the price before memory and child gas: more than the stipend when a call moves value,
  something for every instruction after which execution goes on.
\<close>

definition min_price :: "Schedule \<Rightarrow> instruction \<Rightarrow> u256 VecStack \<Rightarrow> nat" where
  "min_price sch i st =
     (if (i = CALL \<or> i = CALLCODE) \<and> arg st 2 \<noteq> 0 then call_stipend sch + 1
      else if halts i then 0 else 1)"

definition request_ok :: "('g \<Rightarrow> nat) \<Rightarrow> Schedule \<Rightarrow> instruction \<Rightarrow> u256 VecStack \<Rightarrow> 'g Request \<Rightarrow> bool" where
  "request_ok val sch i st req \<longleftrightarrow>
     (\<forall>(off, sz) \<in> set (mem_ranges i st). range_end off sz \<le> request_mem val req)
     \<and> (request_provides req \<longleftrightarrow> starts_child i)
     \<and> min_price sch i st \<le> request_gas val sch req"

lemma INSTRUCTIONS_valid: "info_tier (INSTRUCTIONS i) \<noteq> Invalid \<Longrightarrow> (i, INSTRUCTIONS i) \<in> set instruction_table"
  by (auto simp: INSTRUCTIONS_def default_info_def split: option.splits dest: map_of_SomeD)

lemma tier_table: "list_all (\<lambda>(i, info). info_tier info \<in> {Zero, Special} \<longrightarrow>
    halts i \<or> i \<in> {EXP, SHA3, BALANCE, EXTCODESIZE, EXTCODECOPY, SLOAD, SSTORE, JUMPDEST, LOG0, LOG1, LOG2, LOG3, LOG4,
      CREATE, CALL, CALLCODE, DELEGATECALL, STATICCALL, CREATE2}) instruction_table"
  by (simp add: instruction_table_def new_info_def halts_def)

text \<open>The contract of \<open>requirements\<close> towards the interpreter.\<close>

definition requirements_ok ::
  "('g \<Rightarrow> nat) \<Rightarrow> Schedule \<Rightarrow> instruction \<Rightarrow> u256 VecStack \<Rightarrow> nat \<Rightarrow> 'g InstructionRequirements \<Rightarrow> bool" where
  "requirements_ok val sch i st n r \<longleftrightarrow>
     (\<forall>(off, sz) \<in> set (mem_ranges i st). range_end off sz \<le> memory_required_size r)
     \<and> memory_required_size r mod 32 = 0
     \<and> mem_paid val sch (memory_total_gas r) (max n (memory_required_size r))
     \<and> (provide_gas r \<noteq> None \<longleftrightarrow> starts_child i)
     \<and> min_price sch i st + (mem_price sch (max n (memory_required_size r) div 32) - mem_price sch (n div 32))
         + (case provide_gas r of Some p \<Rightarrow> val p | None \<Rightarrow> 0) \<le> val (gas_cost r)"

lemma requirements_okI:
  assumes "request_ok val sch i st req" "settled val sch n req r"
  shows "requirements_ok val sch i st n r"
proof -
  have m: "request_mem val req \<le> memory_required_size r"
    using assms(2) mem_words_bounds(1) by (simp add: settled_def)
  then have "range_end off sz \<le> memory_required_size r" if "(off, sz) \<in> set (mem_ranges i st)" for off sz
    using assms(1) that unfolding request_ok_def by fastforce
  then show ?thesis
    using assms by (auto simp: request_ok_def settled_def requirements_ok_def)
qed

section \<open>\<open>requirements\<close> on a well-behaved host\<close>

locale machine = cost_type C val mk W + ext_host X hinv
  for C :: "'g cost_ops" and val :: "'g \<Rightarrow> nat" and mk :: "nat \<Rightarrow> 'g" and W :: nat
    and X :: "'e ext_ops" and hinv :: "'e \<Rightarrow> bool"
begin

abbreviation safe :: "('e, 'a) vm_comp \<Rightarrow> ('a \<Rightarrow> bool) \<Rightarrow> bool" where
  "safe \<equiv> host_op X hinv"

lemma new_account_charge_safe: "safe (new_account_charge X sch v a) (\<lambda>_. True)"
  unfolding new_account_charge_def
  by (intro host_op_if host_op_and_then [OF host_exists] host_op_and_then [OF host_exists_and_not_null] host_op_ok) simp_all

lemma request_sstore_safe:
  assumes "wf_schedule sch" "2 \<le> length (st_items st)"
  shows "safe (request_sstore C X sch st) (\<lambda>r. \<exists>g. r = Gas g \<and> 0 < val g)"
  unfolding request_sstore_def
proof (intro host_op_and_then [OF host_op_lift [where Q = "\<lambda>_. True"]] host_op_and_then [OF host_storage_at] host_op_ok)
  show "sound (peek st 0) (\<lambda>_. True)" "sound (peek st 1) (\<lambda>_. True)" by (simp_all add: peek_arg [OF assms(2)])
  fix a b c
  show "\<exists>g. Gas (cost_from C (if a = 0 \<and> b \<noteq> 0 then sstore_set_gas sch else sstore_reset_gas sch)) = Gas g \<and> 0 < val g" for a b :: u256
    using wf_schedule_base [OF assms(1), of "sstore_set_gas sch"] wf_schedule_base [OF assms(1), of "sstore_reset_gas sch"]
    by (simp add: base_prices_def)
qed

lemma request_suicide_safe:
  assumes "wf_schedule sch" "1 \<le> length (st_items st)"
  shows "safe (request_suicide C X sch st) (\<lambda>r. \<exists>g. r = Gas g)"
  unfolding request_suicide_def
proof (intro host_op_and_then [OF host_origin_balance] host_op_and_then [OF host_op_lift [where Q = "\<lambda>_. True"]]
    host_op_and_then [OF new_account_charge_safe] host_op_if host_op_lift host_op_ok)
  show "sound (peek st 0) (\<lambda>_. True)" by (simp add: peek_arg [OF assms(2)])
qed (simp_all add: overflowing_add)

lemma request_sha3_sound:
  assumes "wf_schedule sch" "2 \<le> length (st_items st)" "W = 64"
  shows "sound (request_sha3 C sch st) (request_ok val sch SHA3 st)"
proof -
  have p: "sha3_word_gas sch < 16" "0 < sha3_gas sch" "sha3_gas sch < 2 ^ 32"
    using assms(1) wf_schedule_base [OF assms(1), of "sha3_gas sch"] by (simp_all add: wf_schedule_def base_prices_def)
  have w: "sha3_word_gas sch * ((x + 31) div 32) < 2 ^ 64" "sha3_gas sch + sha3_word_gas sch * ((x + 31) div 32) < 2 ^ 64"
    if "x + 31 < 2 ^ 64" for x
  proof -
    have "sha3_word_gas sch * ((x + 31) div 32) \<le> 15 * 2 ^ 59"
      by (rule mult_le_mono) (use p that in \<open>simp_all add: div_le_mono less_mult_imp_div_less [THEN less_imp_le]\<close>)
    with p show "sha3_word_gas sch * ((x + 31) div 32) < 2 ^ 64"
      "sha3_gas sch + sha3_word_gas sch * ((x + 31) div 32) < 2 ^ 64" by simp_all
  qed
  show ?thesis
    using assms(3) p w
    by (auto simp: request_sha3_def request_ok_def peek_arg [OF assms(2)] from_u256 add_gas_usize_def overflowing_add
      mem_needed_eq mem_ranges_def starts_child_def min_price_def halts_def cost_mul cost_add)
qed

lemmas request_simps = request_ok_def mem_ranges_def starts_child_def min_price_def halts_def

lemma request_copy_sound:
  assumes "n \<le> length (st_items st)" "a < n" "b < n"
  shows "sound (request_copy C g st a b) (\<lambda>req. \<exists>m c. req = GasMemCopy g m c \<and> val m = range_end (arg st a) (arg st b))"
  using assms(2,3) by (simp add: request_copy_def peek_arg [OF assms(1)] mem_needed_eq from_u256)

lemma request_log_sound:
  assumes "wf_schedule sch" "LOG0 \<le> i" "i \<le> LOG4" "2 \<le> length (st_items st)"
  shows "sound (request_log C sch i st) (\<lambda>req. \<exists>g m. req = GasMem g m \<and> 0 < val g \<and> val m = range_end (arg st 0) (arg st 1))"
proof -
  have p: "0 < log_gas sch" "log_gas sch < 2 ^ 32" "log_topic_gas sch < 2 ^ 32" "log_data_gas sch < 2 ^ 32"
    using wf_schedule_base [OF assms(1), of "log_gas sch"] wf_schedule_extra [OF assms(1)]
    by (simp_all add: base_prices_def extra_prices_def)
  have "unat (i - LOG0) \<le> 4" using log_info [OF assms(2,3)] by simp
  then have "log_topic_gas sch * unat (i - LOG0) \<le> 2 ^ 32 * 4" using p by (intro mult_le_mono) simp_all
  then have "log_gas sch + log_topic_gas sch * unat (i - LOG0) < usize_range" using p by simp
  then show ?thesis
    using p assms(2,3)
    by (simp add: request_log_def get_log_topics_def usize_ck_def peek_arg [OF assms(4)] from_u256 overflowing_mul
      overflowing_add mem_needed_eq)
qed

lemma two_ranges_sound:
  assumes "n \<le> length (st_items st)" "Suc a < n" "Suc b < n"
  shows "sound (two_ranges C st a b) (\<lambda>m. range_end (arg st a) (arg st (Suc a)) \<le> val m
    \<and> range_end (arg st b) (arg st (Suc b)) \<le> val m)"
  using assms(2,3) by (simp add: two_ranges_def peek_arg [OF assms(1)] mem_needed_eq cost_max_def cost_less)

lemma request_call_safe:
  assumes "wf_schedule sch" "i = CALL \<or> i = CALLCODE" "7 \<le> length (st_items st)"
  shows "safe (request_call C X sch i st) (request_ok val sch i st)"
proof -
  have p: "0 < call_gas sch" "call_gas sch < 2 ^ 32" "call_new_account_gas sch < 2 ^ 32"
    "call_value_transfer_gas sch < 2 ^ 32" "call_stipend sch < call_value_transfer_gas sch"
    using assms(1) wf_schedule_base [OF assms(1), of "call_gas sch"] wf_schedule_extra [OF assms(1)]
    by (simp_all add: base_prices_def extra_prices_def wf_schedule_def)
  have eq: "request_call C X sch i st = and_then (lift (two_ranges C st 5 3)) (\<lambda>m.
      and_then (if i = CALL then new_account_charge X sch (arg st 2 \<noteq> 0) (u256_to_address (arg st 1)) else ok False)
      (\<lambda>charge. and_then (lift (if charge
         then overflowing (overflow_add C (cost_from C (call_gas sch)) (cost_from C (call_new_account_gas sch)))
         else Ok (cost_from C (call_gas sch)))) (\<lambda>gas.
      and_then (lift (if arg st 2 \<noteq> 0 then overflowing (overflow_add C gas (cost_from C (call_value_transfer_gas sch)))
         else Ok gas)) (\<lambda>gas. ok (GasMemProvide gas m (Some (arg st 0)))))))"
    by (simp add: request_call_def Let_def peek_arg [OF assms(3)])
  show ?thesis
    unfolding eq
    by (rule host_op_and_then [OF host_op_lift [OF two_ranges_sound [OF assms(3)]]]
        host_op_and_then [OF host_op_if [OF new_account_charge_safe host_op_ok [where Q = "\<lambda>_. True"]]]
        host_op_and_then [OF host_op_lift [where Q = "\<lambda>g. 0 < val g"]]
        host_op_and_then [OF host_op_lift [where Q = "\<lambda>g. min_price sch i st \<le> val g"]] host_op_ok
      | (use p assms(2) in \<open>auto simp: overflowing_add request_simps split: if_splits\<close>; fail))+
qed

lemma exp_price_sound:
  assumes "wf_schedule sch"
  shows "sound (usize_ck (exp_gas sch + exp_byte_gas sch * ((nat_bits (unat (x :: u256)) + 7) div 8)))
    (\<lambda>n. 0 < val (cost_from C n))"
proof -
  have "nat_bits (unat x) \<le> 256" using unat_lt_u256 by (rule nat_bits_bound)
  then have "(nat_bits (unat x) + 7) div 8 \<le> 32" by simp
  moreover have p: "0 < exp_gas sch" "exp_gas sch < 2 ^ 32" "exp_byte_gas sch < 2 ^ 32"
    using wf_schedule_base [OF assms, of "exp_gas sch"] wf_schedule_extra [OF assms]
    by (simp_all add: base_prices_def extra_prices_def)
  ultimately have "exp_byte_gas sch * ((nat_bits (unat x) + 7) div 8) \<le> 2 ^ 32 * 32"
    by (intro mult_le_mono) simp_all
  then have "exp_gas sch + exp_byte_gas sch * ((nat_bits (unat x) + 7) div 8) < usize_range" using p by simp
  with p show ?thesis by (simp add: usize_ck_def)
qed

lemma default_gas_pos:
  assumes "wf_schedule sch" "info_tier (INSTRUCTIONS i) \<noteq> Invalid" "info_tier (INSTRUCTIONS i) \<noteq> Special" "\<not> halts i"
  shows "0 < val (cost_from C (tier_step_gas sch ! get_tier_idx (info_tier (INSTRUCTIONS i))))"
proof -
  let ?t = "get_tier_idx (info_tier (INSTRUCTIONS i))"
  have "info_tier (INSTRUCTIONS i) \<noteq> Zero"
    using tier_table [unfolded list_all_iff, rule_format, OF INSTRUCTIONS_valid [OF assms(2)]] assms(3,4)
    by (auto simp: INSTRUCTIONS_simps)
  then have "?t \<in> set [1, 2, 3, 4, 5, 6]" using assms(2,3) by (cases "info_tier (INSTRUCTIONS i)") auto
  then have "0 < tier_step_gas sch ! ?t" "?t < 8" using assms(1) by (auto simp: wf_schedule_def)
  with wf_schedule_tier [OF assms(1), of ?t] show ?thesis by simp
qed

text \<open>The branches of \<open>request_of\<close>, for an instruction whose operands are on the stack.\<close>

lemma request_delegate_sound:
  assumes "wf_schedule sch" "i = DELEGATECALL \<or> i = STATICCALL" "info_args (INSTRUCTIONS i) \<le> length (st_items st)"
  shows "sound (ok_then (two_ranges C st 4 2) (\<lambda>mem. ok_then (peek st 0) (\<lambda>requested.
    Ok (GasMemProvide (cost_from C (call_gas sch)) mem (Some requested))))) (request_ok val sch i st)"
proof -
  have len: "6 \<le> length (st_items st)" using assms(2,3) by (auto simp: INSTRUCTIONS_simps)
  show ?thesis
    using two_ranges_sound [OF len, of 4 2] assms(2) wf_schedule_base [OF assms(1), of "call_gas sch"]
    by (auto simp: peek_arg [OF len] request_simps base_prices_def elim!: sound_mono)
qed

lemma request_create_sound:
  assumes "wf_schedule sch" "i = CREATE \<or> i = CREATE2" "info_args (INSTRUCTIONS i) \<le> length (st_items st)"
  shows "sound (ok_then (peek st 1) (\<lambda>off. ok_then (peek st 2) (\<lambda>sz. ok_then (mem_needed C off sz) (\<lambda>mem.
    Ok (GasMemProvide (cost_from C (create_gas sch)) mem None))))) (request_ok val sch i st)"
proof -
  have len: "3 \<le> length (st_items st)" using assms(2,3) by (auto simp: INSTRUCTIONS_simps)
  show ?thesis
    using assms(2) wf_schedule_base [OF assms(1), of "create_gas sch"]
    by (auto simp: peek_arg [OF len] request_simps base_prices_def mem_needed_eq)
qed

lemma request_log_ok:
  assumes "wf_schedule sch" "LOG0 \<le> i \<and> i \<le> LOG4" "info_args (INSTRUCTIONS i) \<le> length (st_items st)"
  shows "sound (request_log C sch i st) (request_ok val sch i st)"
proof -
  have len: "2 \<le> length (st_items st)" using log_info [of i] assms(2,3) by auto
  have "i \<noteq> MSTORE" "i \<noteq> MLOAD" "i \<noteq> MSTORE8" "\<not> starts_child i" "i \<noteq> CALL" "i \<noteq> CALLCODE"
    using assms(2) by (auto simp: starts_child_def)
  then show ?thesis
    using assms(2) by (intro sound_mono [OF request_log_sound [OF assms(1) _ _ len]])
      (auto simp: request_ok_def mem_ranges_def min_price_def)
qed

lemma request_copy_ok:
  assumes "wf_schedule sch" "i = CALLDATACOPY \<or> i = CODECOPY \<or> i = RETURNDATACOPY"
    and "info_args (INSTRUCTIONS i) \<le> length (st_items st)" "0 < val g"
  shows "sound (request_copy C g st 0 2) (request_ok val sch i st)"
proof -
  have "3 \<le> length (st_items st)" using assms(2,3) by (auto simp: INSTRUCTIONS_simps)
  from request_copy_sound [OF this, of 0 2 g] show ?thesis
    using assms(2,4) by (auto simp: request_simps elim!: sound_mono)
qed

lemma request_extcodecopy_ok:
  assumes "wf_schedule sch" "4 \<le> length (st_items st)"
  shows "sound (request_copy C (cost_from C (extcodecopy_base_gas sch)) st 1 3) (request_ok val sch EXTCODECOPY st)"
  using request_copy_sound [OF assms(2), of 1 3 "cost_from C (extcodecopy_base_gas sch)"]
    wf_schedule_base [OF assms(1), of "extcodecopy_base_gas sch"]
  by (auto simp: request_simps base_prices_def elim!: sound_mono)

lemma request_default_ok:
  assumes "wf_schedule sch" "info_tier (INSTRUCTIONS i) \<noteq> Invalid" "mem_ranges i st = []" "\<not> starts_child i"
    and "i \<notin> {EXP, BALANCE, EXTCODESIZE, SLOAD, SSTORE, JUMPDEST}"
  shows "request_ok val sch i st (Gas (cost_from C (tier_step_gas sch ! get_tier_idx (info_tier (INSTRUCTIONS i)))))"
proof (cases "halts i")
  case False
  have "i \<notin> {SHA3, EXTCODECOPY, LOG0, LOG1, LOG2, LOG3, LOG4}"
    using assms(3) by (auto simp: mem_ranges_def split: if_splits)
  then have "info_tier (INSTRUCTIONS i) \<noteq> Special"
    using tier_table [unfolded list_all_iff, rule_format, OF INSTRUCTIONS_valid [OF assms(2)]] assms(4,5) False
    by (auto simp: starts_child_def)
  from default_gas_pos [OF assms(1,2) this False] assms(3,4) show ?thesis
    by (auto simp: request_ok_def min_price_def starts_child_def)
qed (use assms in \<open>auto simp: request_ok_def min_price_def starts_child_def\<close>)

lemma request_mem_sound:
  assumes "0 < val g \<or> i = RETURN \<or> i = REVERT" "info_args (INSTRUCTIONS i) \<le> length (st_items st)"
  shows "i = MSTORE \<or> i = MLOAD \<Longrightarrow>
      sound (ok_then (peek st 0) (\<lambda>off. map_outcome (GasMem g) (mem_needed_const C off 32))) (request_ok val sch i st)"
    and "i = MSTORE8 \<Longrightarrow>
      sound (ok_then (peek st 0) (\<lambda>off. map_outcome (GasMem g) (mem_needed_const C off 1))) (request_ok val sch i st)"
    and "i = RETURN \<or> i = REVERT \<Longrightarrow>
      sound (ok_then (peek st 0) (\<lambda>off. ok_then (peek st 1) (\<lambda>sz. map_outcome (GasMem g) (mem_needed C off sz))))
        (request_ok val sch i st)"
proof -
  have n1: "1 \<le> length (st_items st)" if "i = MSTORE \<or> i = MLOAD \<or> i = MSTORE8"
    using assms(2) that by (auto simp: INSTRUCTIONS_simps)
  show "sound (ok_then (peek st 0) (\<lambda>off. map_outcome (GasMem g) (mem_needed_const C off 32))) (request_ok val sch i st)"
    if "i = MSTORE \<or> i = MLOAD"
    using assms(1) that n1 by (auto simp: request_simps peek_arg mem_needed_const_eq range_end_def)
  show "sound (ok_then (peek st 0) (\<lambda>off. map_outcome (GasMem g) (mem_needed_const C off 1))) (request_ok val sch i st)"
    if "i = MSTORE8"
    using assms(1) that n1 by (auto simp: request_simps peek_arg mem_needed_const_eq range_end_def)
  show "sound (ok_then (peek st 0) (\<lambda>off. ok_then (peek st 1) (\<lambda>sz. map_outcome (GasMem g) (mem_needed C off sz))))
        (request_ok val sch i st)" if "i = RETURN \<or> i = REVERT"
  proof -
    have "2 \<le> length (st_items st)" using assms(2) that by (auto simp: INSTRUCTIONS_simps)
    note pk = peek_arg [OF this]
    show ?thesis using that by (auto simp: request_simps pk mem_needed_eq)
  qed
qed

lemma request_exp_sound:
  assumes "wf_schedule sch" "2 \<le> length (st_items st)"
  shows "sound (ok_then (peek st 1) (\<lambda>expon. let no_of_bytes = (nat_bits (unat expon) + 7) div 8 in
    map_outcome (\<lambda>n. Gas (cost_from C n)) (usize_ck (exp_gas sch + exp_byte_gas sch * no_of_bytes))))
    (request_ok val sch EXP st)"
  using exp_price_sound [OF assms(1), of "arg st 1"]
  by (auto simp: peek_arg [OF assms(2)] Let_def request_simps elim!: sound_mono)

lemma request_storage_ok:
  assumes "wf_schedule sch" "info_args (INSTRUCTIONS i) \<le> length (st_items st)"
  shows "i = SSTORE \<Longrightarrow> safe (request_sstore C X sch st) (request_ok val sch i st)"
    and "i = SUICIDE \<Longrightarrow> safe (request_suicide C X sch st) (request_ok val sch i st)"
proof -
  show "safe (request_sstore C X sch st) (request_ok val sch i st)" if "i = SSTORE"
    by (rule host_op_weaken [OF request_sstore_safe [OF assms(1)]])
      (use assms(2) that in \<open>auto simp: request_simps INSTRUCTIONS_simps\<close>)
  show "safe (request_suicide C X sch st) (request_ok val sch i st)" if "i = SUICIDE"
    by (rule host_op_weaken [OF request_suicide_safe [OF assms(1)]])
      (use assms(2) that in \<open>auto simp: request_simps INSTRUCTIONS_simps\<close>)
qed

lemma request_of_safe:
  assumes "wf_schedule sch" "info_tier (INSTRUCTIONS i) \<noteq> Invalid"
    and "info_args (INSTRUCTIONS i) \<le> length (st_items st)" "W = 64"
  shows "safe (request_of C X sch i (cost_from C (tier_step_gas sch ! get_tier_idx (info_tier (INSTRUCTIONS i)))) st)
    (request_ok val sch i st)"
proof -
  let ?dg = "cost_from C (tier_step_gas sch ! get_tier_idx (info_tier (INSTRUCTIONS i)))"
  have pos: "Suc 0 \<le> val (cost_from C c)" if "c \<in> set (base_prices sch)" for c
    using wf_schedule_base [OF assms(1) that] by simp
  have n: "n \<le> length (st_items st)" if "i = c" "info_args (INSTRUCTIONS c) = n" for c n
    using assms(3) that by simp
  have "info_tier (INSTRUCTIONS i) \<noteq> Special" "\<not> halts i"
    if "i \<in> {CALLDATACOPY, CODECOPY, RETURNDATACOPY, MSTORE, MLOAD, MSTORE8}"
    using that by (auto simp: INSTRUCTIONS_simps halts_def)
  from default_gas_pos [OF assms(1,2) this]
  have dg: "0 < val ?dg" if "i \<in> {CALLDATACOPY, CODECOPY, RETURNDATACOPY, MSTORE, MLOAD, MSTORE8}"
    using that by blast
  note mem = request_mem_sound [OF _ assms(3), of ?dg, THEN host_op_lift]
  show ?thesis
    unfolding request_of_def
  proof (intro host_op_if request_storage_ok [OF assms(1,3)] mem
      host_op_lift [OF request_log_ok [OF assms(1) _ assms(3)]]
      host_op_lift [OF request_delegate_sound [OF assms(1) _ assms(3)]]
      host_op_lift [OF request_create_sound [OF assms(1) _ assms(3)]]
      host_op_lift [OF request_copy_ok [OF assms(1) _ assms(3)]])
    assume i: "i = SHA3"
    show "safe (lift (request_sha3 C sch st)) (request_ok val sch i st)"
      unfolding i by (rule host_op_lift [OF request_sha3_sound [OF assms(1) n [OF i] assms(4)]]) (simp add: INSTRUCTIONS_simps)
  next
    assume i: "i = CALL \<or> i = CALLCODE"
    show "safe (request_call C X sch i st) (request_ok val sch i st)"
      by (rule request_call_safe [OF assms(1) i]) (use i assms(3) in \<open>auto simp: INSTRUCTIONS_simps\<close>)
  next
    assume i: "i = EXTCODECOPY"
    show "safe (lift (request_copy C (cost_from C (extcodecopy_base_gas sch)) st 1 3)) (request_ok val sch i st)"
      unfolding i by (rule host_op_lift [OF request_extcodecopy_ok [OF assms(1) n [OF i]]]) (simp add: INSTRUCTIONS_simps)
  next
    assume i: "i = EXP"
    show "safe (lift (ok_then (peek st 1) (\<lambda>expon. let no_of_bytes = (nat_bits (unat expon) + 7) div 8 in
      map_outcome (\<lambda>n. Gas (cost_from C n)) (usize_ck (exp_gas sch + exp_byte_gas sch * no_of_bytes)))))
      (request_ok val sch i st)"
      unfolding i by (rule host_op_lift [OF request_exp_sound [OF assms(1) n [OF i]]]) (simp add: INSTRUCTIONS_simps)
  qed (use assms(1,2) dg in \<open>auto intro!: host_op_ok request_default_ok simp: pos request_simps base_prices_def\<close>)
qed

lemma requirements_safe:
  assumes "hinv e" "info_tier (INSTRUCTIONS i) \<noteq> Invalid" "info_args (INSTRUCTIONS i) \<le> length (st_items st)" "W = 64"
    and paid: "mem_paid val (ext_schedule X e) (current_mem_gas gm) n"
  shows "wp (requirements C X gm i (INSTRUCTIONS i) st n)
    (\<lambda>r e'. hinv e' \<and> same_env X e e' \<and> requirements_ok val (ext_schedule X e) i st n r)
    (\<lambda>_ e'. hinv e' \<and> same_env X e e') e"
proof -
  let ?sch = "ext_schedule X e"
  have sch: "wf_schedule ?sch" by (rule host_schedule [OF assms(1)])
  have idx: "index (tier_step_gas ?sch) (get_tier_idx (info_tier (INSTRUCTIONS i))) =
      Ok (tier_step_gas ?sch ! get_tier_idx (info_tier (INSTRUCTIONS i)))"
    using sch assms(2) by (cases "info_tier (INSTRUCTIONS i)") (simp_all add: index_def wf_schedule_def)
  have "safe (and_then (request_of C X ?sch i (cost_from C (tier_step_gas ?sch ! get_tier_idx (info_tier (INSTRUCTIONS i)))) st)
      (\<lambda>req. lift (settle C gm ?sch n req))) (requirements_ok val ?sch i st n)"
    by (rule host_op_and_then [OF request_of_safe [OF sch assms(2,3,4)]])
      (blast intro: host_op_lift sound_mono [OF settle_sound [OF sch paid assms(4)]] requirements_okI)
  from host_opD [OF this assms(1)] show ?thesis
    by (simp add: requirements_def wp_and_then wp_gets idx wp_lift)
qed

end

end
