(* ===== verification/Evm_Memory.thy ===== *)
theory Evm_Memory
  imports Vm_Types
begin

text \<open>
  The volatile byte memory of the interpreter (\<open>ethcore/evm/src/interpreter/memory.rs\<close>, trait \<open>Memory\<close>
  for \<open>Vec<u8>\<close>).  Offsets and sizes arrive as \<open>U256\<close> and are truncated to 64 bits, so the functions are
  only correct when the gas accounting has bounded them first; out-of-range slices panic.
\<close>

section \<open>Operations\<close>

abbreviation MAX_RETURN_WASTE_BYTES :: nat where
  "MAX_RETURN_WASTE_BYTES \<equiv> 16384"

definition is_valid_range :: "nat \<Rightarrow> nat \<Rightarrow> bool" where
  "is_valid_range off sz \<longleftrightarrow> (let overflow = (usize_range \<le> off + sz) in sz > 0 \<and> \<not> overflow)"

definition mem_read_slice :: "bytes \<Rightarrow> u256 \<Rightarrow> u256 \<Rightarrow> bytes vm_result" where
  "mem_read_slice m init_off_u init_size_u =
     (let off = low_u64 init_off_u; sz = low_u64 init_size_u
      in if \<not> is_valid_range off sz then slice m 0 0 else slice m off (off + sz))"

definition mem_read :: "bytes \<Rightarrow> u256 \<Rightarrow> u256 vm_result" where
  "mem_read m offset =
     (let off = low_u64 offset in ok_then (slice m off (off + 32)) (\<lambda>bs. Ok (u256_from_be bs)))"

text \<open>A mutable slice: where it starts, and its contents.\<close>

definition mem_writeable_slice :: "bytes \<Rightarrow> u256 \<Rightarrow> u256 \<Rightarrow> (nat \<times> bytes) vm_result" where
  "mem_writeable_slice m offset sz =
     (let off = low_u64 offset; s = low_u64 sz
      in if \<not> is_valid_range off s then map_outcome (Pair 0) (slice m 0 0)
         else map_outcome (Pair off) (slice m off (off + s)))"

definition mem_write_slice :: "bytes \<Rightarrow> u256 \<Rightarrow> bytes \<Rightarrow> bytes vm_result" where
  "mem_write_slice m offset sl =
     (if sl \<noteq> [] then
        (let off = low_u64 offset in
         ok_then (slice m off (off + length sl)) (\<lambda>_. Ok (splice m off sl)))
      else Ok m)"

definition mem_write :: "bytes \<Rightarrow> u256 \<Rightarrow> u256 \<Rightarrow> bytes vm_result" where
  "mem_write m offset value =
     (let off = low_u64 offset in
      ok_then (slice m off (off + 32)) (\<lambda>_. Ok (splice m off (u256_to_be value))))"

definition mem_write_byte :: "bytes \<Rightarrow> u256 \<Rightarrow> u256 \<Rightarrow> bytes vm_result" where
  "mem_write_byte m offset value =
     (let off = low_u64 offset; val = low_u64 value
      in if off < length m then Ok (m[off := of_nat val]) else Panic Index_out_of_bounds)"

text \<open>\<open>Vec::resize\<close> refuses to allocate \<open>isize::MAX\<close> bytes or more.\<close>

definition mem_resize :: "bytes \<Rightarrow> nat \<Rightarrow> bytes vm_result" where
  "mem_resize m new_size =
     (if new_size < 2 ^ 63 then Ok (take new_size m @ replicate (new_size - length m) 0)
      else Panic Capacity_overflow)"

definition mem_expand :: "bytes \<Rightarrow> nat \<Rightarrow> bytes vm_result" where
  "mem_expand m sz = (if sz > length m then mem_resize m sz else Ok m)"

definition into_return_data :: "bytes \<Rightarrow> u256 \<Rightarrow> u256 \<Rightarrow> ReturnData vm_result" where
  "into_return_data m offset_u size_u =
     (let offset = low_u64 offset_u; sz = low_u64 size_u in
      if \<not> is_valid_range offset sz then Ok rd_empty
      else if length m < sz then Panic Arith_overflow
      else if length m - sz > MAX_RETURN_WASTE_BYTES then
        if offset \<le> length m then Ok (rd_new (take sz (drop offset m)) 0 sz)
        else Panic Index_out_of_bounds
      else Ok (rd_new m offset sz))"

section \<open>Ranges inside the memory\<close>

text \<open>
  The range of \<open>sz\<close> bytes at \<open>off\<close> lies in a memory of \<open>n\<close> bytes; an empty range always does, wherever
  it starts.
\<close>

definition in_mem :: "nat \<Rightarrow> u256 \<Rightarrow> u256 \<Rightarrow> bool" where
  "in_mem n off sz \<longleftrightarrow> sz = 0 \<or> unat off + unat sz \<le> n"

text \<open>The bytes of such a range.\<close>

definition mem_bytes :: "bytes \<Rightarrow> u256 \<Rightarrow> u256 \<Rightarrow> bytes" where
  "mem_bytes m off sz = (if sz = 0 then [] else take (unat sz) (drop (unat off) m))"

lemma length_mem_bytes: "in_mem (length m) off sz \<Longrightarrow> length (mem_bytes m off sz) = unat sz"
  by (auto simp: in_mem_def mem_bytes_def)

lemma in_mem_mono: "in_mem n off sz \<Longrightarrow> n \<le> n' \<Longrightarrow> in_mem n' off sz"
  by (auto simp: in_mem_def)

lemma in_mem_bounds:
  assumes "in_mem (length m) off sz" "vec_ok m" "sz \<noteq> 0"
  shows "unat off < usize_range" "unat sz < usize_range" "low_u64 off = unat off" "low_u64 sz = unat sz"
    "unat off + unat sz \<le> length m" "is_valid_range (unat off) (unat sz)"
proof -
  from assms have le: "unat off + unat sz \<le> length m" by (simp add: in_mem_def)
  moreover have "length m < 2 ^ 63" using assms(2) by (simp add: vec_ok_def)
  ultimately show o: "unat off < usize_range" and s: "unat sz < usize_range" by simp_all
  from o show "low_u64 off = unat off" by simp
  from s show "low_u64 sz = unat sz" by simp
  show "unat off + unat sz \<le> length m" by fact
  show "is_valid_range (unat off) (unat sz)"
    using le \<open>length m < 2 ^ 63\<close> assms(3) by (simp add: is_valid_range_def)
qed

lemma is_valid_range_0 [simp]: "\<not> is_valid_range off 0"
  by (simp add: is_valid_range_def)

lemma mem_read_slice_ok:
  assumes "in_mem (length m) off sz" "vec_ok m"
  shows "mem_read_slice m off sz = Ok (mem_bytes m off sz)"
proof (cases "sz = 0")
  case True
  then show ?thesis by (simp add: mem_read_slice_def mem_bytes_def slice_def low_u64_def)
next
  case False
  note b = in_mem_bounds [OF assms False]
  from b(5,6) False show ?thesis
    unfolding mem_read_slice_def b(3,4) by (simp add: mem_bytes_def slice_def)
qed

lemma mem_writeable_slice_ok:
  assumes "in_mem (length m) off sz" "vec_ok m"
  shows "mem_writeable_slice m off sz = Ok (if sz = 0 then 0 else unat off, mem_bytes m off sz)"
proof (cases "sz = 0")
  case True
  then show ?thesis by (simp add: mem_writeable_slice_def mem_bytes_def slice_def low_u64_def)
next
  case False
  note b = in_mem_bounds [OF assms False]
  from b(5,6) False show ?thesis
    unfolding mem_writeable_slice_def b(3,4) by (simp add: mem_bytes_def slice_def Let_def)
qed

lemma mem_write_slice_ok:
  assumes "sl \<noteq> [] \<Longrightarrow> unat off + length sl \<le> length m" "vec_ok m"
  shows "mem_write_slice m off sl = Ok (if sl = [] then m else splice m (unat off) sl)"
proof (cases "sl = []")
  case False
  with assms have "unat off < usize_range" by (simp add: vec_ok_def)
  with False assms show ?thesis by (simp add: mem_write_slice_def slice_def)
qed (simp add: mem_write_slice_def)

lemma mem_read_ok:
  assumes "unat off + 32 \<le> length m" "vec_ok m"
  shows "mem_read m off = Ok (u256_from_be (take 32 (drop (unat off) m)))"
proof -
  from assms have "unat off < usize_range" by (simp add: vec_ok_def)
  with assms show ?thesis by (simp add: mem_read_def slice_def)
qed

lemma mem_write_ok:
  assumes "unat off + 32 \<le> length m" "vec_ok m"
  shows "mem_write m off v = Ok (splice m (unat off) (u256_to_be v))"
proof -
  from assms have "unat off < usize_range" by (simp add: vec_ok_def)
  with assms show ?thesis by (simp add: mem_write_def slice_def)
qed

lemma mem_write_byte_ok:
  assumes "unat off < length m" "vec_ok m"
  shows "mem_write_byte m off v = Ok (m[unat off := ucast v])"
proof -
  from assms have "unat off < usize_range" by (simp add: vec_ok_def)
  moreover have "(of_nat (low_u64 v) :: u8) = ucast v"
  proof -
    have "(of_nat (low_u64 v) :: u8) = of_nat (low_u64 v mod 2 ^ 8)"
      by (rule word_unat_eq_iff [THEN iffD2]) (simp add: unat_of_nat)
    also have "low_u64 v mod 2 ^ 8 = unat v mod 2 ^ 8" by (simp add: low_u64_def mod_mod_cancel)
    also have "(of_nat (unat v mod 2 ^ 8) :: u8) = of_nat (unat v)"
      using of_nat_mod_word [where 'a = 8, of "unat v"] by simp
    finally show ?thesis by simp
  qed
  ultimately show ?thesis using assms by (simp add: mem_write_byte_def)
qed

lemma mem_expand_ok:
  assumes "n < 2 ^ 63"
  shows "mem_expand m n = Ok (m @ replicate (n - length m) 0)"
  using assms by (simp add: mem_expand_def mem_resize_def)

lemma length_mem_expand: "mem_expand m n = Ok m' \<Longrightarrow> length m' = max (length m) n"
  by (auto simp: mem_expand_def mem_resize_def split: if_splits)

section \<open>Functional correctness\<close>

lemma mem_read_after_write:
  assumes "unat off + 32 \<le> length m" "vec_ok m"
  shows "\<exists>m'. mem_write m off v = Ok m' \<and> mem_read m' off = Ok v \<and> length m' = length m"
proof -
  let ?m = "splice m (unat off) (u256_to_be v)"
  have "take 32 (drop (unat off) ?m) = u256_to_be v"
    using assms(1) by (simp add: splice_def)
  moreover have "length ?m = length m" using assms by simp
  ultimately show ?thesis
    using assms by (simp add: mem_write_ok mem_read_ok vec_ok_def)
qed

lemma into_return_data_bytes:
  assumes "in_mem (length m) off sz" "vec_ok m"
  shows "\<exists>rd. into_return_data m off sz = Ok rd \<and> wf_return_data rd \<and> rd_bytes rd = mem_bytes m off sz"
proof (cases "sz = 0")
  case True
  then show ?thesis
    by (simp add: into_return_data_def mem_bytes_def low_u64_def rd_empty_def rd_bytes_def wf_return_data_def vec_ok_def)
next
  case False
  note b = in_mem_bounds [OF assms False]
  from b(5,6) False assms(2) show ?thesis
    unfolding into_return_data_def b(3,4)
    by (auto simp: Let_def rd_new_def mem_bytes_def rd_bytes_def wf_return_data_def vec_ok_def)
qed

end
