(* ===== verification/Evm_Arith.thy ===== *)
theory Evm_Arith
  imports Vm_Types
begin

text \<open>
  The arithmetic of the stack instructions, as \<open>exec_stack_instruction\<close> of
  \<open>ethcore/evm/src/interpreter/mod.rs\<close> computes it, and its specification: unsigned division in spite of the
  shift shortcuts, signed division and comparison on two's complement, modular arithmetic without an
  intermediate overflow, byte selection and sign extension.
\<close>

section \<open>Definitions\<close>

definition set_sign :: "u256 \<Rightarrow> bool \<Rightarrow> u256" where
  "set_sign value sign = (if sign then fst (overflowing_add (xor (not 0) value) 1) else value)"

definition get_and_reset_sign :: "u256 \<Rightarrow> u256 \<times> bool" where
  "get_and_reset_sign value = (let sign = bit value 255 in (set_sign value sign, sign))"

definition bool_to_u256 :: "bool \<Rightarrow> u256" where
  "bool_to_u256 v = (if v then 1 else 0)"

text \<open>\<open>U256::from(U512)\<close> panics when the value does not fit.\<close>

definition u256_from_u512 :: "u512 \<Rightarrow> u256 vm_result" where
  "u256_from_u512 x = (if unat x < 2 ^ 256 then Ok (ucast x) else Panic Cast_overflow)"

definition op_div :: "u256 \<Rightarrow> u256 \<Rightarrow> u256" where
  "op_div a b =
     (if b \<noteq> 0 then
        if b = 1 then a
        else if b = 2 then drop_bit 1 a
        else if b = 0x20 then drop_bit 5 a
        else if b = 0x100 then drop_bit 8 a
        else if b = 0x10000 then drop_bit 16 a
        else if b = 0x1000000 then drop_bit 24 a
        else if b = 0x10000000000000000 then drop_bit 64 a
        else if b = 0x1000000000000000000000000 then drop_bit 96 a
        else if b = 0x100000000000000000000000000000000000000000000000000000000 then drop_bit 224 a
        else if b = 0x100000000000000000000000000000000000000000000000000000000000000 then drop_bit 248 a
        else a div b
      else 0)"

definition op_mod :: "u256 \<Rightarrow> u256 \<Rightarrow> u256" where
  "op_mod a b = (if b \<noteq> 0 then a mod b else 0)"

definition op_sdiv :: "u256 \<Rightarrow> u256 \<Rightarrow> u256" where
  "op_sdiv ua ub =
     (let (a, sign_a) = get_and_reset_sign ua; (b, sign_b) = get_and_reset_sign ub;
          mn = push_bit 255 1 - 1
      in if b = 0 then 0
         else if a = mn \<and> b = not 0 then mn
         else set_sign (a div b) (sign_a \<noteq> sign_b))"

definition op_smod :: "u256 \<Rightarrow> u256 \<Rightarrow> u256" where
  "op_smod ua ub =
     (let (a, sign_a) = get_and_reset_sign ua; b = fst (get_and_reset_sign ub)
      in if b \<noteq> 0 then set_sign (a mod b) sign_a else 0)"

definition op_exp :: "u256 \<Rightarrow> u256 \<Rightarrow> u256" where
  "op_exp base expon = base ^ unat expon"

definition op_slt :: "u256 \<Rightarrow> u256 \<Rightarrow> u256" where
  "op_slt ua ub =
     (let (a, neg_a) = get_and_reset_sign ua; (b, neg_b) = get_and_reset_sign ub;
          is_positive_lt = (a < b \<and> \<not> (neg_a \<or> neg_b));
          is_negative_lt = (a > b \<and> (neg_a \<and> neg_b));
          has_different_signs = (neg_a \<and> \<not> neg_b)
      in bool_to_u256 (is_positive_lt \<or> is_negative_lt \<or> has_different_signs))"

definition op_sgt :: "u256 \<Rightarrow> u256 \<Rightarrow> u256" where
  "op_sgt ua ub =
     (let (a, neg_a) = get_and_reset_sign ua; (b, neg_b) = get_and_reset_sign ub;
          is_positive_gt = (a > b \<and> \<not> (neg_a \<or> neg_b));
          is_negative_gt = (a < b \<and> (neg_a \<and> neg_b));
          has_different_signs = (\<not> neg_a \<and> neg_b)
      in bool_to_u256 (is_positive_gt \<or> is_negative_gt \<or> has_different_signs))"

definition op_byte :: "u256 \<Rightarrow> u256 \<Rightarrow> u256" where
  "op_byte word val = (if word < 32 then and (drop_bit (8 * (31 - low_u64 word)) val) 0xff else 0)"

definition op_addmod :: "u256 \<Rightarrow> u256 \<Rightarrow> u256 \<Rightarrow> u256 vm_result" where
  "op_addmod a b c =
     (if c \<noteq> 0 then
        let res = fst (overflowing_add (ucast a :: u512) (ucast b))
        in u256_from_u512 (res mod ucast c)
      else Ok 0)"

definition op_mulmod :: "u256 \<Rightarrow> u256 \<Rightarrow> u256 \<Rightarrow> u256 vm_result" where
  "op_mulmod a b c =
     (if c \<noteq> 0 then
        let res = fst (overflowing_mul (ucast a :: u512) (ucast b))
        in u256_from_u512 (res mod ucast c)
      else Ok 0)"

definition op_signextend :: "u256 \<Rightarrow> u256 \<Rightarrow> u256" where
  "op_signextend bt number =
     (let bit_position = low_u64 bt * 8 + 7; mask = push_bit bit_position 1 - 1
      in if bit number bit_position then or number (not mask) else and number mask)"

section \<open>Specifications\<close>

text \<open>Division that rounds towards zero, and its remainder, which takes the sign of the dividend.\<close>

definition int_quot :: "int \<Rightarrow> int \<Rightarrow> int" where
  "int_quot x y = sgn x * sgn y * (\<bar>x\<bar> div \<bar>y\<bar>)"

definition int_rem :: "int \<Rightarrow> int \<Rightarrow> int" where
  "int_rem x y = sgn x * (\<bar>x\<bar> mod \<bar>y\<bar>)"

lemma drop_bit_div: "n < 256 \<Longrightarrow> drop_bit n a = a div 2 ^ n" for a :: u256
proof -
  assume "n < 256"
  then have "(2 :: nat) ^ n < 2 ^ 256" by (intro power_strict_increasing) simp_all
  then have "unat (of_nat (2 ^ n) :: u256) = 2 ^ n" by (rule unat_of_nat_u256)
  then have "unat (2 ^ n :: u256) = 2 ^ n" by simp
  then show ?thesis by (simp add: drop_bit_word_nat word_arith_nat_div)
qed

lemma op_div_eq: "op_div a b = (if b = 0 then 0 else a div b)"
proof -
  have one: "a div 1 = a" by (simp add: word_arith_nat_div)
  have same: "(if b = c then a div c else a div b) = a div b" for c by simp
  have two: "drop_bit 1 a = a div 2" using drop_bit_div [of 1 a] by simp
  note shifts = two drop_bit_div [of 5 a, simplified] drop_bit_div [of 8 a, simplified]
    drop_bit_div [of 16 a, simplified] drop_bit_div [of 24 a, simplified] drop_bit_div [of 64 a, simplified]
    drop_bit_div [of 96 a, simplified] drop_bit_div [of 224 a, simplified] drop_bit_div [of 248 a, simplified]
  have "op_div a b = (if b \<noteq> 0 then if b = 1 then a div 1 else a div b else 0)"
    unfolding op_div_def shifts same one ..
  then show ?thesis by (simp only: same) simp
qed

lemma set_sign_eq: "set_sign a s = (if s then - a else a)"
proof -
  have "xor (not 0) a = not a" by simp
  then show ?thesis by (simp only: set_sign_def overflowing_add_flag minus_eq_not_plus_1)
qed

lemma sign_bit: "bit (a :: u256) 255 \<longleftrightarrow> sint a < 0"
  using bit_last_iff [of a] by simp

lemma sint_bounds: "- (2 ^ 255) \<le> sint a" "sint a < 2 ^ 255" for a :: u256
  using sint_ge [of a] sint_lt [of a] by simp_all

lemma word_of_sint: "word_of_int (sint a) = a" for a :: "'a::len word"
  by (simp flip: scast_eq)

lemma reset_sign: "get_and_reset_sign a = (word_of_int \<bar>sint a\<bar>, sint a < 0)"
proof -
  have "- a = word_of_int (- sint a)" using word_of_sint [of a] by (metis wi_hom_neg)
  then show ?thesis
    using word_of_sint [of a] by (auto simp: get_and_reset_sign_def sign_bit set_sign_eq Let_def)
qed

lemma unat_abs_sint: "unat (word_of_int \<bar>sint a\<bar> :: u256) = nat \<bar>sint a\<bar>" for a :: u256
proof -
  have "\<bar>sint a\<bar> < 2 ^ 256" using sint_bounds [of a] by simp
  then have "uint (word_of_int \<bar>sint a\<bar> :: u256) = \<bar>sint a\<bar>" by (simp add: uint_word_of_int)
  then show ?thesis by (metis unat_eq_nat_uint)
qed

lemma abs_sint_0: "word_of_int \<bar>sint a\<bar> = (0 :: u256) \<longleftrightarrow> a = 0" for a :: u256
proof -
  have "word_of_int \<bar>sint a\<bar> = (0 :: u256) \<longleftrightarrow> nat \<bar>sint a\<bar> = 0"
    using unat_abs_sint [of a] unat_eq_0_iff by metis
  also have "\<dots> \<longleftrightarrow> sint a = 0" by simp
  also have "\<dots> \<longleftrightarrow> a = 0" by (metis word_of_sint signed_0 of_int_0)
  finally show ?thesis .
qed

lemma op_sdiv_eq: "op_sdiv a b = (if b = 0 then 0 else word_of_int (int_quot (sint a) (sint b)))"
proof (cases "b = 0")
  case False
  let ?a = "word_of_int \<bar>sint a\<bar> :: u256" and ?b = "word_of_int \<bar>sint b\<bar> :: u256"
  have sint_b: "sint b \<noteq> 0" using False by (metis word_of_sint of_int_0)
  have "?b \<noteq> not 0"
  proof
    assume "?b = not 0"
    then have "nat \<bar>sint b\<bar> = unat (- 1 :: u256)" using unat_abs_sint [of b] by simp
    then have "nat \<bar>sint b\<bar> = 2 ^ 256 - 1" by (simp add: unsigned_minus_1_eq_mask mask_eq_exp_minus_1)
    then show False using sint_bounds [of b] by simp
  qed
  moreover have "?a div ?b = word_of_int (\<bar>sint a\<bar> div \<bar>sint b\<bar>)"
    using sint_b by (simp add: word_arith_nat_div unat_abs_sint nat_div_distrib [symmetric] of_nat_nat pos_imp_zdiv_nonneg_iff)
  moreover have "sgn x * sgn y * z = (if (x < 0) \<noteq> (y < 0) then - z else z)" if "x \<noteq> 0" "y \<noteq> 0" for x y z :: int
    using that by (auto simp: sgn_if)
  ultimately show ?thesis
    using False abs_sint_0 [of b] sint_b
    by (cases "sint a = 0") (simp_all add: op_sdiv_def reset_sign int_quot_def set_sign_eq)
qed (simp add: op_sdiv_def reset_sign)

lemma op_smod_eq: "op_smod a b = (if b = 0 then 0 else word_of_int (int_rem (sint a) (sint b)))"
proof (cases "b = 0")
  case False
  let ?a = "word_of_int \<bar>sint a\<bar> :: u256" and ?b = "word_of_int \<bar>sint b\<bar> :: u256"
  have sint_b: "sint b \<noteq> 0" using False by (metis word_of_sint of_int_0)
  have "?a mod ?b = word_of_int (\<bar>sint a\<bar> mod \<bar>sint b\<bar>)"
    using sint_b by (simp add: word_arith_nat_mod unat_abs_sint nat_mod_distrib [symmetric] of_nat_nat)
  then show ?thesis
    using False abs_sint_0 [of b]
    by (auto simp: op_smod_def reset_sign int_rem_def set_sign_eq sgn_if)
qed (simp add: op_smod_def reset_sign)

lemma abs_less: "(word_of_int \<bar>sint a\<bar> :: u256) < word_of_int \<bar>sint b\<bar> \<longleftrightarrow> \<bar>sint a\<bar> < \<bar>sint b\<bar>" for a b :: u256
  by (auto simp: word_less_nat_alt unat_abs_sint)

lemma op_slt_eq: "op_slt a b = bool_to_u256 (sint a < sint b)"
  by (auto simp: op_slt_def reset_sign abs_less bool_to_u256_def)

lemma op_sgt_eq: "op_sgt a b = bool_to_u256 (sint a > sint b)"
  by (auto simp: op_sgt_def reset_sign abs_less bool_to_u256_def)

lemma u512_mod:
  fixes c :: u256
  assumes "c \<noteq> 0" "unat x = n"
  shows "u256_from_u512 (x mod ucast c) = Ok (of_nat (n mod unat c))"
proof -
  have c: "unat (ucast c :: u512) = unat c" by (simp add: unat_ucast_wider)
  then have u: "unat (x mod (ucast c :: u512)) = n mod unat c" using assms(2) by (simp add: unat_mod)
  also have "\<dots> < unat c" using assms(1) by simp
  also have "\<dots> < 2 ^ 256" by (rule unat_lt_u256)
  finally have lt: "unat (x mod (ucast c :: u512)) < 2 ^ 256" .
  have "(ucast (x mod (ucast c :: u512)) :: u256) = of_nat (unat (x mod (ucast c :: u512)))" by (rule ucast_nat)
  with u lt show ?thesis by (simp add: u256_from_u512_def)
qed

lemma op_addmod_eq: "op_addmod a b c = Ok (if c = 0 then 0 else of_nat ((unat a + unat b) mod unat c))"
proof (cases "c = 0")
  case False
  have "unat (ucast a :: u512) = unat a" "unat (ucast b :: u512) = unat b" by (simp_all add: unat_ucast_wider)
  moreover have "unat a + unat b < 2 ^ LENGTH(512)" using unat_lt_u256 [of a] unat_lt_u256 [of b] by simp
  ultimately have "unat ((ucast a :: u512) + ucast b) = unat a + unat b"
    by (metis unat_add_lem)
  from u512_mod [OF False this] False show ?thesis
    by (simp only: op_addmod_def overflowing_add_flag Let_def if_False if_True not_False_eq_True)
qed (simp add: op_addmod_def)

lemma op_mulmod_eq: "op_mulmod a b c = Ok (if c = 0 then 0 else of_nat ((unat a * unat b) mod unat c))"
proof -
  have "unat ((ucast a :: u512) * ucast b) = unat a * unat b" by (rule full_mul_nat) simp
  from u512_mod [OF _ this, of c] show ?thesis by (simp add: op_mulmod_def overflowing_mul_def)
qed

lemma op_byte_eq: "op_byte i v = (if unat i < 32 then ucast (u256_to_be v ! unat i) else 0)"
proof (cases "unat i < 32")
  case True
  then have "i < 32" by (simp add: word_less_nat_alt)
  moreover have "u256_to_be v ! unat i = ucast (drop_bit (8 * (31 - unat i)) v)"
    using True by (simp add: u256_to_be_def rev_nth)
  moreover have "and x 0xff = ucast (ucast x :: u8)" for x :: u256
  proof -
    have ff: "(0xff :: u256) = mask 8" by (simp add: mask_eq_exp_minus_1)
    show ?thesis
      unfolding ff by (intro bit_word_eqI) (auto simp: bit_and_iff bit_ucast_iff bit_mask_iff)
  qed
  ultimately show ?thesis using True by (simp add: op_byte_def)
next
  case False
  then have "\<not> i < 32" by (simp add: word_less_nat_alt)
  with False show ?thesis by (simp add: op_byte_def)
qed

lemma op_signextend_eq:
  assumes "unat k < 32"
  shows "op_signextend k x = signed_take_bit (8 * unat k + 7) x"
proof -
  let ?m = "mask (8 * unat k + 7) :: u256"
  have "or x (not ?m) = or (and x ?m) (not ?m)"
    by (intro bit_word_eqI) (auto simp: bit_or_iff bit_and_iff bit_not_iff)
  moreover have "op_signextend k x = (if bit x (8 * unat k + 7) then or x (not ?m) else and x ?m)"
    using assms by (simp add: op_signextend_def Let_def push_bit_of_1 mask_eq_exp_minus_1 mult.commute)
  ultimately show ?thesis by (simp add: signed_take_bit_def take_bit_eq_mask)
qed

end
