(* ===== verification/Memory_Cache.thy ===== *)
theory Memory_Cache
  imports Vm_Types
begin

text \<open>
  The cache bounded by memory use (\<open>util/memory_cache/src/lib.rs\<close>): a wrapper around the \<open>LruCache\<close> of the crate
  \<open>lru-cache\<close>, which bounds the number of entries.  The crate is not part of the repository; its operations are a
  record, and the locale \<open>lru_crate\<close> states their documented behaviour.  \<open>heap_size_of\<close>, which depends on the type
  of the values, is an argument.
\<close>

section \<open>Definitions\<close>

record ('l, 'k, 'v) lru_ops =
  lru_new :: "nat \<Rightarrow> 'l"
  lru_capacity :: "'l \<Rightarrow> nat"
  lru_len :: "'l \<Rightarrow> nat"
  lru_set_capacity :: "nat \<Rightarrow> 'l \<Rightarrow> 'l"
  lru_insert :: "'k \<Rightarrow> 'v \<Rightarrow> 'l \<Rightarrow> 'v option \<times> 'l"
  lru_get_mut :: "'k \<Rightarrow> 'l \<Rightarrow> 'v option \<times> 'l"
  lru_remove_lru :: "'l \<Rightarrow> ('k \<times> 'v) option \<times> 'l"

abbreviation INITIAL_CAPACITY :: nat where
  "INITIAL_CAPACITY \<equiv> 4"

record 'l MemoryLruCache =
  mc_inner :: 'l
  mc_cur_size :: nat
  mc_max_size :: nat

definition mc_new :: "('l, 'k, 'v) lru_ops \<Rightarrow> nat \<Rightarrow> 'l MemoryLruCache" where
  "mc_new L max_size = \<lparr>mc_inner = lru_new L INITIAL_CAPACITY, mc_cur_size = 0, mc_max_size = max_size\<rparr>"

definition mc_resize :: "(nat \<Rightarrow> nat vm_result) \<Rightarrow> ('l MemoryLruCache, unit) vm_comp" where
  "mc_resize f = and_then (gets mc_cur_size) (\<lambda>sz. and_then (lift (f sz)) (\<lambda>sz. modify (mc_cur_size_update (\<lambda>_. sz))))"

text \<open>
  The loop at the end of \<open>insert\<close>.  Every iteration removes an entry, so the number of entries bounds the number of
  iterations; \<open>evict_ok\<close> below shows that the loop ends by its condition or by its \<open>break\<close>, never by the bound.
\<close>

primrec mc_evict ::
  "('l, 'k, 'v) lru_ops \<Rightarrow> ('v \<Rightarrow> nat) \<Rightarrow> nat \<Rightarrow> ('l MemoryLruCache, unit) vm_comp" where
  "mc_evict L heap_size_of 0 = ok ()"
| "mc_evict L heap_size_of (Suc n) = and_then (gets (\<lambda>c. mc_max_size c < mc_cur_size c)) (\<lambda>over.
     if over then
       and_then (zoom mc_inner (\<lambda>l. mc_inner_update (\<lambda>_. l)) (\<lambda>l. (Ok (fst (lru_remove_lru L l)), snd (lru_remove_lru L l)))) (\<lambda>r.
       case r of
         Some (_, v) \<Rightarrow> and_then (mc_resize (\<lambda>sz. usize_sub sz (heap_size_of v))) (\<lambda>_. mc_evict L heap_size_of n)
       | None \<Rightarrow> ok ())
     else ok ())"

text \<open>\<open>insert\<close>: double the capacity when it is reached, account for the new value and for the one it replaces, evict.\<close>

definition mc_grow :: "('l, 'k, 'v) lru_ops \<Rightarrow> ('l MemoryLruCache, unit) vm_comp" where
  "mc_grow L =
     and_then (gets (\<lambda>c. lru_capacity L (mc_inner c))) (\<lambda>cap.
     and_then (gets (\<lambda>c. lru_len L (mc_inner c) = cap \<and> mc_cur_size c < mc_max_size c)) (\<lambda>grow.
     if grow
     then if cap * 2 < usize_range then modify (\<lambda>c. c\<lparr>mc_inner := lru_set_capacity L (cap * 2) (mc_inner c)\<rparr>) else panic Arith_overflow
     else ok ()))"

definition mc_insert :: "('l, 'k, 'v) lru_ops \<Rightarrow> ('v \<Rightarrow> nat) \<Rightarrow> 'k \<Rightarrow> 'v \<Rightarrow> ('l MemoryLruCache, unit) vm_comp" where
  "mc_insert L heap_size_of key v =
     and_then (mc_grow L) (\<lambda>_.
     and_then (mc_resize (\<lambda>sz. usize_add sz (heap_size_of v))) (\<lambda>_.
     and_then (zoom mc_inner (\<lambda>l. mc_inner_update (\<lambda>_. l)) (\<lambda>l. (Ok (fst (lru_insert L key v l)), snd (lru_insert L key v l)))) (\<lambda>r.
     and_then (case r of
         Some lru \<Rightarrow> mc_resize (\<lambda>sz. usize_sub sz (heap_size_of lru))
       | None \<Rightarrow> ok ()) (\<lambda>_.
     and_then (gets (\<lambda>c. lru_len L (mc_inner c))) (\<lambda>n. mc_evict L heap_size_of n)))))"

definition mc_get_mut :: "('l, 'k, 'v) lru_ops \<Rightarrow> 'k \<Rightarrow> ('l MemoryLruCache, 'v option) vm_comp" where
  "mc_get_mut L key = zoom mc_inner (\<lambda>l. mc_inner_update (\<lambda>_. l))
     (\<lambda>l. (Ok (fst (lru_get_mut L key l)), snd (lru_get_mut L key l)))"

definition mc_current_size :: "'l MemoryLruCache \<Rightarrow> nat" where
  "mc_current_size c = mc_cur_size c"

lemma wp_pair: "wp (\<lambda>l. (Ok (f l), g l)) Q R s = Q (f s) (g s)"
  by (simp add: wp_def)

lemma wp_mc_resize: "wp (mc_resize f) Q R = (\<lambda>c. case f (mc_cur_size c) of Ok n \<Rightarrow> Q () (c\<lparr>mc_cur_size := n\<rparr>)
    | Err e \<Rightarrow> R e c | Panic p \<Rightarrow> is_host p)"
  by (simp add: mc_resize_def wp_simps fun_eq_iff split: outcome.split)

section \<open>The documented behaviour of the crate\<close>

text \<open>
  \<open>ents l\<close> lists the entries of a cache from the least to the most recently used.  An insertion returns the value
  that was stored under the same key; it does not return an entry it drops because the cache is full.
\<close>

definition forget :: "'k \<Rightarrow> ('k \<times> 'v) list \<Rightarrow> ('k \<times> 'v) list" where
  "forget k es = filter (\<lambda>e. fst e \<noteq> k) es"

definition touch :: "'k \<Rightarrow> 'v \<Rightarrow> ('k \<times> 'v) list \<Rightarrow> ('k \<times> 'v) list" where
  "touch k v es = forget k es @ [(k, v)]"

definition keep_last :: "nat \<Rightarrow> 'a list \<Rightarrow> 'a list" where
  "keep_last n xs = drop (length xs - n) xs"

locale lru_crate =
  fixes L :: "('l, 'k, 'v) lru_ops" and ents :: "'l \<Rightarrow> ('k \<times> 'v) list"
  assumes new_law: "ents (lru_new L n) = []" "lru_capacity L (lru_new L n) = n"
    and len_law: "lru_len L l = length (ents l)"
    and set_capacity_law: "ents (lru_set_capacity L n l) = keep_last n (ents l)"
      "lru_capacity L (lru_set_capacity L n l) = n"
    and insert_law: "fst (lru_insert L k v l) = map_of (ents l) k"
      "ents (snd (lru_insert L k v l)) = keep_last (lru_capacity L l) (touch k v (ents l))"
      "lru_capacity L (snd (lru_insert L k v l)) = lru_capacity L l"
    and get_mut_law: "fst (lru_get_mut L k l) = map_of (ents l) k"
      "ents (snd (lru_get_mut L k l)) = (case map_of (ents l) k of None \<Rightarrow> ents l | Some v \<Rightarrow> touch k v (ents l))"
      "lru_capacity L (snd (lru_get_mut L k l)) = lru_capacity L l"
    and remove_lru_law: "fst (lru_remove_lru L l) = (case ents l of [] \<Rightarrow> None | e # _ \<Rightarrow> Some e)"
      "ents (snd (lru_remove_lru L l)) = tl (ents l)"
      "lru_capacity L (snd (lru_remove_lru L l)) = lru_capacity L l"

text \<open>
  The invariant: the recorded size is at least the memory the entries use, and at most the bound, unless the cache is
  empty.  \<open>size_bound\<close> limits the size of a single value, \<open>good\<close> is an arbitrary property of the entries.
\<close>

definition used :: "('v \<Rightarrow> nat) \<Rightarrow> ('k \<times> 'v) list \<Rightarrow> nat" where
  "used heap_size_of es = sum_list (map (heap_size_of \<circ> snd) es)"

definition mc_ok ::
  "('l, 'k, 'v) lru_ops \<Rightarrow> ('l \<Rightarrow> ('k \<times> 'v) list) \<Rightarrow> ('v \<Rightarrow> nat) \<Rightarrow> nat \<Rightarrow> ('k \<Rightarrow> 'v \<Rightarrow> bool) \<Rightarrow> 'l MemoryLruCache \<Rightarrow> bool" where
  "mc_ok L ents heap_size_of size_bound good c \<longleftrightarrow>
     used heap_size_of (ents (mc_inner c)) \<le> mc_cur_size c
     \<and> (mc_cur_size c \<le> mc_max_size c \<or> ents (mc_inner c) = [] \<and> mc_cur_size c \<le> mc_max_size c + size_bound)
     \<and> 0 < lru_capacity L (mc_inner c) \<and> mc_max_size c \<le> 2 ^ 63 \<and> size_bound < 2 ^ 62
     \<and> (\<forall>(k, v) \<in> set (ents (mc_inner c)). good k v \<and> 0 < heap_size_of v)"

lemma used_simps [simp]:
  "used hs [] = 0" "used hs (e # es) = hs (snd e) + used hs es" "used hs (es @ fs) = used hs es + used hs fs"
  by (simp_all add: used_def)

lemma used_drop_le: "used hs (drop n es) \<le> used hs es"
  by (induction es arbitrary: n) (auto simp: drop_Cons split: nat.split intro: le_add2 [THEN order_trans [rotated]])

lemma used_forget_le: "used hs (forget k es) \<le> used hs es"
  by (induction es) (auto simp: forget_def)

lemma used_forget_found: "map_of es k = Some v \<Longrightarrow> used hs (forget k es) + hs v \<le> used hs es"
  by (induction es) (auto simp: forget_def intro: add_mono used_forget_le [unfolded forget_def])

lemma used_forget_exact:
  "distinct (map fst es) \<Longrightarrow>
     used hs (forget k es) + (case map_of es k of None \<Rightarrow> 0 | Some old \<Rightarrow> hs old) = used hs es"
proof (induction es)
  case (Cons e es)
  have "forget k es = es" if "k \<notin> fst ` set es" using that by (force simp: forget_def intro: filter_True)
  moreover have "map_of es k = None" if "k \<notin> fst ` set es" using that by (simp add: map_of_eq_None_iff)
  ultimately show ?case using Cons by (cases e) (auto simp: forget_def)
qed (simp add: forget_def)

lemma length_le_used: "\<forall>(k, v) \<in> set es. 0 < hs v \<Longrightarrow> length es \<le> used hs es"
  by (induction es) (auto intro: order_trans [OF _ add_mono])

lemma used_tl: "es \<noteq> [] \<Longrightarrow> used hs (tl es) + hs (snd (hd es)) = used hs es"
  by (cases es) simp_all

lemma set_touch: "set (touch k v es) \<subseteq> insert (k, v) (set es)"
  by (auto simp: touch_def forget_def)

lemma set_keep_last: "set (keep_last n es) \<subseteq> set es"
  by (simp add: keep_last_def set_drop_subset)

lemma keep_last_snoc: "0 < n \<Longrightarrow> \<exists>es'. keep_last n (es @ [e]) = es' @ [e]"
  by (simp add: keep_last_def)

lemma map_of_forget [simp]: "map_of (forget k es) k = None"
  by (auto simp: forget_def map_of_eq_None_iff)

text \<open>What the loop does: it drops the first \<open>m\<close> entries, as few as needed, and subtracts their sizes.\<close>

definition evicted ::
  "('l, 'k, 'v) lru_ops \<Rightarrow> ('l \<Rightarrow> ('k \<times> 'v) list) \<Rightarrow> ('v \<Rightarrow> nat) \<Rightarrow> 'l MemoryLruCache \<Rightarrow> 'l MemoryLruCache \<Rightarrow> bool" where
  "evicted L ents hs c c' \<longleftrightarrow> (\<exists>m. ents (mc_inner c') = drop m (ents (mc_inner c))
     \<and> mc_cur_size c' + used hs (take m (ents (mc_inner c))) = mc_cur_size c
     \<and> m \<le> length (ents (mc_inner c)) \<and> (\<forall>j<m. mc_max_size c + used hs (take j (ents (mc_inner c))) < mc_cur_size c))
     \<and> (mc_cur_size c' \<le> mc_max_size c' \<or> ents (mc_inner c') = [])
     \<and> lru_capacity L (mc_inner c') = lru_capacity L (mc_inner c) \<and> mc_max_size c' = mc_max_size c"

text \<open>The state in which the loop of \<open>insert\<close> starts.\<close>

definition stored ::
  "('l, 'k, 'v) lru_ops \<Rightarrow> ('l \<Rightarrow> ('k \<times> 'v) list) \<Rightarrow> ('v \<Rightarrow> nat) \<Rightarrow> 'k \<Rightarrow> 'v \<Rightarrow> 'l MemoryLruCache \<Rightarrow> 'l MemoryLruCache \<Rightarrow> bool" where
  "stored L ents hs k v c c' \<longleftrightarrow> 0 < lru_capacity L (mc_inner c')
     \<and> ents (mc_inner c') = keep_last (lru_capacity L (mc_inner c')) (touch k v (ents (mc_inner c)))
     \<and> mc_cur_size c' = mc_cur_size c + hs v - (case map_of (ents (mc_inner c)) k of None \<Rightarrow> 0 | Some old \<Rightarrow> hs old)
     \<and> mc_max_size c' = mc_max_size c
     \<and> (length (ents (mc_inner c)) < lru_capacity L (mc_inner c) \<or>
         length (ents (mc_inner c)) = lru_capacity L (mc_inner c) \<and> mc_cur_size c < mc_max_size c \<longrightarrow>
         length (ents (mc_inner c)) < lru_capacity L (mc_inner c'))"

text \<open>When nothing is displaced, the account stays exact and the new value is found afterwards.\<close>

definition exact :: "('l \<Rightarrow> ('k \<times> 'v) list) \<Rightarrow> ('v \<Rightarrow> nat) \<Rightarrow> 'l MemoryLruCache \<Rightarrow> bool" where
  "exact ents hs c \<longleftrightarrow> used hs (ents (mc_inner c)) = mc_cur_size c \<and> distinct (map fst (ents (mc_inner c)))"

definition room :: "('l, 'k, 'v) lru_ops \<Rightarrow> 'l MemoryLruCache \<Rightarrow> bool" where
  "room L c \<longleftrightarrow> lru_len L (mc_inner c) < lru_capacity L (mc_inner c)
     \<or> lru_len L (mc_inner c) = lru_capacity L (mc_inner c) \<and> mc_cur_size c < mc_max_size c"

context lru_crate
begin

lemma evicted_start: "mc_cur_size c \<le> mc_max_size c \<or> ents (mc_inner c) = [] \<Longrightarrow> evicted L ents hs c c"
  by (auto simp: evicted_def intro!: exI [of _ 0])

lemma evicted_next:
  assumes "ents (mc_inner c) = e # es" "hs (snd e) \<le> mc_cur_size c" "mc_max_size c < mc_cur_size c"
    and "evicted L ents hs (c\<lparr>mc_inner := snd (lru_remove_lru L (mc_inner c)), mc_cur_size := mc_cur_size c - hs (snd e)\<rparr>) c'"
  shows "evicted L ents hs c c'"
proof -
  from assms obtain m where "ents (mc_inner c') = drop m es"
    "mc_cur_size c' + used hs (take m es) = mc_cur_size c - hs (snd e)" "m \<le> length es"
    and j: "\<And>j. j < m \<Longrightarrow> mc_max_size c + used hs (take j es) < mc_cur_size c - hs (snd e)"
    by (auto simp: evicted_def remove_lru_law)
  moreover have "mc_max_size c + used hs (take j (e # es)) < mc_cur_size c" if "j < Suc m" for j
    using that assms(3) j [of "j - 1"] by (cases j) auto
  ultimately show ?thesis
    using assms by (auto simp: evicted_def remove_lru_law intro!: exI [of _ "Suc m"])
qed

lemma evict_ok:
  assumes "used hs (ents (mc_inner c)) \<le> mc_cur_size c" "length (ents (mc_inner c)) \<le> n"
  shows "wp (mc_evict L hs n) (\<lambda>_ c'. evicted L ents hs c c') (\<lambda>_ _. False) c"
  using assms
proof (induction n arbitrary: c)
  case 0
  then show ?case by (simp add: wp_simps evicted_start)
next
  case (Suc n)
  show ?case
  proof (cases "ents (mc_inner c)")
    case Nil
    then show ?thesis
      by (auto simp: wp_simps wp_zoom remove_lru_law evicted_start wp_pair)
        (auto simp: evicted_def remove_lru_law)
  next
    case (Cons e es)
    obtain k v where e: "e = (k, v)" by (cases e)
    let ?c = "c\<lparr>mc_inner := snd (lru_remove_lru L (mc_inner c)), mc_cur_size := mc_cur_size c - hs v\<rparr>"
    have "used hs (ents (mc_inner ?c)) \<le> mc_cur_size ?c" "length (ents (mc_inner ?c)) \<le> n" and v: "hs v \<le> mc_cur_size c"
      using Suc.prems Cons e by (simp_all add: remove_lru_law)
    from Suc.IH [OF this(1,2)] have "mc_max_size c < mc_cur_size c \<Longrightarrow>
        wp (mc_evict L hs n) (\<lambda>_ c'. evicted L ents hs c c') (\<lambda>_ _. False) ?c"
      by (rule wp_mono) (use evicted_next [OF Cons] v e in auto)
    then show ?thesis
      using v Cons e by (auto simp: wp_simps wp_zoom remove_lru_law usize_sub_def evicted_start wp_mc_resize
        wp_pair)
  qed
qed

lemma stored_used:
  assumes "stored L ents hs k v c c'" "used hs (ents (mc_inner c)) \<le> mc_cur_size c"
  shows "used hs (ents (mc_inner c')) \<le> mc_cur_size c'"
proof -
  have "used hs (ents (mc_inner c')) \<le> used hs (touch k v (ents (mc_inner c)))"
    using assms(1) by (simp add: stored_def keep_last_def used_drop_le)
  also have "\<dots> = used hs (forget k (ents (mc_inner c))) + hs v" by (simp add: touch_def)
  also have "\<dots> \<le> mc_cur_size c'"
    using assms used_forget_le [of hs k "ents (mc_inner c)"] used_forget_found [of "ents (mc_inner c)" k _ hs]
    by (fastforce simp: stored_def split: option.splits)
  finally show ?thesis .
qed

lemma evicted_mc_ok:
  assumes c: "mc_ok L ents hs B good c" and st: "stored L ents hs k v c c1" and ev: "evicted L ents hs c1 c'"
    and v: "good k v" "0 < hs v" "hs v \<le> B"
  shows "mc_ok L ents hs B good c'"
proof -
  let ?es = "ents (mc_inner c1)"
  from ev obtain m where m: "ents (mc_inner c') = drop m ?es" "mc_cur_size c' + used hs (take m ?es) = mc_cur_size c1"
    "mc_cur_size c' \<le> mc_max_size c' \<or> ents (mc_inner c') = []" unfolding evicted_def by blast
  have parts: "used hs (take m ?es) + used hs (drop m ?es) = used hs ?es"
    by (simp only: used_simps(3) [symmetric] append_take_drop_id)
  have "used hs ?es \<le> mc_cur_size c1" using c by (intro stored_used [OF st]) (simp add: mc_ok_def)
  with parts m(1,2) have u: "used hs (ents (mc_inner c')) \<le> mc_cur_size c'" by simp
  have sub: "set ?es \<subseteq> insert (k, v) (set (ents (mc_inner c)))"
    using set_touch [of k v "ents (mc_inner c)"] st
      set_keep_last [of "lru_capacity L (mc_inner c1)" "touch k v (ents (mc_inner c))"] by (auto simp: stored_def)
  obtain es' where "?es = es' @ [(k, v)]"
    using st keep_last_snoc [of "lru_capacity L (mc_inner c1)" "forget k (ents (mc_inner c))" "(k, v)"]
    by (auto simp: stored_def touch_def)
  then have last: "hs v \<le> used hs ?es" by simp
  have "mc_cur_size c1 \<le> mc_cur_size c + hs v" "mc_max_size c' = mc_max_size c" using st ev by (auto simp: stored_def evicted_def)
  moreover have "mc_cur_size c \<le> mc_max_size c + B" using c by (auto simp: mc_ok_def)
  ultimately have "mc_cur_size c' \<le> mc_max_size c' + B" if "ents (mc_inner c') = []"
    using that m(1,2) parts last by simp
  moreover have "\<forall>(k, v) \<in> set (ents (mc_inner c')). good k v \<and> 0 < hs v"
  proof (rule ballI)
    fix x assume "x \<in> set (ents (mc_inner c'))"
    then have "x = (k, v) \<or> x \<in> set (ents (mc_inner c))" using m(1) set_drop_subset [of m ?es] sub by auto
    with c v(1,2) show "case x of (k, v) \<Rightarrow> good k v \<and> 0 < hs v" by (auto simp: mc_ok_def)
  qed
  ultimately show ?thesis
    using u m(3) c st ev by (simp add: mc_ok_def evicted_def stored_def) blast
qed

lemma grow_ok:
  assumes "mc_ok L ents hs B good c"
    and "\<And>l. ents l = ents (mc_inner c) \<Longrightarrow> 0 < lru_capacity L l \<Longrightarrow>
      lru_capacity L l = (if lru_len L (mc_inner c) = lru_capacity L (mc_inner c) \<and> mc_cur_size c < mc_max_size c
        then lru_capacity L (mc_inner c) * 2 else lru_capacity L (mc_inner c)) \<Longrightarrow> Q () (c\<lparr>mc_inner := l\<rparr>)"
  shows "wp (mc_grow L) Q R c"
proof -
  let ?l = "mc_inner c"
  have "length (ents ?l) \<le> used hs (ents ?l)" using assms(1) by (intro length_le_used) (auto simp: mc_ok_def)
  then have fits: "lru_capacity L ?l * 2 < usize_range" if "lru_len L ?l = lru_capacity L ?l \<and> mc_cur_size c < mc_max_size c"
    using assms(1) that by (auto simp: mc_ok_def len_law)
  show ?thesis
    using fits assms(1) assms(2) [of ?l] assms(2) [of "lru_set_capacity L (lru_capacity L ?l * 2) ?l"]
    by (auto simp: mc_grow_def wp_simps set_capacity_law keep_last_def len_law mc_ok_def)
qed

lemma insert_stored:
  assumes c: "mc_ok L ents hs B good c" and v: "hs v \<le> B"
    and Q: "\<And>c1. stored L ents hs k v c c1 \<Longrightarrow> wp (mc_evict L hs (lru_len L (mc_inner c1))) Q R c1"
  shows "wp (mc_insert L hs k v) Q R c"
  unfolding mc_insert_def wp_and_then
proof (rule grow_ok [OF c])
  fix l assume l: "ents l = ents (mc_inner c)" "0 < lru_capacity L l"
    "lru_capacity L l = (if lru_len L (mc_inner c) = lru_capacity L (mc_inner c) \<and> mc_cur_size c < mc_max_size c
        then lru_capacity L (mc_inner c) * 2 else lru_capacity L (mc_inner c))"
  have sum: "usize_add (mc_cur_size c) (hs v) = (Ok (mc_cur_size c + hs v) :: nat vm_result)"
    using c v by (auto simp: usize_add_def mc_ok_def)
  have old: "usize_sub (mc_cur_size c + hs v) (hs old) = (Ok (mc_cur_size c + hs v - hs old) :: nat vm_result)"
    if "map_of (ents (mc_inner c)) k = Some old" for old
    using used_forget_found [OF that, of hs] c by (auto simp: usize_sub_def mc_ok_def)
  have st: "wp (mc_evict L hs n) Q R c1" if "mc_inner c1 = snd (lru_insert L k v l)" "n = lru_len L (mc_inner c1)"
    "mc_max_size c1 = mc_max_size c"
    "mc_cur_size c1 = mc_cur_size c + hs v - (case map_of (ents (mc_inner c)) k of None \<Rightarrow> 0 | Some old \<Rightarrow> hs old)" for c1 n
  proof -
    have "stored L ents hs k v c c1" using that l c by (auto simp: stored_def insert_law len_law mc_ok_def)
    with Q that(2) show ?thesis by simp
  qed
  show "wp (mc_resize (\<lambda>sz. usize_add sz (hs v)))
     (\<lambda>_. wp (zoom mc_inner (\<lambda>l. mc_inner_update (\<lambda>_. l)) (\<lambda>l. (Ok (fst (lru_insert L k v l)), snd (lru_insert L k v l))))
       (\<lambda>r. wp (case r of None \<Rightarrow> ok () | Some lru \<Rightarrow> mc_resize (\<lambda>sz. usize_sub sz (hs lru)))
         (\<lambda>_. wp (gets (\<lambda>c. lru_len L (mc_inner c))) (\<lambda>n. wp (mc_evict L hs n) Q R) R) R) R) R (c\<lparr>mc_inner := l\<rparr>)"
    using sum old l(1) by (auto simp: wp_mc_resize wp_simps wp_zoom wp_pair insert_law split: option.split intro!: st)
qed

lemma insert_ok:
  assumes c: "mc_ok L ents hs B good c" and v: "good k v" "0 < hs v" "hs v \<le> B"
  shows "wp (mc_insert L hs k v) (\<lambda>_ c'. mc_ok L ents hs B good c') (\<lambda>_ _. False) c"
proof (rule insert_stored [OF c v(3)])
  fix c1 assume st: "stored L ents hs k v c c1"
  have "used hs (ents (mc_inner c1)) \<le> mc_cur_size c1" using c by (intro stored_used [OF st]) (simp add: mc_ok_def)
  then have "wp (mc_evict L hs (lru_len L (mc_inner c1))) (\<lambda>_ c'. evicted L ents hs c1 c') (\<lambda>_ _. False) c1"
    by (rule evict_ok) (simp add: len_law)
  then show "wp (mc_evict L hs (lru_len L (mc_inner c1))) (\<lambda>_ c'. mc_ok L ents hs B good c') (\<lambda>_ _. False) c1"
    by (rule wp_mono) (erule evicted_mc_ok [OF c st _ v], assumption)
qed

lemma stored_exact:
  assumes "stored L ents hs k v c c1" "exact ents hs c" "room L c"
  shows "exact ents hs c1 \<and> (\<exists>es. ents (mc_inner c1) = es @ [(k, v)] \<and> k \<notin> fst ` set es)"
proof -
  let ?es = "ents (mc_inner c)"
  have "length (forget k ?es) \<le> length ?es" by (simp add: forget_def)
  then have "length (touch k v ?es) \<le> lru_capacity L (mc_inner c1)"
    using assms(1,3) by (auto simp: stored_def room_def len_law touch_def)
  then have es: "ents (mc_inner c1) = touch k v ?es" using assms(1) by (simp add: stored_def keep_last_def)
  have "distinct (map fst (forget k ?es))" "k \<notin> fst ` set (forget k ?es)"
    using assms(2) by (auto simp: forget_def exact_def distinct_map_filter)
  moreover have "used hs (forget k ?es) + (case map_of ?es k of None \<Rightarrow> 0 | Some old \<Rightarrow> hs old) = used hs ?es"
    using assms(2) by (intro used_forget_exact) (simp add: exact_def)
  ultimately show ?thesis
    using es assms(1,2) by (auto simp: touch_def exact_def stored_def)
qed

lemma evicted_exact:
  assumes "exact ents hs c1" "ents (mc_inner c1) = es @ [(k, v)]" "k \<notin> fst ` set es" "hs v \<le> mc_max_size c1" "evicted L ents hs c1 c'"
  shows "exact ents hs c' \<and> map_of (ents (mc_inner c')) k = Some v"
proof -
  let ?es = "ents (mc_inner c1)"
  from assms(5) obtain m where m: "ents (mc_inner c') = drop m ?es" "mc_cur_size c' + used hs (take m ?es) = mc_cur_size c1"
    "m \<le> length ?es" "\<And>j. j < m \<Longrightarrow> mc_max_size c1 + used hs (take j ?es) < mc_cur_size c1" unfolding evicted_def by blast
  have "used hs (take m ?es) + used hs (drop m ?es) = used hs ?es"
    by (simp only: used_simps(3) [symmetric] append_take_drop_id)
  with m assms(1) have "exact ents hs c'" by (auto simp: exact_def distinct_drop drop_map [symmetric])
  moreover have "m \<le> length es"
  proof (rule ccontr)
    assume "\<not> m \<le> length es"
    then have "mc_max_size c1 + used hs (take (length es) ?es) < mc_cur_size c1" by (intro m(4)) simp
    with assms(1,2,4) show False by (simp add: exact_def)
  qed
  then have "ents (mc_inner c') = drop m es @ [(k, v)]" using m(1) assms(2) by simp
  moreover have "map_of (drop m es) k = None"
    using assms(3) set_drop_subset [of m es] by (auto simp: map_of_eq_None_iff)
  ultimately show ?thesis by (simp add: map_add_def)
qed

lemma insert_exact:
  assumes c: "mc_ok L ents hs B good c" "exact ents hs c" "room L c" and v: "hs v \<le> B" "hs v \<le> mc_max_size c"
  shows "wp (mc_insert L hs k v) (\<lambda>_ c'. exact ents hs c' \<and> map_of (ents (mc_inner c')) k = Some v) (\<lambda>_ _. False) c"
proof (rule insert_stored [OF c(1) v(1)])
  fix c1 assume st: "stored L ents hs k v c c1"
  from stored_exact [OF st c(2,3)] obtain es where es: "exact ents hs c1" "ents (mc_inner c1) = es @ [(k, v)]" "k \<notin> fst ` set es"
    by blast
  have fits: "hs v \<le> mc_max_size c1" using st v(2) by (simp add: stored_def)
  have "wp (mc_evict L hs (lru_len L (mc_inner c1))) (\<lambda>_ c'. evicted L ents hs c1 c') (\<lambda>_ _. False) c1"
    using es(1) by (intro evict_ok) (simp_all add: exact_def len_law)
  then show "wp (mc_evict L hs (lru_len L (mc_inner c1)))
      (\<lambda>_ c'. exact ents hs c' \<and> map_of (ents (mc_inner c')) k = Some v) (\<lambda>_ _. False) c1"
    by (rule wp_mono) (rule evicted_exact [OF es fits], assumption+)
qed

lemma get_mut_ok:
  assumes c: "mc_ok L ents hs B good c"
  shows "wp (mc_get_mut L k) (\<lambda>r c'. mc_ok L ents hs B good c' \<and> r = map_of (ents (mc_inner c)) k
    \<and> mc_cur_size c' = mc_cur_size c) (\<lambda>_ _. False) c"
proof (cases "map_of (ents (mc_inner c)) k")
  case None
  then show ?thesis using c by (simp add: mc_get_mut_def wp_zoom wp_pair get_mut_law mc_ok_def)
next
  case (Some v)
  let ?es = "ents (mc_inner c)"
  have "used hs (touch k v ?es) \<le> used hs ?es" "set (touch k v ?es) \<subseteq> set ?es" "?es \<noteq> []"
    using used_forget_found [OF Some, of hs] set_touch [of k v ?es] map_of_SomeD [OF Some] by (auto simp: touch_def)
  moreover have "used hs ?es \<le> mc_cur_size c" "\<forall>(k, v) \<in> set ?es. good k v \<and> 0 < hs v"
    using c by (simp_all add: mc_ok_def)
  ultimately have "used hs (touch k v ?es) \<le> mc_cur_size c" "\<forall>(k, v) \<in> set (touch k v ?es). good k v \<and> 0 < hs v"
    by (auto dest: subsetD)
  with Some c \<open>?es \<noteq> []\<close> show ?thesis
    by (simp add: mc_get_mut_def wp_zoom wp_pair get_mut_law mc_ok_def)
qed

lemma new_ok: "max_size \<le> 2 ^ 63 \<Longrightarrow> B < 2 ^ 62 \<Longrightarrow> mc_ok L ents hs B good (mc_new L max_size)"
  by (simp add: mc_ok_def mc_new_def new_law)

end

section \<open>An instance\<close>

text \<open>A cache that behaves as the crate documents: an association list with a capacity.\<close>

record ('k, 'v) ListLru =
  ll_capacity :: nat
  ll_entries :: "('k \<times> 'v) list"

definition list_lru :: "(('k, 'v) ListLru, 'k, 'v) lru_ops" where
  "list_lru = \<lparr>lru_new = (\<lambda>n. \<lparr>ll_capacity = n, ll_entries = []\<rparr>), lru_capacity = ll_capacity,
     lru_len = (\<lambda>l. length (ll_entries l)),
     lru_set_capacity = (\<lambda>n l. \<lparr>ll_capacity = n, ll_entries = keep_last n (ll_entries l)\<rparr>),
     lru_insert = (\<lambda>k v l. (map_of (ll_entries l) k, l\<lparr>ll_entries := keep_last (ll_capacity l) (touch k v (ll_entries l))\<rparr>)),
     lru_get_mut = (\<lambda>k l. (map_of (ll_entries l) k, case map_of (ll_entries l) k of
       None \<Rightarrow> l | Some v \<Rightarrow> l\<lparr>ll_entries := touch k v (ll_entries l)\<rparr>)),
     lru_remove_lru = (\<lambda>l. (case ll_entries l of [] \<Rightarrow> None | e # _ \<Rightarrow> Some e, l\<lparr>ll_entries := tl (ll_entries l)\<rparr>))\<rparr>"

interpretation list_crate: lru_crate list_lru ll_entries
  by unfold_locales (simp_all add: list_lru_def split: option.split)

section \<open>Properties\<close>

lemma evict_no_host: "fst (mc_evict L hs n c) \<noteq> Panic (Host x)"
  by (induction n arbitrary: c) (auto simp: comp_defs mc_resize_def usize_sub_def split: option.split)

lemma insert_no_host: "fst (mc_insert L hs k v c) \<noteq> Panic (Host x)"
  using evict_no_host [of L hs]
  by (auto simp: mc_insert_def mc_grow_def comp_defs mc_resize_def usize_sub_def usize_add_def split: option.split)

lemma insert_returns:
  assumes "wp (mc_insert L hs k v) Q (\<lambda>_ _. False) c"
  shows "\<exists>c'. mc_insert L hs k v c = (Ok (), c') \<and> Q () c'"
proof (cases "mc_insert L hs k v c")
  case (Pair r c')
  then show ?thesis
    using assms insert_no_host [of L hs k v c] by (cases r) (auto simp: wp_def elim: is_host.elims)
qed

text \<open>
  C20: The memory cache keeps to its budget.  From a state satisfying the invariant, inserting a value neither overflows
  nor underflows the recorded size, and afterwards the values held use at most \<open>max_size\<close> bytes.  The hypotheses on the
  LRU crate are its documented behaviour.
\<close>

theorem mc_insert_within_budget:
  assumes "lru_crate L ents" "mc_ok L ents heap_size_of B good c"
    and "good k v" "0 < heap_size_of v" "heap_size_of v \<le> B"
  shows "\<exists>c'. mc_insert L heap_size_of k v c = (Ok (), c') \<and> mc_ok L ents heap_size_of B good c'
    \<and> used heap_size_of (ents (mc_inner c')) \<le> mc_max_size c'"
proof -
  have "used heap_size_of (ents (mc_inner c')) \<le> mc_max_size c'" if "mc_ok L ents heap_size_of B good c'" for c'
    using that by (auto simp: mc_ok_def)
  then show ?thesis
    using insert_returns [OF lru_crate.insert_ok [OF assms]] by blast
qed

theorem mc_insert_within_budget_witness:
  "\<exists>c'. mc_insert list_lru (\<lambda>v. v) ''hello'' (100 :: nat) (mc_new list_lru 256) = (Ok (), c')
    \<and> mc_ok list_lru ll_entries (\<lambda>v. v) 1000 (\<lambda>_ _. True) c' \<and> used (\<lambda>v. v) (ll_entries (mc_inner c')) \<le> mc_max_size c'"
  by (rule mc_insert_within_budget [OF list_crate.lru_crate_axioms list_crate.new_ok]) simp_all

text \<open>
  C21: A value inserted while nothing has to be displaced by the bound on the number of entries is found by the next
  lookup, provided it fits in the cache at all, and the recorded size stays exact.
\<close>

theorem mc_get_after_insert:
  assumes "lru_crate L ents" "mc_ok L ents heap_size_of B good c" "exact ents heap_size_of c" "room L c"
    and "heap_size_of v \<le> B" "heap_size_of v \<le> mc_max_size c" "mc_insert L heap_size_of k v c = (r, c')"
  shows "fst (mc_get_mut L k c') = Ok (Some v) \<and> exact ents heap_size_of c'"
proof -
  from insert_returns [OF lru_crate.insert_exact [OF assms(1-6), of k]] assms(7)
  have "exact ents heap_size_of c'" "map_of (ents (mc_inner c')) k = Some v" by auto
  then show ?thesis
    by (simp add: mc_get_mut_def zoom_def lru_crate.get_mut_law [OF assms(1)])
qed

theorem mc_get_after_insert_witness:
  "fst (mc_get_mut list_lru ''hello'' (snd (mc_insert list_lru (\<lambda>v. v) ''hello'' (100 :: nat) (mc_new list_lru 256))))
     = Ok (Some 100)"
  using mc_get_after_insert [OF list_crate.lru_crate_axioms list_crate.new_ok [of 256 1000 "\<lambda>v. v" "\<lambda>_ _. True"],
      of 100 "''hello''" "fst (mc_insert list_lru (\<lambda>v. v) ''hello'' 100 (mc_new list_lru 256))"
        "snd (mc_insert list_lru (\<lambda>v. v) ''hello'' 100 (mc_new list_lru 256))"]
  by (simp add: exact_def room_def mc_new_def list_crate.new_law list_lru_def)


end
