(* ===== verification/Shared_Cache.thy ===== *)
theory Shared_Cache
  imports Instructions Memory_Cache
begin

text \<open>
  Jump destinations and the cache the interpreters share (\<open>ethcore/evm/src/interpreter/shared_cache.rs\<close>).
  A \<open>BitSet\<close> is the set of its members.  The interpreter uses the cache behind the mutex through two operations; they
  are a dictionary here, the locale \<open>jump_cache\<close> states what the interpreter relies on, and \<open>shared_ops\<close> is the
  dictionary of the memory-bounded cache of the code.
\<close>

section \<open>Definitions\<close>

datatype Bits = Bits (bits_set: "nat set")

record 'c cache_ops =
  cache_get_mut :: "h256 \<Rightarrow> ('c, Bits option) vm_comp"
  cache_insert :: "h256 \<Rightarrow> Bits \<Rightarrow> ('c, unit) vm_comp"

abbreviation DEFAULT_CACHE_SIZE :: nat where
  "DEFAULT_CACHE_SIZE \<equiv> 4 * 1024 * 1024"

text \<open>The loop of \<open>find_jump_destinations\<close>.\<close>

function find_jump_loop :: "bytes \<Rightarrow> nat \<Rightarrow> nat set \<Rightarrow> nat set vm_result" where
  "find_jump_loop code position jump_dests =
     (if position < length code then
        let instruction = code ! position in
        if instruction = JUMPDEST then find_jump_loop code (position + 1) (insert position jump_dests)
        else if is_push instruction then
          ok_then (get_push_bytes instruction) (\<lambda>n. find_jump_loop code (position + n + 1) jump_dests)
        else find_jump_loop code (position + 1) jump_dests
      else Ok jump_dests)"
  by pat_completeness auto
termination by (relation "measure (\<lambda>(code, position, _). length code - position)") auto

declare find_jump_loop.simps [simp del]

definition find_jump_destinations :: "bytes \<Rightarrow> nat set vm_result" where
  "find_jump_destinations code = find_jump_loop code 0 {}"

definition jump_destinations :: "'c cache_ops \<Rightarrow> h256 \<Rightarrow> bytes \<Rightarrow> ('c, nat set) vm_comp" where
  "jump_destinations K code_hash code =
     (if code_hash = KECCAK_EMPTY then lift (find_jump_destinations code)
      else and_then (cache_get_mut K code_hash) (\<lambda>r. case r of
        Some d \<Rightarrow> ok (bits_set d)
      | None \<Rightarrow> and_then (lift (find_jump_destinations code)) (\<lambda>d.
          and_then (cache_insert K code_hash (Bits d)) (\<lambda>_. ok d))))"

text \<open>
  The heap size of a cached bit set: the pointer, plus eight per bit of capacity.  The capacity which the crate \<open>bit-set\<close>
  reports for a set that has been shrunk to fit its members is the argument \<open>bits_capacity\<close>.
\<close>

definition bits_heap_size :: "(nat set \<Rightarrow> nat) \<Rightarrow> Bits \<Rightarrow> nat" where
  "bits_heap_size bits_capacity b = 8 + bits_capacity (bits_set b) * 8"

definition shared_ops :: "('l, h256, Bits) lru_ops \<Rightarrow> (nat set \<Rightarrow> nat) \<Rightarrow> 'l MemoryLruCache cache_ops" where
  "shared_ops L bits_capacity = \<lparr>cache_get_mut = mc_get_mut L, cache_insert = mc_insert L (bits_heap_size bits_capacity)\<rparr>"

definition shared_cache_new :: "('l, h256, Bits) lru_ops \<Rightarrow> nat \<Rightarrow> 'l MemoryLruCache" where
  "shared_cache_new L max_size = mc_new L max_size"

definition shared_cache_default :: "('l, h256, Bits) lru_ops \<Rightarrow> 'l MemoryLruCache" where
  "shared_cache_default L = shared_cache_new L DEFAULT_CACHE_SIZE"

section \<open>Instruction boundaries\<close>

text \<open>
  The positions at which an instruction starts when the code is read from its beginning, one instruction
  after the other, skipping the data of pushes.
\<close>

definition instruction_length :: "instruction \<Rightarrow> nat" where
  "instruction_length i = (if is_push i then unat (i - PUSH1 + 1) + 1 else 1)"

inductive boundary :: "bytes \<Rightarrow> nat \<Rightarrow> bool" for code where
  boundary_start: "boundary code 0"
| boundary_next: "boundary code p \<Longrightarrow> p < length code \<Longrightarrow> boundary code (p + instruction_length (code ! p))"

text \<open>The jump destinations of a contract: the \<open>JUMPDEST\<close> instructions at a boundary.\<close>

definition valid_destinations :: "bytes \<Rightarrow> nat set" where
  "valid_destinations code = {p. boundary code p \<and> p < length code \<and> code ! p = JUMPDEST}"

lemma instruction_length_pos: "0 < instruction_length i"
  by (simp add: instruction_length_def)

text \<open>Boundaries from \<open>position\<close> on; the loop visits exactly these.\<close>

inductive boundary_from :: "bytes \<Rightarrow> nat \<Rightarrow> nat \<Rightarrow> bool" for code where
  from_start: "boundary_from code q q"
| from_step: "q < length code \<Longrightarrow> boundary_from code (q + instruction_length (code ! q)) p \<Longrightarrow> boundary_from code q p"

inductive_cases boundary_from_elim: "boundary_from code q p"

lemma boundary_from_snoc:
  "boundary_from code q p \<Longrightarrow> p < length code \<Longrightarrow> boundary_from code q (p + instruction_length (code ! p))"
  by (induction rule: boundary_from.induct) (auto intro: boundary_from.intros)

lemma boundary_iff: "boundary code p \<longleftrightarrow> boundary_from code 0 p"
proof
  show "boundary code p \<Longrightarrow> boundary_from code 0 p"
    by (induction rule: boundary.induct) (auto intro: from_start boundary_from_snoc)
  have "boundary_from code q p \<Longrightarrow> boundary code q \<Longrightarrow> boundary code p" for q
    by (induction rule: boundary_from.induct) (auto intro: boundary.intros)
  then show "boundary_from code 0 p \<Longrightarrow> boundary code p" by (simp add: boundary_start)
qed

lemma boundary_from_end: "boundary_from code q p \<Longrightarrow> length code \<le> q \<Longrightarrow> p = q"
  by (auto elim: boundary_from_elim)

lemma find_jump_loop_eq:
  "find_jump_loop code q acc = Ok (acc \<union> {p. boundary_from code q p \<and> p < length code \<and> code ! p = JUMPDEST})"
proof (induction code q acc rule: find_jump_loop.induct)
  case (1 code q acc)
  let ?S = "\<lambda>q. {p. boundary_from code q p \<and> p < length code \<and> code ! p = JUMPDEST}"
  show ?case
  proof (cases "q < length code")
    case True
    let ?i = "code ! q"
    have S: "?S q = (if ?i = JUMPDEST then {q} else {}) \<union> ?S (q + instruction_length ?i)"
      using True by (auto intro: boundary_from.intros elim: boundary_from_elim)
    show ?thesis
    proof (cases "is_push ?i")
      case push: True
      then have "?i \<noteq> JUMPDEST" by (auto simp: is_push_def)
      with push True 1(2) [OF True refl] S show ?thesis
        by (subst find_jump_loop.simps) (simp add: get_push_bytes_def instruction_length_def add.assoc)
    next
      case False
      with True 1(1) [OF True refl] 1(3) [OF True refl] S show ?thesis
        by (subst find_jump_loop.simps) (simp add: instruction_length_def)
    qed
  next
    case False
    then have "?S q = {}" using boundary_from_end by fastforce
    with False show ?thesis by (subst find_jump_loop.simps) (simp only: if_False Un_empty_right)
  qed
qed

lemma find_jump_destinations_eq: "find_jump_destinations code = Ok (valid_destinations code)"
  by (simp add: find_jump_destinations_def find_jump_loop_eq valid_destinations_def boundary_iff)

section \<open>The contract of the cache\<close>

text \<open>
  \<open>cinv\<close> holds of a cache in which the set stored under a code hash is the set of jump destinations of
  the code \<open>code_of\<close> assigns to this hash.  Lookups and insertions of such sets keep it.
\<close>

locale jump_cache =
  fixes K :: "'c cache_ops" and code_of :: "h256 \<Rightarrow> bytes" and cinv :: "'c \<Rightarrow> bool"
  assumes get_mut_law: "cinv c \<Longrightarrow> wp (cache_get_mut K h)
      (\<lambda>r c'. cinv c' \<and> (\<forall>d. r = Some d \<longrightarrow> bits_set d = valid_destinations (code_of h))) (\<lambda>_ _. False) c"
    and insert_law: "cinv c \<Longrightarrow>
      wp (cache_insert K h (Bits (valid_destinations (code_of h))))
        (\<lambda>_ c'. cinv c') (\<lambda>_ _. False) c"
begin

lemma jump_destinations_correct:
  assumes "cinv c" "h \<noteq> KECCAK_EMPTY \<Longrightarrow> code_of h = code"
  shows "wp (jump_destinations K h code) (\<lambda>d c'. cinv c' \<and> d = valid_destinations code) (\<lambda>_ _. False) c"
proof (cases "h = KECCAK_EMPTY")
  case True
  then show ?thesis using assms(1) by (simp add: jump_destinations_def find_jump_destinations_eq wp_lift)
next
  case False
  show ?thesis
    using False get_mut_law [OF assms(1), of h] assms(2) [OF False]
    by (auto simp: jump_destinations_def find_jump_destinations_eq wp_and_then wp_lift wp_ok elim!: wp_mono
      intro: insert_law split: option.split)
qed

end

section \<open>The memory-bounded cache satisfies it\<close>

text \<open>
  The cache relies on contract code being shorter than \<open>2 ^ 32\<close> bytes, and on bit sets not being much larger than asked
  for.
\<close>

definition jump_cache_ok ::
  "('l, h256, Bits) lru_ops \<Rightarrow> ('l \<Rightarrow> (h256 \<times> Bits) list) \<Rightarrow> (nat set \<Rightarrow> nat) \<Rightarrow> (h256 \<Rightarrow> bytes) \<Rightarrow> 'l MemoryLruCache \<Rightarrow> bool" where
  "jump_cache_ok L ents bits_capacity code_of =
     mc_ok L ents (bits_heap_size bits_capacity) (2 ^ 44) (\<lambda>h b. bits_set b = valid_destinations (code_of h))"

locale jump_lru = lru_crate L ents
  for L :: "('l, h256, Bits) lru_ops" and ents :: "'l \<Rightarrow> (h256 \<times> Bits) list" +
  fixes bits_capacity :: "nat set \<Rightarrow> nat" and code_of :: "h256 \<Rightarrow> bytes"
  assumes capacity_bound: "d \<subseteq> {..<2 ^ 32} \<Longrightarrow> bits_capacity d < 2 ^ 40"
    and code_bound: "length (code_of h) < 2 ^ 32"
begin

lemma shared_get_mut:
  assumes "jump_cache_ok L ents bits_capacity code_of c"
  shows "wp (mc_get_mut L h) (\<lambda>r c'. jump_cache_ok L ents bits_capacity code_of c'
    \<and> (\<forall>d. r = Some d \<longrightarrow> bits_set d = valid_destinations (code_of h))) (\<lambda>_ _. False) c"
proof -
  have d: "bits_set d = valid_destinations (code_of h)" if "map_of (ents (mc_inner c)) h = Some d" for d
    using assms map_of_SomeD [OF that] by (auto simp: jump_cache_ok_def mc_ok_def)
  from get_mut_ok [OF assms [unfolded jump_cache_ok_def], of h] show ?thesis
    unfolding jump_cache_ok_def by (rule wp_mono) (use d in auto)
qed

end

sublocale jump_lru \<subseteq> jump_cache "shared_ops L bits_capacity" code_of "jump_cache_ok L ents bits_capacity code_of"
proof unfold_locales
  fix c h assume c: "jump_cache_ok L ents bits_capacity code_of c"
  show "wp (cache_get_mut (shared_ops L bits_capacity) h) (\<lambda>r c'. jump_cache_ok L ents bits_capacity code_of c'
      \<and> (\<forall>d. r = Some d \<longrightarrow> bits_set d = valid_destinations (code_of h))) (\<lambda>_ _. False) c"
    using shared_get_mut [OF c] by (simp add: shared_ops_def)
  have "bits_capacity (valid_destinations (code_of h)) < 2 ^ 40"
    using code_bound [of h] by (intro capacity_bound) (auto simp: valid_destinations_def)
  then show "wp (cache_insert (shared_ops L bits_capacity) h
      (Bits (valid_destinations (code_of h))))
      (\<lambda>_ c'. jump_cache_ok L ents bits_capacity code_of c') (\<lambda>_ _. False) c"
    using insert_ok [OF c [unfolded jump_cache_ok_def], where k = h
      and v = "Bits (valid_destinations (code_of h))"]
    by (simp add: shared_ops_def jump_cache_ok_def bits_heap_size_def)
qed

context jump_lru
begin

lemma is_jump_cache: "jump_cache (shared_ops L bits_capacity) code_of (jump_cache_ok L ents bits_capacity code_of)"
  by unfold_locales

end

text \<open>
  An instance: the list cache of the crate's documentation, bit sets in blocks of 32 bits, and any assignment of hashes to
  one short program.
\<close>

definition bitvec_capacity :: "nat set \<Rightarrow> nat" where
  "bitvec_capacity d = (if d = {} then 0 else (Max d div 32 + 1) * 32)"

lemma bitvec_capacity_bound: "d \<subseteq> {..<2 ^ 32} \<Longrightarrow> bitvec_capacity d < 2 ^ 40"
proof (cases "d = {}")
  case False
  assume d: "d \<subseteq> {..<2 ^ 32}"
  then have "finite d" by (rule finite_subset) simp
  with False d have "Max d < 2 ^ 32" using Max_in by blast
  with False show ?thesis by (simp add: bitvec_capacity_def)
qed (simp add: bitvec_capacity_def)

definition sample_code :: bytes where
  "sample_code = [PUSH1, 3, JUMP, JUMPDEST, STOP]"

interpretation sample_cache: jump_lru list_lru ll_entries bitvec_capacity "\<lambda>_. sample_code"
  by unfold_locales (simp_all add: bitvec_capacity_bound [simplified] sample_code_def)

end
