(* ===== verification/Interpreter.thy ===== *)
theory Interpreter
  imports Gasometer Evm_Memory Evm_Arith Shared_Cache
begin

text \<open>
  The interpreter (\<open>ethcore/evm/src/interpreter/mod.rs\<close>): the stack instructions, the effect of every instruction, one iteration of the execution loop, and the loop.  The hash function
  \<open>keccak\<close> is a parameter.  Debug output (\<open>evm_debug!\<close>, the informant) is left out.
\<close>

section \<open>Stack instructions\<close>

definition pop1 :: "(u256 \<Rightarrow> u256) \<Rightarrow> (u256 VecStack, unit) vm_comp" where
  "pop1 f = and_then pop_back (\<lambda>a. push (f a))"

definition pop2 :: "(u256 \<Rightarrow> u256 \<Rightarrow> u256) \<Rightarrow> (u256 VecStack, unit) vm_comp" where
  "pop2 f = and_then pop_back (\<lambda>a. and_then pop_back (\<lambda>b. push (f a b)))"

definition pop3 :: "(u256 \<Rightarrow> u256 \<Rightarrow> u256 \<Rightarrow> u256 vm_result) \<Rightarrow> (u256 VecStack, unit) vm_comp" where
  "pop3 f = and_then pop_back (\<lambda>a. and_then pop_back (\<lambda>b. and_then pop_back (\<lambda>c.
     and_then (lift (f a b c)) push)))"

definition exec_stack_instruction :: "instruction \<Rightarrow> (u256 VecStack, unit) vm_comp" where
  "exec_stack_instruction i =
     (if DUP1 \<le> i \<and> i \<le> DUP16 then
        and_then (lift (get_dup_position i)) (\<lambda>position.
        and_then (\<lambda>st. (peek st position, st)) push)
      else if SWAP1 \<le> i \<and> i \<le> SWAP16 then and_then (lift (get_swap_position i)) swap_with_top
      else if i = POP then and_then pop_back (\<lambda>_. ok ())
      else if i = ADD then pop2 (\<lambda>a b. fst (overflowing_add a b))
      else if i = MUL then pop2 (\<lambda>a b. fst (overflowing_mul a b))
      else if i = SUB then pop2 (\<lambda>a b. a - b)
      else if i = DIV then pop2 op_div
      else if i = MOD then pop2 op_mod
      else if i = SDIV then pop2 op_sdiv
      else if i = SMOD then pop2 op_smod
      else if i = EXP then pop2 op_exp
      else if i = NOT then pop1 (\<lambda>a. not a)
      else if i = LT then pop2 (\<lambda>a b. bool_to_u256 (a < b))
      else if i = SLT then pop2 op_slt
      else if i = GT then pop2 (\<lambda>a b. bool_to_u256 (a > b))
      else if i = SGT then pop2 op_sgt
      else if i = EQ then pop2 (\<lambda>a b. bool_to_u256 (a = b))
      else if i = ISZERO then pop1 (\<lambda>a. bool_to_u256 (a = 0))
      else if i = AND then pop2 (\<lambda>a b. and a b)
      else if i = OR then pop2 (\<lambda>a b. or a b)
      else if i = XOR then pop2 (\<lambda>a b. xor a b)
      else if i = BYTE then pop2 op_byte
      else if i = ADDMOD then pop3 op_addmod
      else if i = MULMOD then pop3 op_mulmod
      else if i = SIGNEXTEND then
        and_then pop_back (\<lambda>bt. if bt < 32 then and_then pop_back (\<lambda>number. push (op_signextend bt number)) else ok ())
      else fail (BadInstruction i))"

section \<open>The state of a running instruction\<close>

datatype 'g InstructionResult =
    Continue
  | UnusedGas 'g
  | JumpToPosition u256
  | StopExecutionNeedsReturn 'g u256 u256 bool
  | StopExecution

text \<open>
  What \<open>exec_instruction\<close> can change: the interpreter's memory and return data, the host, the position of
  the code reader and the stack.
\<close>

record 'e Exec =
  ex_mem :: bytes
  ex_return_data :: ReturnData
  ex_ext :: 'e
  ex_position :: nat
  ex_stack :: "u256 VecStack"

type_synonym ('e, 'a) exec_comp = "('e Exec, 'a) vm_comp"

definition on_ext :: "('e, 'a) vm_comp \<Rightarrow> ('e, 'a) exec_comp" where
  "on_ext m = zoom ex_ext (\<lambda>e s. s\<lparr>ex_ext := e\<rparr>) m"

definition on_stack :: "(u256 VecStack, 'a) vm_comp \<Rightarrow> ('e, 'a) exec_comp" where
  "on_stack m = zoom ex_stack (\<lambda>st s. s\<lparr>ex_stack := st\<rparr>) m"

definition pop :: "('e, u256) exec_comp" where
  "pop = on_stack pop_back"

definition push_val :: "u256 \<Rightarrow> ('e, unit) exec_comp" where
  "push_val x = on_stack (push x)"

definition read_mem :: "(bytes \<Rightarrow> 'a vm_result) \<Rightarrow> ('e, 'a) exec_comp" where
  "read_mem f = (\<lambda>s. (f (ex_mem s), s))"

definition update_mem :: "(bytes \<Rightarrow> bytes vm_result) \<Rightarrow> ('e, unit) exec_comp" where
  "update_mem f = and_then (read_mem f) (\<lambda>m. modify (\<lambda>s. s\<lparr>ex_mem := m\<rparr>))"

definition set_return_data :: "ReturnData \<Rightarrow> ('e, unit) exec_comp" where
  "set_return_data rd = modify (\<lambda>s. s\<lparr>ex_return_data := rd\<rparr>)"

text \<open>\<open>CodeReader::read\<close>.\<close>

definition reader_read :: "bytes \<Rightarrow> nat \<Rightarrow> ('e, u256) exec_comp" where
  "reader_read code no_of_bytes =
     and_then (gets ex_position) (\<lambda>pos.
     and_then (modify (\<lambda>s. s\<lparr>ex_position := pos + no_of_bytes\<rparr>)) (\<lambda>_.
     let mx = min (pos + no_of_bytes) (length code) in
     and_then (lift (slice code pos mx)) (\<lambda>bs. ok (u256_from_be bs))))"

text \<open>Checked \<open>usize\<close> and \<open>U256\<close> arithmetic of \<open>copy_data_to_memory\<close>, then the copy itself.\<close>

definition copy_data :: "bytes \<Rightarrow> u256 \<Rightarrow> u256 \<Rightarrow> u256 \<Rightarrow> bytes \<Rightarrow> bytes vm_result" where
  "copy_data source dest_offset source_offset sz m =
     (let source_size = of_nat (length source) :: u256 in
      ok_then
        (if source_offset > source_size \<or> sz > source_size then Ok True
         else ok_then (word_add source_offset sz) (\<lambda>e. Ok (e > source_size))) (\<lambda>beyond.
      ok_then
        (if beyond then
           ok_then
             (if source_offset > source_size then mem_writeable_slice m dest_offset sz
              else ok_then (word_add dest_offset source_size) (\<lambda>d. ok_then (word_sub d source_offset) (\<lambda>d.
                   ok_then (word_add source_offset sz) (\<lambda>e. ok_then (word_sub e source_size) (\<lambda>n.
                   mem_writeable_slice m d n)))))
             (\<lambda>(start, zero_slice). Ok (splice m start (replicate (length zero_slice) 0), length source))
         else ok_then (usize_ck (low_u64 sz + low_u64 source_offset)) (\<lambda>e. Ok (m, e)))
        (\<lambda>(m, output_end).
      if source_offset < source_size then
        ok_then (slice source (low_u64 source_offset) output_end) (\<lambda>sl. mem_write_slice m dest_offset sl)
      else Ok m)))"

definition copy_data_to_memory :: "bytes \<Rightarrow> ('e, unit) exec_comp" where
  "copy_data_to_memory source =
     and_then pop (\<lambda>dest_offset. and_then pop (\<lambda>source_offset. and_then pop (\<lambda>sz.
     update_mem (copy_data source dest_offset source_offset sz))))"

section \<open>The effect of an instruction\<close>

text \<open>\<open>Cost::from_u256(gas_left).expect(..)\<close>.\<close>

definition expect_gas :: "'g cost_ops \<Rightarrow> u256 \<Rightarrow> 'g vm_result" where
  "expect_gas C g = (case from_u256 C g of Ok c \<Rightarrow> Ok c | _ \<Rightarrow> Panic Expect_failed)"

definition expect :: "'a option \<Rightarrow> 'a vm_result" where
  "expect x = (case x of Some a \<Rightarrow> Ok a | None \<Rightarrow> Panic Expect_failed)"

definition exec_create ::
  "'g cost_ops \<Rightarrow> 'e ext_ops \<Rightarrow> ActionParams \<Rightarrow> instruction \<Rightarrow> 'g option \<Rightarrow> ('e, 'g InstructionResult) exec_comp" where
  "exec_create C X params i provided =
     and_then pop (\<lambda>endowment. and_then pop (\<lambda>init_off. and_then pop (\<lambda>init_size.
     and_then (lift (expect provided)) (\<lambda>create_gas.
     and_then (gets (\<lambda>s. ext_is_static X (ex_ext s))) (\<lambda>static.
     if static then fail MutableCallInStaticContext else
     and_then (set_return_data rd_empty) (\<lambda>_.
     and_then (on_ext (ext_balance X (ap_address params))) (\<lambda>balance.
     and_then (gets (\<lambda>s. ext_depth X (ex_ext s) < max_depth (ext_schedule X (ex_ext s)))) (\<lambda>depth_ok.
     if \<not> (balance \<ge> endowment \<and> depth_ok) then
       and_then (push_val 0) (\<lambda>_. ok (UnusedGas create_gas))
     else
       and_then (read_mem (\<lambda>m. mem_read_slice m init_off init_size)) (\<lambda>contract_code.
       let address_scheme = (if i = CREATE then FromSenderAndNonce else FromSenderAndCodeHash) in
       and_then (on_ext (ext_create X (as_u256 C create_gas) endowment contract_code address_scheme)) (\<lambda>res.
       case res of
         Created address gas_left \<Rightarrow>
           and_then (push_val (address_to_u256 address)) (\<lambda>_.
           and_then (lift (expect_gas C gas_left)) (\<lambda>g. ok (UnusedGas g)))
       | CreateReverted gas_left return_data \<Rightarrow>
           and_then (push_val 0) (\<lambda>_. and_then (set_return_data return_data) (\<lambda>_.
           and_then (lift (expect_gas C gas_left)) (\<lambda>g. ok (UnusedGas g))))
       | CreateFailed \<Rightarrow> and_then (push_val 0) (\<lambda>_. ok Continue)))))))))))"

text \<open>The second half of the message calls: run the call and put its result on the stack.\<close>

definition finish_call ::
  "'g cost_ops \<Rightarrow> 'e ext_ops \<Rightarrow> 'g \<Rightarrow> address \<Rightarrow> address \<Rightarrow> u256 option \<Rightarrow> u256 \<Rightarrow> u256 \<Rightarrow> address \<Rightarrow> u256 \<Rightarrow> u256 \<Rightarrow>
     CallType \<Rightarrow> ('e, 'g InstructionResult) exec_comp" where
  "finish_call C X gas sender_address receive_address value in_off in_size code_address out_off out_size call_type =
     and_then (read_mem (\<lambda>m. mem_read_slice m in_off in_size)) (\<lambda>input.
     and_then (read_mem (\<lambda>m. mem_writeable_slice m out_off out_size)) (\<lambda>(start, output).
     and_then (on_ext (ext_call X (as_u256 C gas) sender_address receive_address value input code_address output call_type))
       (\<lambda>(res, output').
     and_then (modify (\<lambda>s. s\<lparr>ex_mem := splice (ex_mem s) start output'\<rparr>)) (\<lambda>_.
     case res of
       CallSuccess gas_left data \<Rightarrow>
         and_then (push_val 1) (\<lambda>_. and_then (set_return_data data) (\<lambda>_.
         and_then (lift (expect_gas C gas_left)) (\<lambda>g. ok (UnusedGas g))))
     | CallReverted gas_left data \<Rightarrow>
         and_then (push_val 0) (\<lambda>_. and_then (set_return_data data) (\<lambda>_.
         and_then (lift (expect_gas C gas_left)) (\<lambda>g. ok (UnusedGas g))))
     | CallFailed \<Rightarrow> and_then (push_val 0) (\<lambda>_. ok Continue)))))"

text \<open>Sender, receiver, whether the balance suffices, and the kind of the call.\<close>

definition call_context ::
  "'e ext_ops \<Rightarrow> ActionParams \<Rightarrow> instruction \<Rightarrow> u256 option \<Rightarrow> address \<Rightarrow>
     ('e, address \<times> address \<times> bool \<times> CallType) exec_comp" where
  "call_context X params i value code_address =
     (if i = CALL then
        and_then (gets (\<lambda>s. ext_is_static X (ex_ext s))) (\<lambda>static.
        if static \<and> (case value of Some v \<Rightarrow> v \<noteq> 0 | None \<Rightarrow> False) then fail MutableCallInStaticContext else
        and_then (on_ext (ext_balance X (ap_address params))) (\<lambda>balance.
        and_then (lift (expect value)) (\<lambda>v.
        ok (ap_address params, code_address, balance \<ge> v, Call))))
      else if i = CALLCODE then
        and_then (on_ext (ext_balance X (ap_address params))) (\<lambda>balance.
        and_then (lift (expect value)) (\<lambda>v.
        ok (ap_address params, ap_address params, balance \<ge> v, CallCode)))
      else if i = DELEGATECALL then ok (ap_sender params, ap_address params, True, DelegateCall)
      else if i = STATICCALL then ok (ap_address params, code_address, True, StaticCall)
      else panic Assert_failed)"

definition exec_call ::
  "'g cost_ops \<Rightarrow> 'e ext_ops \<Rightarrow> ActionParams \<Rightarrow> instruction \<Rightarrow> 'g option \<Rightarrow> ('e, 'g InstructionResult) exec_comp" where
  "exec_call C X params i provided =
     and_then (gets (\<lambda>s. ext_schedule X (ex_ext s))) (\<lambda>sch.
     if \<not> call_value_transfer_gas sch > call_stipend sch then panic Assert_failed else
     and_then pop (\<lambda>_.
     and_then (lift (expect provided)) (\<lambda>call_gas.
     and_then pop (\<lambda>code_address_u.
     let code_address = u256_to_address code_address_u in
     and_then (if i = DELEGATECALL then ok None else if i = STATICCALL then ok (Some 0)
               else and_then pop (\<lambda>v. ok (Some v))) (\<lambda>value.
     and_then pop (\<lambda>in_off. and_then pop (\<lambda>in_size. and_then pop (\<lambda>out_off. and_then pop (\<lambda>out_size.
     and_then (lift (cost_add C call_gas (case value of None \<Rightarrow> cost_from C 0
         | Some v \<Rightarrow> if v \<noteq> 0 then cost_from C (call_stipend sch) else cost_from C 0))) (\<lambda>call_gas.
     and_then (call_context X params i value code_address)
       (\<lambda>(sender_address, receive_address, has_balance, call_type).
     and_then (set_return_data rd_empty) (\<lambda>_.
     and_then (gets (\<lambda>s. ext_depth X (ex_ext s) < max_depth (ext_schedule X (ex_ext s)))) (\<lambda>depth_ok.
     if \<not> (has_balance \<and> depth_ok) then and_then (push_val 0) (\<lambda>_. ok (UnusedGas call_gas))
     else finish_call C X call_gas sender_address receive_address value in_off in_size code_address out_off out_size
       call_type)))))))))))))"

definition exec_log :: "'e ext_ops \<Rightarrow> instruction \<Rightarrow> ('e, unit) exec_comp" where
  "exec_log X i =
     and_then (lift (get_log_topics i)) (\<lambda>no_of_topics.
     and_then pop (\<lambda>offset. and_then pop (\<lambda>sz.
     and_then (on_stack (pop_n no_of_topics)) (\<lambda>topics.
     and_then (read_mem (\<lambda>m. mem_read_slice m offset sz)) (\<lambda>data.
     on_ext (ext_log X topics data))))))"

definition exec_sstore :: "'e ext_ops \<Rightarrow> ('e, unit) exec_comp" where
  "exec_sstore X =
     and_then pop (\<lambda>address. and_then pop (\<lambda>val.
     and_then (on_ext (ext_storage_at X address)) (\<lambda>current_val.
     and_then (if current_val \<noteq> 0 \<and> val = 0 then on_ext (ext_inc_sstore_clears X) else ok ()) (\<lambda>_.
     on_ext (ext_set_storage X address val)))))"

definition calldataload :: "bytes option \<Rightarrow> u256 \<Rightarrow> u256 vm_result" where
  "calldataload params_data big_id =
     (let i = low_u64 big_id; mx = (i + 32) mod usize_range in
      case params_data of
        Some data \<Rightarrow>
          (let bound = min (length data) mx in
           if i < bound \<and> big_id < of_nat (length data) then
             ok_then (slice data i bound) (\<lambda>bs.
             ok_then (slice (replicate 32 (0 :: u8)) 0 (bound - i)) (\<lambda>_.
             Ok (u256_from_be (splice (replicate 32 0) 0 bs))))
           else Ok 0)
      | None \<Rightarrow> Ok 0)"

definition exec_returndatacopy :: "('e, unit) exec_comp" where
  "exec_returndatacopy =
     and_then (\<lambda>s. (peek (ex_stack s) 1, s)) (\<lambda>source_offset.
     and_then (\<lambda>s. (peek (ex_stack s) 2, s)) (\<lambda>sz.
     and_then (\<lambda>s. (rd_deref (ex_return_data s), s)) (\<lambda>return_data.
     if saturating_add source_offset sz > of_nat (length return_data) then fail OutOfBounds
     else copy_data_to_memory return_data)))"

text \<open>The instructions that only push a value, given the position of the reader after the opcode.\<close>

definition exec_memory_instruction :: "(bytes \<Rightarrow> h256) \<Rightarrow> instruction \<Rightarrow> ('e, unit) exec_comp" where
  "exec_memory_instruction keccak i =
     (if i = MLOAD then
        and_then pop (\<lambda>offset. and_then (read_mem (\<lambda>m. mem_read m offset)) push_val)
      else if i = MSTORE then
        and_then pop (\<lambda>offset. and_then pop (\<lambda>word. update_mem (\<lambda>m. mem_write m offset word)))
      else if i = MSTORE8 then
        and_then pop (\<lambda>offset. and_then pop (\<lambda>byte. update_mem (\<lambda>m. mem_write_byte m offset byte)))
      else if i = MSIZE then and_then (gets (\<lambda>s. of_nat (length (ex_mem s)))) push_val
      else
        and_then pop (\<lambda>offset. and_then pop (\<lambda>sz.
        and_then (read_mem (\<lambda>m. mem_read_slice m offset sz)) (\<lambda>bs. push_val (keccak bs)))))"

definition exec_environment_instruction ::
  "'g cost_ops \<Rightarrow> 'e ext_ops \<Rightarrow> ActionParams \<Rightarrow> bytes \<Rightarrow> 'g \<Rightarrow> instruction \<Rightarrow> ('e, unit) exec_comp" where
  "exec_environment_instruction C X params code gas i =
     (if i = PC then
        and_then (gets ex_position) (\<lambda>pos.
        and_then (lift (if pos = 0 then Panic Arith_overflow else Ok (of_nat (pos - 1)))) push_val)
      else if i = GAS then push_val (as_u256 C gas)
      else if i = ADDRESS then push_val (address_to_u256 (ap_address params))
      else if i = ORIGIN then push_val (address_to_u256 (ap_origin params))
      else if i = BALANCE then
        and_then pop (\<lambda>a. and_then (on_ext (ext_balance X (u256_to_address a))) push_val)
      else if i = CALLER then push_val (address_to_u256 (ap_sender params))
      else if i = CALLVALUE then push_val (action_value (ap_value params))
      else if i = CALLDATALOAD then
        and_then pop (\<lambda>big_id. and_then (lift (calldataload (ap_data params) big_id)) push_val)
      else if i = CALLDATASIZE then
        push_val (of_nat (case ap_data params of Some l \<Rightarrow> length l | None \<Rightarrow> 0))
      else if i = CODESIZE then push_val (of_nat (length code))
      else if i = RETURNDATASIZE then
        and_then (\<lambda>s. (rd_deref (ex_return_data s), s)) (\<lambda>rd. push_val (of_nat (length rd)))
      else if i = EXTCODESIZE then
        and_then pop (\<lambda>a. and_then (on_ext (ext_extcodesize X (u256_to_address a))) (\<lambda>n. push_val (of_nat n)))
      else if i = CALLDATACOPY then
        copy_data_to_memory (case ap_data params of Some d \<Rightarrow> d | None \<Rightarrow> [])
      else if i = RETURNDATACOPY then exec_returndatacopy
      else if i = CODECOPY then
        copy_data_to_memory (case ap_code params of Some c \<Rightarrow> c | None \<Rightarrow> [])
      else if i = EXTCODECOPY then
        and_then pop (\<lambda>a. and_then (on_ext (ext_extcode X (u256_to_address a))) copy_data_to_memory)
      else if i = GASPRICE then push_val (ap_gas_price params)
      else if i = BLOCKHASH then
        and_then pop (\<lambda>n. and_then (on_ext (ext_blockhash X n)) push_val)
      else if i = COINBASE then
        and_then (gets (\<lambda>s. ext_env_info X (ex_ext s))) (\<lambda>ei. push_val (address_to_u256 (ei_author ei)))
      else if i = TIMESTAMP then
        and_then (gets (\<lambda>s. ext_env_info X (ex_ext s))) (\<lambda>ei. push_val (of_nat (ei_timestamp ei)))
      else if i = NUMBER then
        and_then (gets (\<lambda>s. ext_env_info X (ex_ext s))) (\<lambda>ei. push_val (of_nat (ei_number ei)))
      else if i = DIFFICULTY then
        and_then (gets (\<lambda>s. ext_env_info X (ex_ext s))) (\<lambda>ei. push_val (ei_difficulty ei))
      else if i = GASLIMIT then
        and_then (gets (\<lambda>s. ext_env_info X (ex_ext s))) (\<lambda>ei. push_val (ei_gas_limit ei))
      else on_stack (exec_stack_instruction i))"

definition exec_instruction ::
  "'g cost_ops \<Rightarrow> 'e ext_ops \<Rightarrow> (bytes \<Rightarrow> h256) \<Rightarrow> bytes \<Rightarrow> 'g \<Rightarrow> ActionParams \<Rightarrow> instruction \<Rightarrow> 'g option \<Rightarrow>
     ('e, 'g InstructionResult) exec_comp" where
  "exec_instruction C X keccak code gas params i provided =
     (if i = JUMP then and_then pop (\<lambda>jump. ok (JumpToPosition jump))
      else if i = JUMPI then
        and_then pop (\<lambda>jump. and_then pop (\<lambda>condition.
        ok (if condition \<noteq> 0 then JumpToPosition jump else Continue)))
      else if i = JUMPDEST then ok Continue
      else if i = CREATE \<or> i = CREATE2 then exec_create C X params i provided
      else if i = CALL \<or> i = CALLCODE \<or> i = DELEGATECALL \<or> i = STATICCALL then exec_call C X params i provided
      else if i = RETURN then
        and_then pop (\<lambda>init_off. and_then pop (\<lambda>init_size. ok (StopExecutionNeedsReturn gas init_off init_size True)))
      else if i = REVERT then
        and_then pop (\<lambda>init_off. and_then pop (\<lambda>init_size. ok (StopExecutionNeedsReturn gas init_off init_size False)))
      else if i = STOP then ok StopExecution
      else if i = SUICIDE then
        and_then pop (\<lambda>address. and_then (on_ext (ext_suicide X (u256_to_address address))) (\<lambda>_. ok StopExecution))
      else and_then
        (if LOG0 \<le> i \<and> i \<le> LOG4 then exec_log X i
         else if PUSH1 \<le> i \<and> i \<le> PUSH32 then
           and_then (lift (get_push_bytes i)) (\<lambda>bytes. and_then (reader_read code bytes) push_val)
         else if i = MLOAD \<or> i = MSTORE \<or> i = MSTORE8 \<or> i = MSIZE \<or> i = SHA3 then exec_memory_instruction keccak i
         else if i = SLOAD then
           and_then pop (\<lambda>key. and_then (on_ext (ext_storage_at X key)) push_val)
         else if i = SSTORE then exec_sstore X
         else exec_environment_instruction C X params code gas i)
        (\<lambda>_. ok Continue))"

section \<open>One iteration of the loop\<close>

definition verify_instruction ::
  "Schedule \<Rightarrow> instruction \<Rightarrow> InstructionInfo \<Rightarrow> u256 VecStack \<Rightarrow> unit vm_result" where
  "verify_instruction sch i info st =
     (if (i = DELEGATECALL \<and> \<not> have_delegate_call sch) \<or>
         (i = CREATE2 \<and> \<not> have_create2 sch) \<or>
         (i = STATICCALL \<and> \<not> have_static_call sch) \<or>
         ((i = RETURNDATACOPY \<or> i = RETURNDATASIZE) \<and> \<not> have_return_data sch) \<or>
         (i = REVERT \<and> \<not> have_revert sch)
      then Err (BadInstruction i)
      else if info_tier info = Invalid then Err (BadInstruction i)
      else if \<not> has st (info_args info) then
        Err (StackUnderflow (info_name info) (info_args info) (size_of st))
      else if size_of st - info_args info + info_ret info > stack_limit sch then
        if info_ret info < info_args info then Panic Arith_overflow
        else Err (OutOfStack (info_name info) (info_ret info - info_args info) (stack_limit sch))
      else Ok ())"

definition mem_written :: "instruction \<Rightarrow> u256 VecStack \<Rightarrow> (nat \<times> nat) option vm_result" where
  "mem_written i st =
     (let read = (\<lambda>pos. map_outcome low_u64 (peek st pos));
          both = (\<lambda>a b. ok_then (read a) (\<lambda>off. ok_then (read b) (\<lambda>sz. Ok (Some (off, sz)))))
      in ok_then
        (if i = MSTORE \<or> i = MLOAD then ok_then (read 0) (\<lambda>off. Ok (Some (off, 32)))
         else if i = MSTORE8 then ok_then (read 0) (\<lambda>off. Ok (Some (off, 1)))
         else if i = CALLDATACOPY \<or> i = CODECOPY \<or> i = RETURNDATACOPY then both 0 2
         else if i = EXTCODECOPY then both 1 3
         else if i = CALL \<or> i = CALLCODE then both 5 6
         else if i = DELEGATECALL \<or> i = STATICCALL then both 4 5
         else Ok None)
        (\<lambda>written. case written of
           Some (offset, sz) \<Rightarrow> if \<not> is_valid_range offset sz then Ok None else Ok written
         | None \<Rightarrow> Ok None))"

definition store_written :: "instruction \<Rightarrow> u256 VecStack \<Rightarrow> (u256 \<times> u256) option vm_result" where
  "store_written i st =
     (if i = SSTORE then ok_then (peek st 0) (\<lambda>k. ok_then (peek st 1) (\<lambda>v. Ok (Some (k, v)))) else Ok None)"

definition verify_jump :: "u256 \<Rightarrow> nat set \<Rightarrow> nat vm_result" where
  "verify_jump jump_u valid_jump_destinations =
     (let jump = low_u64 jump_u in
      if jump \<in> valid_jump_destinations \<and> of_nat jump = jump_u then Ok jump
      else Err (BadJumpDestination jump))"

text \<open>The interpreter object, and the local variables of \<open>exec\<close>.\<close>

record 'c Interpreter =
  it_mem :: bytes
  it_cache :: 'c
  it_return_data :: ReturnData

record ('g, 'e, 'c) Frame =
  fr_exec :: "'e Exec"
  fr_cache :: 'c
  fr_gasometer :: "'g Gasometer"
  fr_do_trace :: bool
  fr_jump_destinations :: "nat set option"

type_synonym ('g, 'e, 'c, 'a) frame_comp = "(('g, 'e, 'c) Frame, 'a) vm_comp"

definition in_exec :: "('e, 'a) exec_comp \<Rightarrow> ('g, 'e, 'c, 'a) frame_comp" where
  "in_exec m = zoom fr_exec (\<lambda>x s. s\<lparr>fr_exec := x\<rparr>) m"

definition in_ext :: "('e, 'a) vm_comp \<Rightarrow> ('g, 'e, 'c, 'a) frame_comp" where
  "in_ext m = in_exec (on_ext m)"

definition in_cache :: "('c, 'a) vm_comp \<Rightarrow> ('g, 'e, 'c, 'a) frame_comp" where
  "in_cache m = zoom fr_cache (\<lambda>x s. s\<lparr>fr_cache := x\<rparr>) m"

abbreviation current :: "('g, 'e, 'c) Frame \<Rightarrow> 'g" where
  "current s \<equiv> current_gas (fr_gasometer s)"

text \<open>Everything an interpreter is parameterised with: cost type, host, cache and hash function.\<close>

record ('g, 'e, 'c) vm_env =
  env_cost :: "'g cost_ops"
  env_ext :: "'e ext_ops"
  env_cache :: "'c cache_ops"
  env_keccak :: "bytes \<Rightarrow> h256"

text \<open>Before the instruction: price it, verify the gas, expand the memory, deduct the gas.\<close>

definition charge ::
  "('g, 'e, 'c) vm_env \<Rightarrow> nat \<Rightarrow> instruction \<Rightarrow> ('g, 'e, 'c, 'g InstructionRequirements) frame_comp" where
  "charge E pos i =
     and_then (\<lambda>s. in_ext (requirements (env_cost E) (env_ext E) (fr_gasometer s) i (INSTRUCTIONS i)
         (ex_stack (fr_exec s)) (length (ex_mem (fr_exec s)))) s) (\<lambda>req.
     and_then (\<lambda>s. (if fr_do_trace s
         then in_ext (ext_trace_prepare_execute (env_ext E) pos i (as_u256 (env_cost E) (gas_cost req)))
         else ok ()) s) (\<lambda>_.
     and_then (\<lambda>s. (verify_gas (env_cost E) (fr_gasometer s) (gas_cost req), s)) (\<lambda>_.
     and_then (in_exec (update_mem (\<lambda>m. mem_expand m (memory_required_size req)))) (\<lambda>_.
     and_then (\<lambda>s. (cost_sub (env_cost E) (current s) (gas_cost req), s)) (\<lambda>g.
     and_then (modify (\<lambda>s. s\<lparr>fr_gasometer := \<lparr>current_gas = g, current_mem_gas = memory_total_gas req\<rparr>\<rparr>)) (\<lambda>_.
     ok req))))))"

definition trace_executed ::
  "('g, 'e, 'c) vm_env \<Rightarrow> InstructionInfo \<Rightarrow> (nat \<times> nat) option \<Rightarrow> (u256 \<times> u256) option \<Rightarrow> ('g, 'e, 'c, unit) frame_comp" where
  "trace_executed E info mw sw =
     and_then (\<lambda>s. (peek_top (ex_stack (fr_exec s)) (info_ret info), s)) (\<lambda>tops.
     and_then (case mw of
         None \<Rightarrow> ok None
       | Some (off, sz) \<Rightarrow> (\<lambda>s. (map_outcome (\<lambda>bs. Some (off, bs)) (slice (ex_mem (fr_exec s)) off (off + sz)), s))) (\<lambda>md.
     and_then (gets current) (\<lambda>g.
     in_ext (ext_trace_executed (env_ext E) (as_u256 (env_cost E) g) tops md sw))))"

text \<open>The key of the jump destinations in the cache.\<close>

definition code_hash_of :: "(bytes \<Rightarrow> h256) \<Rightarrow> ActionParams \<Rightarrow> bytes \<Rightarrow> h256" where
  "code_hash_of keccak params code = (case ap_code_hash params of Some h \<Rightarrow> h | None \<Rightarrow> keccak code)"

text \<open>After the instruction: jump, return, stop, or go on.  A value ends the loop.\<close>

definition advance ::
  "('g, 'e, 'c) vm_env \<Rightarrow> ActionParams \<Rightarrow> bytes \<Rightarrow> 'g InstructionResult \<Rightarrow> ('g, 'e, 'c, GasLeft option) frame_comp" where
  "advance E params code result = (case result of
       JumpToPosition position \<Rightarrow>
         and_then (gets fr_jump_destinations) (\<lambda>v.
         and_then (case v of
             None \<Rightarrow>
               and_then (in_cache (jump_destinations (env_cache E) (code_hash_of (env_keccak E) params code) code)) (\<lambda>d.
               and_then (modify (\<lambda>s. s\<lparr>fr_jump_destinations := Some d\<rparr>)) (\<lambda>_. ok d))
           | Some d \<Rightarrow> ok d) (\<lambda>jump_destinations.
         and_then (lift (verify_jump position jump_destinations)) (\<lambda>pos.
         and_then (in_exec (modify (\<lambda>x. x\<lparr>ex_position := pos\<rparr>))) (\<lambda>_. ok None))))
     | StopExecutionNeedsReturn gas init_off init_size apply_state \<Rightarrow>
         and_then (gets (\<lambda>s. ex_mem (fr_exec s))) (\<lambda>m.
         and_then (in_exec (modify (\<lambda>x. x\<lparr>ex_mem := []\<rparr>))) (\<lambda>_.
         and_then (lift (into_return_data m init_off init_size)) (\<lambda>data.
         ok (Some (NeedsReturn (as_u256 (env_cost E) gas) data apply_state)))))
     | StopExecution \<Rightarrow> gets (\<lambda>s. Some (Known (as_u256 (env_cost E) (current s))))
     | _ \<Rightarrow> ok None)"

text \<open>The iteration from the computation of the gas cost on.\<close>

definition perform ::
  "('g, 'e, 'c) vm_env \<Rightarrow> ActionParams \<Rightarrow> bytes \<Rightarrow> nat \<Rightarrow> instruction \<Rightarrow> bool \<Rightarrow> ('g, 'e, 'c, GasLeft option) frame_comp" where
  "perform E params code pos i trace =
     and_then (charge E pos i) (\<lambda>req.
     and_then (\<lambda>s. (if trace then mem_written i (ex_stack (fr_exec s)) else Ok None, s)) (\<lambda>mw.
     and_then (\<lambda>s. (if trace then store_written i (ex_stack (fr_exec s)) else Ok None, s)) (\<lambda>sw.
     and_then (\<lambda>s. in_exec (exec_instruction (env_cost E) (env_ext E) (env_keccak E) code (current s) params i
         (provide_gas req)) s) (\<lambda>result.
     and_then (case result of
         UnusedGas gas \<Rightarrow>
           and_then (\<lambda>s. (cost_add (env_cost E) (current s) gas, s)) (\<lambda>g.
           modify (\<lambda>s. s\<lparr>fr_gasometer := (fr_gasometer s)\<lparr>current_gas := g\<rparr>\<rparr>))
       | _ \<Rightarrow> ok ()) (\<lambda>_.
     and_then (if trace then trace_executed E (INSTRUCTIONS i) mw sw else ok ()) (\<lambda>_.
     advance E params code result))))))"

text \<open>Fetch the instruction, announce it to the tracer, verify and perform it.\<close>

definition fetch ::
  "('g, 'e, 'c) vm_env \<Rightarrow> bytes \<Rightarrow> ('g, 'e, 'c, nat \<times> instruction \<times> bool) frame_comp" where
  "fetch E code =
     and_then (gets (\<lambda>s. ex_position (fr_exec s))) (\<lambda>pos.
     and_then (lift (index code pos)) (\<lambda>i.
     and_then (in_exec (modify (\<lambda>x. x\<lparr>ex_position := pos + 1\<rparr>))) (\<lambda>_.
     and_then (\<lambda>s. (if fr_do_trace s
         then in_ext (ext_trace_next_instruction (env_ext E) pos i (as_u256 (env_cost E) (current s)))
         else ok False) s) (\<lambda>trace.
     and_then (modify (\<lambda>s. s\<lparr>fr_do_trace := trace\<rparr>)) (\<lambda>_. ok (pos, i, trace))))))"

definition exec_step ::
  "('g, 'e, 'c) vm_env \<Rightarrow> ActionParams \<Rightarrow> bytes \<Rightarrow> ('g, 'e, 'c, GasLeft option) frame_comp" where
  "exec_step E params code =
     and_then (fetch E code) (\<lambda>(pos, i, trace).
     and_then (\<lambda>s. (verify_instruction (ext_schedule (env_ext E) (ex_ext (fr_exec s))) i (INSTRUCTIONS i)
         (ex_stack (fr_exec s)), s)) (\<lambda>_.
     perform E params code pos i trace))"

section \<open>The loop\<close>

partial_function (option) exec_loop ::
  "('g, 'e, 'c) vm_env \<Rightarrow> ActionParams \<Rightarrow> bytes \<Rightarrow> ('g, 'e, 'c) Frame \<Rightarrow> (GasLeft vm_result \<times> ('g, 'e, 'c) Frame) option" where
  "exec_loop E params code s =
     (if ex_position (fr_exec s) < length code then
        (case exec_step E params code s of
           (Ok None, s') \<Rightarrow> exec_loop E params code s'
         | (Ok (Some gl), s') \<Rightarrow> Some (Ok gl, s')
         | (Err e, s') \<Rightarrow> Some (Err e, s')
         | (Panic p, s') \<Rightarrow> Some (Panic p, s'))
      else Some (Ok (Known (as_u256 (env_cost E) (current s))), s))"

definition new_interpreter :: "'c \<Rightarrow> 'c Interpreter" where
  "new_interpreter c = \<lparr>it_mem = [], it_cache = c, it_return_data = rd_empty\<rparr>"

definition start_frame :: "'g cost_ops \<Rightarrow> 'c Interpreter \<Rightarrow> 'e \<Rightarrow> 'g \<Rightarrow> ('g, 'e, 'c) Frame" where
  "start_frame C vm e gas =
     \<lparr>fr_exec = \<lparr>ex_mem = [], ex_return_data = it_return_data vm, ex_ext = e, ex_position = 0,
        ex_stack = with_capacity 0\<rparr>,
      fr_cache = it_cache vm, fr_gasometer = new_gasometer C gas, fr_do_trace = True, fr_jump_destinations = None\<rparr>"

definition frame_vm :: "('g, 'e, 'c) Frame \<Rightarrow> 'c Interpreter" where
  "frame_vm s = \<lparr>it_mem = ex_mem (fr_exec s), it_cache = fr_cache s, it_return_data = ex_return_data (fr_exec s)\<rparr>"

text \<open>\<open>exec\<close>: \<open>None\<close> is a run that does not end.\<close>

definition exec ::
  "('g, 'e, 'c) vm_env \<Rightarrow> ActionParams \<Rightarrow> 'c Interpreter \<times> 'e \<Rightarrow> (GasLeft vm_result \<times> 'c Interpreter \<times> 'e) option" where
  "exec E params = (\<lambda>(vm, e).
     let vm = vm\<lparr>it_mem := []\<rparr> in
     case ap_code params of
       None \<Rightarrow> Some (Panic Expect_failed, vm, e)
     | Some code \<Rightarrow>
         (case from_u256 (env_cost E) (ap_gas params) of
            Ok gas \<Rightarrow> map_option (\<lambda>(r, s). (r, frame_vm s, ex_ext (fr_exec s)))
              (exec_loop E params code (start_frame (env_cost E) vm e gas))
          | Err err \<Rightarrow> Some (Err err, vm, e)
          | Panic p \<Rightarrow> Some (Panic p, vm, e)))"

end
