(* ===== verification/Interp_Data.thy ===== *)
theory Interp_Data
  imports Interpreter
begin

text \<open>
  The data movement of the interpreter against its specification: copying code, call data and return data to
  memory reads zeros beyond the end of the source, and so does loading a word of call data.
\<close>

text \<open>The bytes of \<open>source\<close> from \<open>off\<close> on, continued with zeros.\<close>

definition zero_padded :: "bytes \<Rightarrow> nat \<Rightarrow> nat \<Rightarrow> bytes" where
  "zero_padded source off n = take n (drop off source) @ replicate (n - (length source - off)) 0"

lemma length_zero_padded [simp]: "length (zero_padded source off n) = n"
  by (simp add: zero_padded_def)

lemma splice_append:
  "i + length xs + length ys \<le> length v \<Longrightarrow> splice (splice v (i + length xs) ys) i xs = splice v i (xs @ ys)"
  by (simp add: splice_def min_def add.assoc)

lemma copy_data_beyond:
  assumes "in_mem (length m) dest sz" "vec_ok m" "vec_ok source" "sz \<noteq> 0" "unat so \<le> length source"
    and "length source < unat so + unat sz"
  shows "copy_data source dest so sz m = Ok (splice m (unat dest) (zero_padded source (unat so) (unat sz)))"
proof -
  let ?S = "of_nat (length source) :: u256"
  note b = in_mem_bounds [OF assms(1,2,4)]
  have small: "unat dest < 2 ^ 63" "unat sz < 2 ^ 63" "length source < 2 ^ 63" "unat so < 2 ^ 63"
    using b(5) assms(2,3,5) by (auto simp: vec_ok_def)
  have S: "unat ?S = length source" using assms(3) by simp
  define d n where "d = dest + ?S - so" and "n = so + sz - ?S"
  have add1: "word_add so sz = (Ok (so + sz) :: u256 vm_result)" "unat (so + sz) = unat so + unat sz"
    and add2: "word_add dest ?S = (Ok (dest + ?S) :: u256 vm_result)" "unat (dest + ?S) = unat dest + length source"
    using small S by (simp_all add: word_add_def unat_add_u256)
  have sub1: "word_sub (dest + ?S) so = (Ok d :: u256 vm_result)" "unat d = unat dest + (length source - unat so)"
    using small S assms(5) add2(2) by (simp_all add: word_sub_def d_def word_le_nat_alt unat_sub_u256)
  have sub2: "word_sub (so + sz) ?S = (Ok n :: u256 vm_result)" "unat n = unat so + unat sz - length source"
    using small S assms(6) add1(2) by (simp_all add: word_sub_def n_def word_le_nat_alt unat_sub_u256)
  have n0: "n \<noteq> 0" using sub2(2) assms(6) unat_eq_0_iff [of n] by linarith
  have "in_mem (length m) d n" using b(5) sub1(2) sub2(2) assms(5,6) by (simp add: in_mem_def)
  then have ws: "mem_writeable_slice m d n = Ok (unat d, mem_bytes m d n)" and wl: "length (mem_bytes m d n) = unat n"
    using assms(2) n0 by (simp_all add: mem_writeable_slice_ok length_mem_bytes)
  let ?m1 = "splice m (unat d) (replicate (unat n) 0)"
  have l1: "length ?m1 = length m" using b(5) sub1(2) sub2(2) assms(5,6) by simp
  have not_gt: "\<not> so > ?S" using S assms(5) by (simp add: word_less_nat_alt)
  have beyond: "(if so > ?S \<or> sz > ?S then Ok True else ok_then (word_add so sz) (\<lambda>e. Ok (e > ?S))) = (Ok True :: bool vm_result)"
    using add1 S assms(6) by (simp add: word_less_nat_alt)
  have pad: "zero_padded source (unat so) (unat sz) = drop (unat so) source @ replicate (unat n) 0"
    using assms(5,6) sub2(2) by (simp add: zero_padded_def)
  have eq: "copy_data source dest so sz m =
      (if so < ?S then ok_then (slice source (low_u64 so) (length source)) (mem_write_slice ?m1 dest) else Ok ?m1)"
    unfolding copy_data_def Let_def beyond using not_gt by (simp add: add1 add2 sub1 sub2 ws wl)
  show ?thesis
  proof (cases "unat so = length source")
    case True
    then show ?thesis using eq S sub1(2) pad by (simp add: word_less_nat_alt)
  next
    case False
    then have lt: "unat so < length source" using assms(5) by simp
    then have "mem_write_slice ?m1 dest (drop (unat so) source) = Ok (splice ?m1 (unat dest) (drop (unat so) source))"
      using l1 b(5) assms(2,6) by (subst mem_write_slice_ok) (auto simp: vec_ok_def)
    moreover have "low_u64 so = unat so" using small by simp
    ultimately show ?thesis
      using eq S lt pad sub1(2) splice_append [of "unat dest" "drop (unat so) source" "replicate (unat n) 0" m]
        b(5) sub2(2) assms(6)
      by (simp add: word_less_nat_alt slice_def)
  qed
qed

lemma copy_data_eq:
  assumes "in_mem (length m) dest sz" "vec_ok m" "vec_ok source"
  shows "copy_data source dest so sz m =
    Ok (if sz = 0 then m else splice m (unat dest) (zero_padded source (unat so) (unat sz)))"
proof -
  let ?S = "of_nat (length source) :: u256"
  have S: "unat ?S = length source" and Sb: "length source < 2 ^ 63" using assms(3) by (simp_all add: vec_ok_def)
  consider "unat so > length source" | "unat so \<le> length source" "length source < unat so + unat sz"
    | "unat so + unat sz \<le> length source" by linarith
  then show ?thesis
  proof cases
    case 1
    then have gt: "so > ?S" using S by (simp add: word_less_nat_alt)
    then have "\<not> so < ?S" by simp
    with gt 1 assms show ?thesis
      by (simp add: copy_data_def Let_def mem_writeable_slice_ok length_mem_bytes zero_padded_def)
  next
    case 2
    then have "sz \<noteq> 0" by auto
    with copy_data_beyond [OF assms this 2] show ?thesis by simp
  next
    case 3
    have add: "word_add so sz = (Ok (so + sz) :: u256 vm_result)" "unat (so + sz) = unat so + unat sz"
      using 3 Sb by (simp_all add: word_add_def unat_add_u256)
    have le: "\<not> so > ?S" "\<not> sz > ?S" "\<not> so + sz > ?S" using 3 S add(2) by (simp_all add: word_less_nat_alt)
    have low: "low_u64 so = unat so" "low_u64 sz = unat sz" using 3 Sb by simp_all
    let ?sl = "take (unat sz) (drop (unat so) source)"
    have pad: "zero_padded source (unat so) (unat sz) = ?sl" using 3 by (simp add: zero_padded_def)
    have ck: "usize_ck (unat sz + unat so) = Ok (unat sz + unat so)" using 3 Sb by (simp add: usize_ck_def)
    have "copy_data source dest so sz m = (if so < ?S then mem_write_slice m dest ?sl else Ok m)"
      unfolding copy_data_def Let_def using le 3 by (simp add: add low ck slice_def)
    moreover have "sz = 0" if "\<not> so < ?S"
    proof -
      have "length source \<le> unat so" using that S by (simp add: word_less_nat_alt)
      then have "unat sz = 0" using 3 by linarith
      then show ?thesis by simp
    qed
    moreover have "mem_write_slice m dest ?sl = Ok (if sz = 0 then m else splice m (unat dest) ?sl)"
      using mem_write_slice_ok [of ?sl dest m] assms(1,2) 3 by (auto simp: in_mem_def)
    ultimately show ?thesis using pad by auto
  qed
qed

lemma u256_from_be_zeros: "u256_from_be (replicate n 0) = 0"
proof -
  have "be_nat (replicate n 0) = 0" by (induction n) simp_all
  then show ?thesis by (simp add: u256_from_be_nat)
qed

lemma calldataload_eq:
  assumes "vec_ok data"
  shows "calldataload (Some data) i = Ok (u256_from_be (zero_padded data (unat i) 32))"
proof (cases "unat i < length data")
  case True
  have b: "length data < 2 ^ 63" using assms by (simp add: vec_ok_def)
  then have low: "low_u64 i = unat i" using True by simp
  have lt: "i < of_nat (length data)" using True assms by (simp add: word_less_nat_alt)
  have m: "(unat i + 32) mod usize_range = unat i + 32" using True b by (intro mod_less) simp
  let ?n = "min (length data) (unat i + 32) - unat i"
  have n: "?n = min 32 (length data - unat i)" by simp
  have "zero_padded data (unat i) 32 = splice (replicate 32 0) 0 (take ?n (drop (unat i) data))"
    by (auto simp: zero_padded_def splice_def n min_def)
  then show ?thesis
    unfolding calldataload_def Let_def low m using True lt n by (simp add: slice_def)
next
  case False
  then have "\<not> i < of_nat (length data)" using assms by (simp add: word_less_nat_alt)
  with False show ?thesis
    by (simp add: calldataload_def Let_def zero_padded_def u256_from_be_zeros)
qed

end
