(* ===== verification/Interp_Instr.thy ===== *)
theory Interp_Instr
  imports Interp_Data
begin

text \<open>
  Every instruction without a child context: under the precondition \<open>ready\<close> (operands on the stack, memory
  ranges allocated) it does not panic, keeps the host's invariant, and changes the stack height by the numbers in the
  instruction table.
\<close>

section \<open>Stack instructions\<close>

lemma wp_ifI: "(b \<Longrightarrow> wp m Q R s) \<Longrightarrow> (\<not> b \<Longrightarrow> wp n Q R s) \<Longrightarrow> wp (if b then m else n) Q R s"
  by simp

lemma butlast_Nil [simp]: "butlast xs = [] \<longleftrightarrow> length xs \<le> 1"
  by (cases xs rule: rev_cases) auto

definition stack_delta :: "nat \<Rightarrow> nat \<Rightarrow> u256 VecStack \<Rightarrow> u256 VecStack \<Rightarrow> bool" where
  "stack_delta a r st st' \<longleftrightarrow> wf_stack st' \<and> length (st_items st') + a = length (st_items st) + r"

lemma pop1_delta:
  "wf_stack st \<Longrightarrow> 1 \<le> length (st_items st) \<Longrightarrow> wp (pop1 f) (\<lambda>_. stack_delta 1 1 st) R st"
  by (auto simp: pop1_def wp_simps stack_delta_def Suc_le_eq)

lemma pop2_delta:
  "wf_stack st \<Longrightarrow> 2 \<le> length (st_items st) \<Longrightarrow> wp (pop2 f) (\<lambda>_. stack_delta 2 1 st) R st"
  by (auto simp: pop2_def wp_simps stack_delta_def)

lemma pop3_delta:
  assumes "wf_stack st" "3 \<le> length (st_items st)" "\<And>a b c. \<exists>x. f a b c = Ok x"
  shows "wp (pop3 f) (\<lambda>_. stack_delta 3 1 st) R st"
proof -
  let ?x = "f (last (st_items st)) (last (butlast (st_items st))) (last (butlast (butlast (st_items st))))"
  obtain y where "?x = Ok y" using assms(3) by blast
  with assms(1,2) show ?thesis
    by (auto simp: pop3_def wp_simps stack_delta_def)
qed

lemma exec_stack_instruction_safe:
  assumes "wf_stack st" "info_args (INSTRUCTIONS i) \<le> length (st_items st)"
  shows "wp (exec_stack_instruction i) (\<lambda>_. stack_delta (info_args (INSTRUCTIONS i)) (info_ret (INSTRUCTIONS i)) st)
    (\<lambda>_ _. True) st"
proof -
  have d1: "wp (pop1 f) (\<lambda>_. stack_delta (info_args (INSTRUCTIONS i)) (info_ret (INSTRUCTIONS i)) st) R st"
    if "info_args (INSTRUCTIONS i) = 1 \<and> info_ret (INSTRUCTIONS i) = 1" for f R
    using pop1_delta [OF assms(1)] assms(2) that by simp
  have d2: "wp (pop2 f) (\<lambda>_. stack_delta (info_args (INSTRUCTIONS i)) (info_ret (INSTRUCTIONS i)) st) R st"
    if "info_args (INSTRUCTIONS i) = 2 \<and> info_ret (INSTRUCTIONS i) = 1" for f R
    using pop2_delta [OF assms(1)] assms(2) that by simp
  have d3: "wp (pop3 f) (\<lambda>_. stack_delta (info_args (INSTRUCTIONS i)) (info_ret (INSTRUCTIONS i)) st) R st"
    if "info_args (INSTRUCTIONS i) = 3 \<and> info_ret (INSTRUCTIONS i) = 1" "\<And>a b c. \<exists>x. f a b c = Ok x" for f R
    using pop3_delta [OF assms(1) _ that(2)] assms(2) that(1) by simp
  show ?thesis
    unfolding exec_stack_instruction_def
  proof (intro wp_ifI d1 d2 d3)
    show "wp (and_then (lift (get_dup_position i)) (\<lambda>position. and_then (\<lambda>st. (peek st position, st)) push))
      (\<lambda>_. stack_delta (info_args (INSTRUCTIONS i)) (info_ret (INSTRUCTIONS i)) st) (\<lambda>_ _. True) st"
      if "DUP1 \<le> i \<and> i \<le> DUP16"
      using assms that dup_info [of i] 
      by (simp add: wp_simps get_dup_position_def wp_def peek_def stack_delta_def push_def modify_def)
    show "wp (and_then (lift (get_swap_position i)) swap_with_top)
      (\<lambda>_. stack_delta (info_args (INSTRUCTIONS i)) (info_ret (INSTRUCTIONS i)) st) (\<lambda>_ _. True) st"
      if "SWAP1 \<le> i \<and> i \<le> SWAP16"
      using assms that swap_info [of i] by (simp add: wp_simps get_swap_position_def stack_delta_def)
    show "wp (and_then pop_back (\<lambda>_. ok ()))
      (\<lambda>_. stack_delta (info_args (INSTRUCTIONS i)) (info_ret (INSTRUCTIONS i)) st) (\<lambda>_ _. True) st" if "i = POP"
      using assms that by (auto simp: wp_simps stack_delta_def INSTRUCTIONS_simps Suc_le_eq)
    show "wp (and_then pop_back (\<lambda>bt. if bt < 32 then and_then pop_back (\<lambda>number. push (op_signextend bt number)) else ok ()))
      (\<lambda>_. stack_delta (info_args (INSTRUCTIONS i)) (info_ret (INSTRUCTIONS i)) st) (\<lambda>_ _. True) st" if "i = SIGNEXTEND"
      using assms that by (auto simp: wp_simps stack_delta_def INSTRUCTIONS_simps)
  qed (simp_all add: INSTRUCTIONS_simps op_addmod_eq op_mulmod_eq wp_fail)
qed

section \<open>Weakest preconditions of the instruction combinators\<close>

lemma wp_state [wp_simps]:
  "wp (\<lambda>s. (f s, s)) Q R = (\<lambda>s. case f s of Ok a \<Rightarrow> Q a s | Err e \<Rightarrow> R e s | Panic p \<Rightarrow> is_host p)"
  by (simp add: fun_eq_iff wp_def)

lemma wp_on_ext:
  "wp (on_ext m) Q R = (\<lambda>s. wp m (\<lambda>a e. Q a (s\<lparr>ex_ext := e\<rparr>)) (\<lambda>err e. R err (s\<lparr>ex_ext := e\<rparr>)) (ex_ext s))"
  by (simp add: on_ext_def wp_zoom)

lemma wp_on_stack [wp_simps]:
  "wp (on_stack m) Q R = (\<lambda>s. wp m (\<lambda>a st. Q a (s\<lparr>ex_stack := st\<rparr>)) (\<lambda>err st. R err (s\<lparr>ex_stack := st\<rparr>)) (ex_stack s))"
  by (simp add: on_stack_def wp_zoom)

lemma wp_push_val [wp_simps]:
  "wp (push_val x) Q R = (\<lambda>s. Q () (s\<lparr>ex_stack := (ex_stack s)\<lparr>st_items := st_items (ex_stack s) @ [x]\<rparr>\<rparr>))"
  by (simp add: push_val_def wp_simps)

lemma wp_read_mem [wp_simps]:
  "wp (read_mem f) Q R = (\<lambda>s. case f (ex_mem s) of Ok a \<Rightarrow> Q a s | Err e \<Rightarrow> R e s | Panic p \<Rightarrow> is_host p)"
  by (simp add: read_mem_def wp_simps)

lemma wp_update_mem [wp_simps]:
  "wp (update_mem f) Q R = (\<lambda>s. case f (ex_mem s) of Ok m \<Rightarrow> Q () (s\<lparr>ex_mem := m\<rparr>) | Err e \<Rightarrow> R e s | Panic p \<Rightarrow> is_host p)"
  by (simp add: update_mem_def wp_simps)

lemma wp_set_return_data [wp_simps]: "wp (set_return_data rd) Q R = (\<lambda>s. Q () (s\<lparr>ex_return_data := rd\<rparr>))"
  by (simp add: set_return_data_def wp_simps)

text \<open>The state after \<open>k\<close> pops; the \<open>k\<close>th pop returns the \<open>k\<close>th operand.\<close>

abbreviation items :: "'e Exec \<Rightarrow> u256 list" where
  "items s \<equiv> st_items (ex_stack s)"

definition popped :: "nat \<Rightarrow> 'e Exec \<Rightarrow> 'e Exec" where
  "popped k s = s\<lparr>ex_stack := (ex_stack s)\<lparr>st_items := take (length (items s) - k) (items s)\<rparr>\<rparr>"

lemma popped_simps [simp]:
  "ex_mem (popped k s) = ex_mem s" "ex_return_data (popped k s) = ex_return_data s" "ex_ext (popped k s) = ex_ext s"
  "ex_position (popped k s) = ex_position s" "wf_stack (ex_stack (popped k s)) = wf_stack (ex_stack s)"
  "items (popped k s) = take (length (items s) - k) (items s)"
  "(popped k s)\<lparr>ex_ext := e\<rparr> = popped k (s\<lparr>ex_ext := e\<rparr>)"
  "(popped k s)\<lparr>ex_return_data := rd\<rparr> = popped k (s\<lparr>ex_return_data := rd\<rparr>)"
  "(popped k s)\<lparr>ex_mem := m\<rparr> = popped k (s\<lparr>ex_mem := m\<rparr>)"
  by (simp_all add: popped_def)

lemma wp_pop_first: "Suc 0 \<le> length (items s) \<Longrightarrow> wp pop Q R s \<longleftrightarrow> Q (arg (ex_stack s) 0) (popped 1 s)"
  by (auto simp: pop_def wp_simps popped_def arg_def last_conv_nth butlast_conv_take Suc_le_eq)

lemma popped_popped: "popped j (popped k s) = popped (k + j) s"
  by (simp add: popped_def min_absorb1 min_absorb2)

lemma arg_popped: "Suc (k + j) \<le> length (items s) \<Longrightarrow> arg (ex_stack (popped k s)) j = arg (ex_stack s) (k + j)"
  by (simp add: popped_def arg_def min_absorb2)

lemmas pop_rules = wp_pop_first popped_popped arg_popped

section \<open>Before and after an instruction\<close>

definition host_kept :: "'e ext_ops \<Rightarrow> ('e \<Rightarrow> bool) \<Rightarrow> 'e Exec \<Rightarrow> 'e Exec \<Rightarrow> bool" where
  "host_kept X hinv s s' \<longleftrightarrow> hinv (ex_ext s') \<and> same_env X (ex_ext s) (ex_ext s')"

definition ready :: "('e \<Rightarrow> bool) \<Rightarrow> ActionParams \<Rightarrow> bytes \<Rightarrow> instruction \<Rightarrow> 'e Exec \<Rightarrow> bool" where
  "ready hinv params code i s \<longleftrightarrow>
     hinv (ex_ext s) \<and> wf_stack (ex_stack s) \<and> info_args (INSTRUCTIONS i) \<le> length (items s)
     \<and> vec_ok (ex_mem s) \<and> wf_return_data (ex_return_data s)
     \<and> (\<forall>(off, sz) \<in> set (mem_ranges i (ex_stack s)). in_mem (length (ex_mem s)) off sz)
     \<and> 0 < ex_position s \<and> ex_position s \<le> length code \<and> vec_ok code
     \<and> (\<forall>d. ap_data params = Some d \<longrightarrow> vec_ok d) \<and> (\<forall>c. ap_code params = Some c \<longrightarrow> vec_ok c)"

definition effect :: "'e ext_ops \<Rightarrow> ('e \<Rightarrow> bool) \<Rightarrow> instruction \<Rightarrow> 'e Exec \<Rightarrow> 'e Exec \<Rightarrow> bool" where
  "effect X hinv i s s' \<longleftrightarrow>
     host_kept X hinv s s' \<and> wf_return_data (ex_return_data s') \<and> length (ex_mem s') = length (ex_mem s)
     \<and> stack_delta (info_args (INSTRUCTIONS i)) (info_ret (INSTRUCTIONS i)) (ex_stack s) (ex_stack s')
     \<and> ex_position s' + 1 = ex_position s + instruction_length i"

lemma not_push_length: "\<not> is_push i \<Longrightarrow> instruction_length i = 1"
  by (simp add: instruction_length_def)

lemma in_mem_32: "in_mem n off 32 \<longleftrightarrow> unat off + 32 \<le> n"
  by (simp add: in_mem_def)

lemma in_mem_1: "in_mem n off 1 \<longleftrightarrow> unat off < n"
  by (simp add: in_mem_def Suc_le_eq)

context ext_host
begin

lemma on_ext_rule:
  assumes "host_op X hinv m P" "hinv (ex_ext s)"
    and "\<And>a e. hinv e \<Longrightarrow> same_env X (ex_ext s) e \<Longrightarrow> P a \<Longrightarrow> Q a (s\<lparr>ex_ext := e\<rparr>)"
    and "\<And>err e. hinv e \<Longrightarrow> same_env X (ex_ext s) e \<Longrightarrow> R err (s\<lparr>ex_ext := e\<rparr>)"
  shows "wp (on_ext m) Q R s"
  unfolding wp_on_ext by (rule host_rule [OF assms(1,2)]) (use assms(3,4) in auto)

lemma memory_instruction_safe:
  assumes "ready hinv params code i s" "i \<in> {MLOAD, MSTORE, MSTORE8, MSIZE, SHA3}"
  shows "wp (exec_memory_instruction keccak i) (\<lambda>_. effect X hinv i s) R s"
proof -
  have r: "hinv (ex_ext s)" "wf_stack (ex_stack s)" "info_args (INSTRUCTIONS i) \<le> length (items s)"
    "vec_ok (ex_mem s)" "wf_return_data (ex_return_data s)"
    "\<forall>(off, sz) \<in> set (mem_ranges i (ex_stack s)). in_mem (length (ex_mem s)) off sz"
    using assms(1) by (auto simp: ready_def)
  have l: "instruction_length i = 1" using assms(2) by (auto simp: instruction_length_def is_push_def)
  from assms(2) consider "i = MLOAD" | "i = MSTORE" | "i = MSTORE8" | "i = MSIZE" | "i = SHA3" by auto
  then show ?thesis
    by cases (use r l in \<open>auto simp: exec_memory_instruction_def wp_simps pop_rules INSTRUCTIONS_simps mem_ranges_def
      in_mem_32 in_mem_1 mem_read_ok mem_write_ok mem_write_byte_ok mem_read_slice_ok
      effect_def host_kept_def stack_delta_def\<close>)
qed

end

section \<open>Environment, copies, logs and storage\<close>

definition copied :: "bytes \<Rightarrow> u256 \<Rightarrow> u256 \<Rightarrow> u256 \<Rightarrow> bytes \<Rightarrow> bytes" where
  "copied source dest so sz m = (if sz = 0 then m else splice m (unat dest) (zero_padded source (unat so) (unat sz)))"

lemma length_copied [simp]: "in_mem (length m) dest sz \<Longrightarrow> length (copied source dest so sz m) = length m"
  by (auto simp: copied_def in_mem_def)

lemma wp_copy_data_to_memory:
  assumes "3 \<le> length (items s)" "in_mem (length (ex_mem s)) (arg (ex_stack s) 0) (arg (ex_stack s) 2)"
    and "vec_ok (ex_mem s)" "vec_ok source"
  shows "wp (copy_data_to_memory source) Q R s \<longleftrightarrow>
    Q () (popped 3 (s\<lparr>ex_mem := copied source (arg (ex_stack s) 0) (arg (ex_stack s) 1) (arg (ex_stack s) 2) (ex_mem s)\<rparr>))"
  using assms
  by (simp add: copy_data_to_memory_def wp_simps pop_rules copy_data_eq copied_def numeral_2_eq_2 numeral_3_eq_3)

lemma arg_ext [simp]: "arg (ex_stack (s\<lparr>ex_ext := e\<rparr>)) k = arg (ex_stack s) k"
  by simp

context ext_host
begin

text \<open>Pop a key, ask the host, push the answer.\<close>

lemma query_safe:
  assumes "ready hinv params code i s" "info_args (INSTRUCTIONS i) = 1" "info_ret (INSTRUCTIONS i) = 1" "\<not> is_push i"
    and "\<And>k. \<exists>P. host_op X hinv (m k) P"
  shows "wp (and_then pop (\<lambda>k. and_then (on_ext (m k)) (\<lambda>r. push_val (f r)))) (\<lambda>_. effect X hinv i s)
    (\<lambda>_. host_kept X hinv s) s"
proof -
  obtain P where P: "host_op X hinv (m (arg (ex_stack s) 0)) P" using assms(5) by blast
  have "wp (on_ext (m (arg (ex_stack s) 0)))
      (\<lambda>a s'. effect X hinv i s (s'\<lparr>ex_stack := (ex_stack s')\<lparr>st_items := items s' @ [f a]\<rparr>\<rparr>))
      (\<lambda>_. host_kept X hinv s) (popped 1 s)"
    by (rule on_ext_rule [OF P]) (use assms(1-4) in \<open>auto simp: ready_def effect_def host_kept_def stack_delta_def
      instruction_length_def min_absorb2\<close>)
  then show ?thesis
    using assms(1,2) by (simp add: ready_def wp_simps wp_pop_first)
qed

lemma env_push_safe:
  assumes "ready hinv params code i s" "i \<in> {PC, GAS, ADDRESS, ORIGIN, CALLER, CALLVALUE, CALLDATASIZE, CODESIZE,
    RETURNDATASIZE, GASPRICE, COINBASE, TIMESTAMP, NUMBER, DIFFICULTY, GASLIMIT}"
  shows "wp (exec_environment_instruction C X params code gas i) (\<lambda>_. effect X hinv i s) R s"
proof -
  have r: "hinv (ex_ext s)" "wf_stack (ex_stack s)" "wf_return_data (ex_return_data s)" "0 < ex_position s"
    using assms(1) by (auto simp: ready_def)
  have l: "instruction_length i = 1" using assms(2) by (auto simp: instruction_length_def is_push_def)
  from assms(2) r l show ?thesis
    by (elim insertE emptyE) (simp_all add: exec_environment_instruction_def wp_simps INSTRUCTIONS_simps
      effect_def host_kept_def stack_delta_def rd_deref_wf)
qed

lemma calldataload_safe:
  assumes "ready hinv params code CALLDATALOAD s"
  shows "wp (exec_environment_instruction C X params code gas CALLDATALOAD) (\<lambda>_. effect X hinv CALLDATALOAD s) R s"
  using assms by (cases "ap_data params") (auto simp: exec_environment_instruction_def wp_simps pop_rules INSTRUCTIONS_simps
    ready_def instruction_length_def is_push_def calldataload_eq calldataload_def [of None] effect_def host_kept_def
    stack_delta_def min_absorb2)

lemma env_query_safe:
  assumes "ready hinv params code i s" "i \<in> {BALANCE, EXTCODESIZE, BLOCKHASH}"
  shows "wp (exec_environment_instruction C X params code gas i) (\<lambda>_. effect X hinv i s) (\<lambda>_. host_kept X hinv s) s"
proof -
  have "info_args (INSTRUCTIONS i) = 1" "info_ret (INSTRUCTIONS i) = 1" "\<not> is_push i"
    using assms(2) by (auto simp: INSTRUCTIONS_simps is_push_def)
  note q = query_safe [OF assms(1) this]
  from assms(2) consider "i = BALANCE" | "i = EXTCODESIZE" | "i = BLOCKHASH" by auto
  then show ?thesis
  proof cases
    case 1
    with q [of "\<lambda>a. ext_balance X (u256_to_address a)" "\<lambda>x. x"] host_balance show ?thesis
      by (auto simp: exec_environment_instruction_def)
  next
    case 2
    with q [of "\<lambda>a. ext_extcodesize X (u256_to_address a)" of_nat] host_extcodesize show ?thesis
      by (auto simp: exec_environment_instruction_def)
  next
    case 3
    with q [of "ext_blockhash X" "\<lambda>x. x"] host_blockhash show ?thesis
      by (auto simp: exec_environment_instruction_def)
  qed
qed

lemma copy_safe:
  assumes "ready hinv params code i s" "i = CALLDATACOPY \<or> i = CODECOPY \<or> i = RETURNDATACOPY" "vec_ok source"
  shows "wp (copy_data_to_memory source) (\<lambda>_. effect X hinv i s) R s"
proof -
  have len: "3 \<le> length (items s)" and rng: "in_mem (length (ex_mem s)) (arg (ex_stack s) 0) (arg (ex_stack s) 2)"
    and ret: "info_args (INSTRUCTIONS i) = 3" "info_ret (INSTRUCTIONS i) = 0" "instruction_length i = 1"
    using assms(1,2) by (auto simp: ready_def mem_ranges_def INSTRUCTIONS_simps instruction_length_def is_push_def)
  with assms show ?thesis
    by (simp add: wp_copy_data_to_memory ready_def effect_def host_kept_def stack_delta_def min_absorb2)
qed

lemma copies_safe:
  assumes "ready hinv params code i s" "i = CALLDATACOPY \<or> i = CODECOPY \<or> i = RETURNDATACOPY"
  shows "wp (exec_environment_instruction C X params code gas i) (\<lambda>_. effect X hinv i s) (\<lambda>_. host_kept X hinv s) s"
proof -
  have nil: "vec_ok ([] :: bytes)" by (simp add: vec_ok_def)
  have par: "vec_ok d" if "ap_data params = Some d \<or> ap_code params = Some d" for d
    using assms(1) that by (auto simp: ready_def)
  have rd: "vec_ok (rd_bytes (ex_return_data s))" "rd_deref (ex_return_data s) = Ok (rd_bytes (ex_return_data s))"
    using assms(1) by (simp_all add: ready_def vec_ok_rd_bytes rd_deref_wf)
  have len: "3 \<le> length (items s)" and h: "host_kept X hinv s s"
    using assms by (auto simp: ready_def INSTRUCTIONS_simps host_kept_def)
  note copy = copy_safe [OF assms]
  show ?thesis
    using assms(2) copy [OF nil] copy [OF par] copy [OF rd(1)] rd(2) h
    by (auto simp: exec_environment_instruction_def exec_returndatacopy_def wp_simps peek_arg [OF len] split: option.split)
qed

lemma extcodecopy_safe:
  assumes "ready hinv params code EXTCODECOPY s"
  shows "wp (exec_environment_instruction C X params code gas EXTCODECOPY) (\<lambda>_. effect X hinv EXTCODECOPY s)
    (\<lambda>_. host_kept X hinv s) s"
proof -
  have len: "4 \<le> length (items s)" and rng: "in_mem (length (ex_mem s)) (arg (ex_stack s) 1) (arg (ex_stack s) 3)"
    using assms by (auto simp: ready_def mem_ranges_def INSTRUCTIONS_simps)
  have "wp (on_ext (ext_extcode X a)) (\<lambda>c. wp (copy_data_to_memory c) (\<lambda>_. effect X hinv EXTCODECOPY s) (\<lambda>_. host_kept X hinv s))
      (\<lambda>_. host_kept X hinv s) (popped 1 s)" for a
  proof (rule on_ext_rule [OF host_extcode])
    fix c :: bytes and e assume c: "hinv e" "same_env X (ex_ext (popped 1 s)) e" "vec_ok c"
    have "arg (ex_stack (popped 1 (s\<lparr>ex_ext := e\<rparr>))) 0 = arg (ex_stack s) 1"
      "arg (ex_stack (popped 1 (s\<lparr>ex_ext := e\<rparr>))) 2 = arg (ex_stack s) 3"
      using len by (simp_all add: arg_popped numeral_3_eq_3)
    with c assms len rng show "wp (copy_data_to_memory c) (\<lambda>_. effect X hinv EXTCODECOPY s) (\<lambda>_. host_kept X hinv s)
      ((popped 1 s)\<lparr>ex_ext := e\<rparr>)"
      by (subst wp_copy_data_to_memory) (auto simp: ready_def effect_def host_kept_def stack_delta_def min_absorb2
        INSTRUCTIONS_simps instruction_length_def is_push_def popped_popped)
  qed (use assms in \<open>auto simp: ready_def host_kept_def\<close>)
  with len show ?thesis
    by (simp add: exec_environment_instruction_def wp_simps wp_pop_first)
qed

end

context ext_host
begin

lemma log_safe:
  assumes "ready hinv params code i s" "LOG0 \<le> i" "i \<le> LOG4"
  shows "wp (exec_log X i) (\<lambda>_. effect X hinv i s) (\<lambda>_. host_kept X hinv s) s"
proof -
  let ?n = "unat (i - LOG0)"
  have info: "info_args (INSTRUCTIONS i) = ?n + 2" "info_ret (INSTRUCTIONS i) = 0" "?n \<le> 4"
    using log_info [OF assms(2,3)] by auto
  have l: "instruction_length i = 1" and mr: "mem_ranges i (ex_stack s) = [(arg (ex_stack s) 0, arg (ex_stack s) 1)]"
    using assms(2,3) order_trans [of LOG0 i PUSH32] by (auto simp: instruction_length_def is_push_def mem_ranges_def)
  have r: "?n + 2 \<le> length (items s)" "in_mem (length (ex_mem s)) (arg (ex_stack s) 0) (arg (ex_stack s) 1)"
    "wf_stack (ex_stack s)" "vec_ok (ex_mem s)" "hinv (ex_ext s)" "wf_return_data (ex_return_data s)"
    using assms(1) mr info(1) by (auto simp: ready_def)
  have "wp (on_ext (ext_log X topics data)) (\<lambda>_. effect X hinv i s) (\<lambda>_. host_kept X hinv s)
      ((popped 2 s)\<lparr>ex_stack := (ex_stack (popped 2 s))\<lparr>st_items := take (length (items s) - 2 - ?n) (take (length (items s) - 2) (items s)), st_logs := lg\<rparr>\<rparr>)"
    if "length lg = 4" for lg topics data
    by (rule on_ext_rule [OF host_log]) (use that r l info in \<open>auto simp: effect_def host_kept_def stack_delta_def wf_stack_def min_absorb2\<close>)
  then show ?thesis
    using r info(3) assms(2,3)
    by (auto simp: exec_log_def get_log_topics_def wp_simps pop_rules mem_read_slice_ok numeral_2_eq_2 min_absorb2 intro!: wp_pop_n)
qed

lemma push_safe:
  assumes "ready hinv params code i s" "is_push i"
  shows "wp (and_then (lift (get_push_bytes i)) (\<lambda>bytes. and_then (reader_read code bytes) push_val))
    (\<lambda>_. effect X hinv i s) R s"
  using assms push_info [OF assms(2)]
  by (simp add: get_push_bytes_def reader_read_def wp_simps Let_def slice_def ready_def effect_def host_kept_def
    stack_delta_def instruction_length_def)

lemma sload_safe:
  assumes "ready hinv params code SLOAD s"
  shows "wp (and_then pop (\<lambda>key. and_then (on_ext (ext_storage_at X key)) push_val)) (\<lambda>_. effect X hinv SLOAD s)
    (\<lambda>_. host_kept X hinv s) s"
  using query_safe [OF assms, of "ext_storage_at X" "\<lambda>x. x"] host_storage_at
  by (auto simp: INSTRUCTIONS_simps is_push_def)

lemma sstore_safe:
  assumes "ready hinv params code SSTORE s"
  shows "wp (exec_sstore X) (\<lambda>_. effect X hinv SSTORE s) (\<lambda>_. host_kept X hinv s) s"
proof -
  let ?kept = "\<lambda>s'. \<exists>e. hinv e \<and> same_env X (ex_ext s) e \<and> s' = popped 2 (s\<lparr>ex_ext := e\<rparr>)"
  have r: "2 \<le> length (items s)" "wf_stack (ex_stack s)" "hinv (ex_ext s)" "wf_return_data (ex_return_data s)"
    using assms by (auto simp: ready_def INSTRUCTIONS_simps)
  have step: "wp (on_ext m) (\<lambda>_. ?kept) (\<lambda>_. host_kept X hinv s) s'" if "host_op X hinv m P" "?kept s'" for m P s'
    using that(2) by (elim exE conjE, intro on_ext_rule [OF that(1)]) (auto simp: host_kept_def intro: same_env_trans)
  have set: "wp (on_ext (ext_set_storage X k v)) (\<lambda>_. effect X hinv SSTORE s) (\<lambda>_. host_kept X hinv s) s'" if "?kept s'" for k v s'
    using step [OF host_set_storage that, of k v] r by (elim wp_mono) (auto simp: effect_def host_kept_def stack_delta_def
      min_absorb2 INSTRUCTIONS_simps instruction_length_def is_push_def)
  have clear: "wp (if c then on_ext (ext_inc_sstore_clears X) else ok ())
     (\<lambda>_. wp (on_ext (ext_set_storage X k v)) (\<lambda>_. effect X hinv SSTORE s) (\<lambda>_. host_kept X hinv s)) (\<lambda>_. host_kept X hinv s) s'"
    if "?kept s'" for k v s' c
    using step [OF host_inc_sstore_clears that] that by (cases c) (auto simp only: if_True if_False wp_ok intro: set wp_mono)
  have "?kept (popped 2 s)" using r(3) by (intro exI [of _ "ex_ext s"]) simp
  then have "wp (on_ext (ext_storage_at X k)) (\<lambda>c. wp (if c \<noteq> 0 \<and> v = 0 then on_ext (ext_inc_sstore_clears X) else ok ())
     (\<lambda>_. wp (on_ext (ext_set_storage X k v)) (\<lambda>_. effect X hinv SSTORE s) (\<lambda>_. host_kept X hinv s)) (\<lambda>_. host_kept X hinv s))
     (\<lambda>_. host_kept X hinv s) (popped (Suc 1) s)" for k v
    unfolding Suc_1 by (rule wp_mono [OF step [OF host_storage_at]]) (rule clear)
  then show ?thesis
    using r(1) by (simp add: exec_sstore_def wp_and_then pop_rules)
qed

end

end
