(* ===== verification/Interp_Calls.thy ===== *)
theory Interp_Calls
  imports Interp_Instr
begin

text \<open>
  Contract creation and message calls, and with them the lemma \<open>instruction_safe\<close> for all instructions: the gas
  handed back by a child is at most what it was given, plus the stipend.
\<close>

section \<open>Handlers step by step\<close>

text \<open>
  In the middle of an instruction that has popped \<open>k\<close> operands: host and return data may have changed, memory
  has kept its size.
\<close>

definition midway :: "'e ext_ops \<Rightarrow> ('e \<Rightarrow> bool) \<Rightarrow> nat \<Rightarrow> 'e Exec \<Rightarrow> 'e Exec \<Rightarrow> bool" where
  "midway X hinv k s s' \<longleftrightarrow> host_kept X hinv s s' \<and> wf_return_data (ex_return_data s')
     \<and> length (ex_mem s') = length (ex_mem s) \<and> ex_position s' = ex_position s
     \<and> ex_stack s' = (ex_stack s)\<lparr>st_items := take (length (items s) - k) (items s)\<rparr>"

lemma midway_start: "hinv (ex_ext s) \<Longrightarrow> wf_return_data (ex_return_data s) \<Longrightarrow> midway X hinv 0 s s"
  by (simp add: midway_def host_kept_def)

lemma midway_return_data: "midway X hinv k s s' \<Longrightarrow> wf_return_data rd \<Longrightarrow> midway X hinv k s (s'\<lparr>ex_return_data := rd\<rparr>)"
  by (simp add: midway_def host_kept_def)

lemma midway_mem: "midway X hinv k s s' \<Longrightarrow> length m = length (ex_mem s) \<Longrightarrow> midway X hinv k s (s'\<lparr>ex_mem := m\<rparr>)"
  by (simp add: midway_def host_kept_def)

lemma midway_ext:
  "midway X hinv k s s' \<Longrightarrow> hinv e \<Longrightarrow> same_env X (ex_ext s') e \<Longrightarrow> midway X hinv k s (s'\<lparr>ex_ext := e\<rparr>)"
  by (auto simp: midway_def host_kept_def intro: same_env_trans)

lemma midway_kept: "midway X hinv k s s' \<Longrightarrow> host_kept X hinv s s'"
  by (simp add: midway_def)

lemma midway_D: "midway X hinv k s s' \<Longrightarrow>
    hinv (ex_ext s') \<and> same_env X (ex_ext s) (ex_ext s') \<and> length (ex_mem s') = length (ex_mem s)"
  by (simp add: midway_def host_kept_def)

lemma midway_push:
  assumes "midway X hinv k s s'" "wf_stack (ex_stack s)" "k \<le> length (items s)" "\<not> is_push i"
    and "info_args (INSTRUCTIONS i) = k" "info_ret (INSTRUCTIONS i) = 1"
  shows "effect X hinv i s (s'\<lparr>ex_stack := (ex_stack s')\<lparr>st_items := items s' @ [x]\<rparr>\<rparr>)"
  using assms by (auto simp: midway_def effect_def host_kept_def stack_delta_def instruction_length_def min_absorb2)

lemma midway_end:
  assumes "midway X hinv k s s'" "wf_stack (ex_stack s)" "k \<le> length (items s)" "\<not> is_push i"
    and "info_args (INSTRUCTIONS i) = k" "info_ret (INSTRUCTIONS i) = 0"
  shows "effect X hinv i s s'"
  using assms by (auto simp: midway_def effect_def host_kept_def stack_delta_def instruction_length_def min_absorb2)

lemma midway_pop:
  assumes "midway X hinv k s s'" "Suc k \<le> length (items s)"
    and "\<And>s''. midway X hinv (Suc k) s s'' \<Longrightarrow> ex_mem s'' = ex_mem s' \<Longrightarrow> Q (arg (ex_stack s) k) s''"
  shows "wp pop Q R s'"
proof -
  have st: "ex_stack s' = ex_stack (popped k s)" using assms(1) by (simp add: midway_def popped_def)
  have "midway X hinv (Suc k) s (popped 1 s')"
    using assms(1) st by (simp add: midway_def host_kept_def popped_def min_absorb1 min_absorb2)
  moreover have "Suc 0 \<le> length (items s')" "arg (ex_stack s') 0 = arg (ex_stack s) k"
    using assms(2) st by (simp_all add: arg_popped)
  ultimately show ?thesis using assms(3) by (simp add: wp_pop_first)
qed

text \<open>The weakest preconditions as introduction rules, for going through a handler step by step.\<close>

lemma wp_seqI: "wp m (\<lambda>a. wp (f a) Q R) R s \<Longrightarrow> wp (and_then m f) Q R s"
  by (simp add: wp_and_then)

lemma wp_liftI: "r = Ok a \<Longrightarrow> Q a s \<Longrightarrow> wp (lift r) Q R s"
  by (simp add: wp_lift)

lemma wp_getsI: "Q (f s) s \<Longrightarrow> wp (gets f) Q R s"
  by (simp add: wp_gets)

lemma wp_okI: "Q a s \<Longrightarrow> wp (ok a) Q R s"
  by (simp add: wp_ok)

lemma wp_failI: "R e s \<Longrightarrow> wp (fail e) Q R s"
  by (simp add: wp_fail)

lemma wp_set_return_dataI: "Q () (s\<lparr>ex_return_data := rd\<rparr>) \<Longrightarrow> wp (set_return_data rd) Q R s"
  by (simp add: wp_set_return_data)

lemma wp_read_memI: "f (ex_mem s) = Ok a \<Longrightarrow> Q a s \<Longrightarrow> wp (read_mem f) Q R s"
  by (simp add: wp_read_mem)

lemma wp_modifyI: "Q () (f s) \<Longrightarrow> wp (modify f) Q R s"
  by (simp add: wp_modify)

context ext_host
begin

lemma midway_on_ext:
  assumes "midway X hinv k s s'" "host_op X hinv m P"
    and "\<And>a s''. midway X hinv k s s'' \<Longrightarrow> ex_mem s'' = ex_mem s' \<Longrightarrow> P a \<Longrightarrow> Q a s''"
    and "\<And>e s''. host_kept X hinv s s'' \<Longrightarrow> R e s''"
  shows "wp (on_ext m) Q R s'"
proof -
  have "hinv (ex_ext s')" using midway_D [OF assms(1)] by simp
  from assms(2) this show ?thesis
    by (rule on_ext_rule) (auto intro!: assms(3,4) midway_ext [OF assms(1)] midway_kept [OF midway_ext [OF assms(1)]])
qed

end

definition stipend :: "Schedule \<Rightarrow> instruction \<Rightarrow> u256 VecStack \<Rightarrow> nat" where
  "stipend sch i st = (if (i = CALL \<or> i = CALLCODE) \<and> arg st 2 \<noteq> 0 then call_stipend sch else 0)"

lemma min_price_eq: "min_price sch i st = (if halts i then 0 else stipend sch i st + 1)"
  by (auto simp: min_price_def stipend_def halts_def)

text \<open>What the result of an instruction says about gas and control flow.\<close>

definition result_ok ::
  "('g \<Rightarrow> nat) \<Rightarrow> Schedule \<Rightarrow> instruction \<Rightarrow> u256 VecStack \<Rightarrow> 'g \<Rightarrow> 'g option \<Rightarrow> 'g InstructionResult \<Rightarrow> bool" where
  "result_ok val sch i st gas provided r = (case r of
       Continue \<Rightarrow> \<not> halts i
     | UnusedGas g \<Rightarrow> \<not> halts i \<and> (\<exists>p. provided = Some p \<and> val g \<le> val p + stipend sch i st)
     | JumpToPosition _ \<Rightarrow> \<not> halts i
     | StopExecutionNeedsReturn g off sz _ \<Rightarrow> halts i \<and> g = gas \<and> (off, sz) \<in> set (mem_ranges i st)
     | StopExecution \<Rightarrow> halts i)"

context machine
begin

lemma expect_gas_le:
  assumes "left \<le> as_u256 C p"
  shows "expect_gas C left = Ok (mk (unat left))" "val (mk (unat left)) \<le> val p"
proof -
  have "unat left \<le> val p" using assms unat_as_u256 [of p] by (simp add: word_le_nat_alt)
  moreover from this have "unat left < 2 ^ W" using val_less [of p] by linarith
  ultimately show "expect_gas C left = Ok (mk (unat left))" "val (mk (unat left)) \<le> val p"
    by (simp_all add: expect_gas_def from_u256)
qed

abbreviation done_ok :: "Schedule \<Rightarrow> instruction \<Rightarrow> 'e Exec \<Rightarrow> 'g \<Rightarrow> 'g option \<Rightarrow> 'g InstructionResult \<Rightarrow> 'e Exec \<Rightarrow> bool" where
  "done_ok sch i s gas provided r s' \<equiv> effect X hinv i s s' \<and> result_ok val sch i (ex_stack s) gas provided r"

text \<open>A child context has ended: its result is pushed and the gas it left is handed back.\<close>

lemma child_done:
  assumes "midway X hinv k s s'" "wf_stack (ex_stack s)" "k \<le> length (items s)" "\<not> is_push i"
    and "info_args (INSTRUCTIONS i) = k" "info_ret (INSTRUCTIONS i) = 1" "\<not> halts i"
    and "provided = Some p" "val g \<le> val p + stipend sch i (ex_stack s)"
  shows "left \<le> as_u256 C g \<Longrightarrow> wp (and_then (push_val x) (\<lambda>_. and_then (lift (expect_gas C left)) (\<lambda>g. ok (UnusedGas g))))
      (done_ok sch i s gas provided) (\<lambda>_. host_kept X hinv s) s'"
    and "left \<le> as_u256 C g \<Longrightarrow> wf_return_data rd \<Longrightarrow>
      wp (and_then (push_val x) (\<lambda>_. and_then (set_return_data rd) (\<lambda>_.
        and_then (lift (expect_gas C left)) (\<lambda>g. ok (UnusedGas g))))) (done_ok sch i s gas provided) (\<lambda>_. host_kept X hinv s) s'"
    and "wp (and_then (push_val x) (\<lambda>_. ok (UnusedGas g))) (done_ok sch i s gas provided) (\<lambda>_. host_kept X hinv s) s'"
    and "wp (and_then (push_val x) (\<lambda>_. ok Continue)) (done_ok sch i s gas provided) (\<lambda>_. host_kept X hinv s) s'"
proof -
  note push = midway_push [OF assms(1-6)]
  have r: "result_ok val sch i (ex_stack s) gas provided (UnusedGas h)" if "val h \<le> val g" for h
    using that assms(7-9) by (auto simp: result_ok_def)
  have rd: "effect X hinv i s (t\<lparr>ex_return_data := rd\<rparr>)" if "effect X hinv i s t" "wf_return_data rd" for t
    using that by (simp add: effect_def host_kept_def)
  show "wp (and_then (push_val x) (\<lambda>_. and_then (lift (expect_gas C left)) (\<lambda>g. ok (UnusedGas g))))
      (done_ok sch i s gas provided) (\<lambda>_. host_kept X hinv s) s'" if "left \<le> as_u256 C g"
    using push expect_gas_le [OF that] r by (simp add: wp_simps)
  show "wp (and_then (push_val x) (\<lambda>_. and_then (set_return_data rd) (\<lambda>_.
        and_then (lift (expect_gas C left)) (\<lambda>g. ok (UnusedGas g))))) (done_ok sch i s gas provided) (\<lambda>_. host_kept X hinv s) s'"
    if "left \<le> as_u256 C g" "wf_return_data rd"
    using push expect_gas_le [OF that(1)] r rd that(2) by (simp add: wp_simps)
  show "wp (and_then (push_val x) (\<lambda>_. ok (UnusedGas g))) (done_ok sch i s gas provided) (\<lambda>_. host_kept X hinv s) s'"
    using push r by (simp add: wp_simps)
  show "wp (and_then (push_val x) (\<lambda>_. ok Continue)) (done_ok sch i s gas provided) (\<lambda>_. host_kept X hinv s) s'"
    using push assms(7) by (simp add: wp_simps result_ok_def)
qed

lemma create_safe:
  assumes "ready hinv params code i s" "i = CREATE \<or> i = CREATE2" "provided = Some p"
  shows "wp (exec_create C X params i provided) (done_ok sch i s gas provided) (\<lambda>_. host_kept X hinv s) s"
proof -
  let ?st = "ex_stack s"
  have r: "3 \<le> length (items s)" "wf_stack ?st" "hinv (ex_ext s)" "wf_return_data (ex_return_data s)"
    "in_mem (length (ex_mem s)) (arg ?st 1) (arg ?st 2)" "vec_ok (ex_mem s)"
    using assms(1,2) by (auto simp: ready_def INSTRUCTIONS_simps mem_ranges_def)
  have i: "info_args (INSTRUCTIONS i) = 3" "info_ret (INSTRUCTIONS i) = 1" "\<not> is_push i" "\<not> halts i"
    using assms(2) by (auto simp: INSTRUCTIONS_simps is_push_def halts_def)
  have le: "val p \<le> val p + stipend sch i ?st" by simp
  note fin = child_done [OF _ r(2,1) i(3,1,2,4) assms(3) le]
  have start: "midway X hinv 0 s s" using r(3,4) by (rule midway_start)
  have three: "Suc (Suc (Suc 0)) = 3" by simp
  show ?thesis
    unfolding exec_create_def
    apply (rule wp_seqI, rule midway_pop [OF start], use r(1) in simp)
    apply (rule wp_seqI, rule midway_pop, assumption, use r(1) in simp)
    apply (rule wp_seqI, rule midway_pop, assumption, use r(1) in simp)
    apply (rule wp_seqI, rule wp_liftI [where a = p], simp add: expect_def assms(3))
    apply (rule wp_seqI, rule wp_getsI, rule wp_ifI, rule wp_failI, erule midway_kept)
    apply (rule wp_seqI, rule wp_set_return_dataI)
    apply (rule wp_seqI, rule midway_on_ext [OF midway_return_data [OF _ wf_rd_empty] host_balance], assumption)
     apply (rule wp_seqI, rule wp_getsI, rule wp_ifI)
      apply (rule fin(3), simp add: three)
     apply (rule wp_seqI, rule wp_read_memI, rule mem_read_slice_ok)
       apply (use r(5,6) in \<open>simp_all add: vec_ok_def numeral_2_eq_2\<close>)[2]
     apply (unfold Let_def)
     apply (rule wp_seqI, rule midway_on_ext [OF _ host_create], assumption)
      subgoal premises prems for s1 s2 s3 bal s4 res s5
        using prems fin unfolding three by (cases res) simp_all
      apply assumption
     apply assumption
    done
qed

end

section \<open>Message calls\<close>

context machine
begin

lemma finish_call_safe:
  assumes "midway X hinv k s s'" "wf_stack (ex_stack s)" "k \<le> length (items s)" "\<not> is_push i"
    and "info_args (INSTRUCTIONS i) = k" "info_ret (INSTRUCTIONS i) = 1" "\<not> halts i"
    and "provided = Some p" "val g \<le> val p + stipend sch i (ex_stack s)"
    and "in_mem (length (ex_mem s)) in_off in_size" "in_mem (length (ex_mem s)) out_off out_size" "vec_ok (ex_mem s)"
  shows "wp (finish_call C X g sender rcv v in_off in_size ca out_off out_size ct)
    (done_ok sch i s gas provided) (\<lambda>_. host_kept X hinv s) s'"
proof -
  note fin = child_done [OF _ assms(2-9)]
  have len: "length (ex_mem s') = length (ex_mem s)" using midway_D [OF assms(1)] by simp
  then have m: "vec_ok (ex_mem s')" "in_mem (length (ex_mem s')) in_off in_size" "in_mem (length (ex_mem s')) out_off out_size"
    using assms(10-12) by (simp_all add: vec_ok_def)
  let ?start = "if out_size = 0 then 0 else unat out_off" and ?out = "mem_bytes (ex_mem s') out_off out_size"
  have out: "?start + length ?out \<le> length (ex_mem s')"
    using m(3) by (auto simp: length_mem_bytes in_mem_def)
  show ?thesis
    unfolding finish_call_def
    apply (rule wp_seqI, rule wp_read_memI, rule mem_read_slice_ok [OF m(2,1)])
    apply (rule wp_seqI, rule wp_read_memI, rule mem_writeable_slice_ok [OF m(3,1)])
    apply (simp only: prod.case)
    apply (rule wp_seqI, rule midway_on_ext [OF assms(1) host_call])
     subgoal premises prems for res s1
     proof -
       obtain r out' where res: "res = (r, out')" by (cases res)
       have "midway X hinv k s (s1\<lparr>ex_mem := splice (ex_mem s1) ?start out'\<rparr>)"
         using prems res out len by (intro midway_mem) simp_all
       from fin [OF this] prems(3) res show ?thesis
         by (cases r) (auto intro!: wp_seqI wp_modifyI simp: wp_modify wp_and_then [symmetric])
     qed
    apply assumption
    done
qed

text \<open>The operands of a message call after the code address: the position of the input offset.\<close>

definition call_in :: "instruction \<Rightarrow> nat" where
  "call_in i = (if i = CALL \<or> i = CALLCODE then 3 else 2)"

lemma call_value_safe:
  assumes "midway X hinv 2 s s'" "3 \<le> length (items s)" "i = CALL \<or> i = CALLCODE \<or> i = DELEGATECALL \<or> i = STATICCALL"
    and "\<And>v s''. midway X hinv (call_in i) s s'' \<Longrightarrow> ex_mem s'' = ex_mem s' \<Longrightarrow>
      (i = CALL \<or> i = CALLCODE \<Longrightarrow> v = Some (arg (ex_stack s) 2)) \<Longrightarrow>
      (i = DELEGATECALL \<or> i = STATICCALL \<Longrightarrow> v = None \<or> v = Some 0) \<Longrightarrow> Q v s''"
  shows "wp (if i = DELEGATECALL then ok None else if i = STATICCALL then ok (Some 0) else and_then pop (\<lambda>v. ok (Some v))) Q R s'"
proof (cases "i = CALL \<or> i = CALLCODE")
  case True
  have "wp pop (\<lambda>v. Q (Some v)) R s'"
    by (rule midway_pop [OF assms(1)]) (use assms(2) True in \<open>auto intro!: assms(4) simp: call_in_def\<close>)
  with True show ?thesis by (auto simp: wp_simps)
next
  case False
  with assms(1,3) show ?thesis by (auto simp: wp_simps call_in_def intro!: assms(4))
qed

lemma call_context_safe:
  assumes "midway X hinv k s s'" "i = CALL \<or> i = CALLCODE \<or> i = DELEGATECALL \<or> i = STATICCALL"
    and "i = CALL \<or> i = CALLCODE \<Longrightarrow> v \<noteq> None"
    and "\<And>c s''. midway X hinv k s s'' \<Longrightarrow> Q c s''" "\<And>e s''. host_kept X hinv s s'' \<Longrightarrow> R e s''"
  shows "wp (call_context X params i v ca) Q R s'"
proof -
  have bal: "wp (on_ext (ext_balance X a)) (\<lambda>b. wp (lift (expect v)) (\<lambda>x. Q (f b x)) R) R s'" if "v \<noteq> None" for a f
  proof -
    from that obtain y where "v = Some y" by blast
    then show ?thesis
      by (intro midway_on_ext [OF assms(1) host_balance]) (simp_all add: wp_lift expect_def assms(4,5))
  qed
  show ?thesis
    using assms(2,3) bal [unfolded wp_lift] midway_kept [OF assms(1)] assms(4) [OF assms(1)] assms(5)
    unfolding call_context_def by (auto simp: wp_simps split: if_splits)
qed

lemma call_safe:
  assumes "ready hinv params code i s" "i = CALL \<or> i = CALLCODE \<or> i = DELEGATECALL \<or> i = STATICCALL" "provided = Some p"
    and "val p + stipend (ext_schedule X (ex_ext s)) i (ex_stack s) < 2 ^ W"
  shows "wp (exec_call C X params i provided) (done_ok (ext_schedule X (ex_ext s)) i s gas provided) (\<lambda>_. host_kept X hinv s) s"
proof -
  let ?st = "ex_stack s" and ?sch = "ext_schedule X (ex_ext s)" and ?k = "call_in i"
  have i: "info_args (INSTRUCTIONS i) = ?k + 4" "info_ret (INSTRUCTIONS i) = 1" "\<not> is_push i" "\<not> halts i"
    using assms(2) by (auto simp: INSTRUCTIONS_simps is_push_def halts_def call_in_def)
  have r: "?k + 4 \<le> length (items s)" "wf_stack ?st" "hinv (ex_ext s)" "wf_return_data (ex_return_data s)"
    "in_mem (length (ex_mem s)) (arg ?st ?k) (arg ?st (Suc ?k))"
    "in_mem (length (ex_mem s)) (arg ?st (Suc (Suc ?k))) (arg ?st (Suc (Suc (Suc ?k))))" "vec_ok (ex_mem s)"
    using assms(1,2) i(1) by (auto simp: ready_def mem_ranges_def call_in_def)
  have k2: "2 \<le> ?k" by (simp add: call_in_def)
  have start: "midway X hinv 0 s s" using r(3,4) by (rule midway_start)
  have sch: "wf_schedule ?sch" using host_schedule [OF r(3)] .
  then have cs: "call_stipend ?sch < call_value_transfer_gas ?sch" "call_stipend ?sch < usize_range"
    using wf_schedule_extra [OF sch, of "call_stipend ?sch"] by (auto simp: wf_schedule_def extra_prices_def)
  have four: "Suc (Suc (Suc (Suc ?k))) = ?k + 4" by simp
  have add: "cost_add C p (case v of None \<Rightarrow> cost_from C 0 | Some v \<Rightarrow>
      if v \<noteq> 0 then cost_from C (call_stipend ?sch) else cost_from C 0) = Ok (mk (val p + stipend ?sch i ?st))"
    if "i = CALL \<or> i = CALLCODE \<Longrightarrow> v = Some (arg ?st 2)" "i = DELEGATECALL \<or> i = STATICCALL \<Longrightarrow> v = None \<or> v = Some 0" for v
    using that assms(2,4) cs(2) by (auto simp: cost_add stipend_def)
  show ?thesis
    unfolding exec_call_def
    apply (rule wp_seqI, rule wp_getsI)
    apply (simp only: cs(1) not_True_eq_False if_False)
    apply (rule wp_seqI, rule midway_pop [OF start], use r(1) in simp)
    apply (rule wp_seqI, rule wp_liftI [where a = p], simp add: expect_def assms(3))
    apply (rule wp_seqI, rule midway_pop, assumption, use r(1) k2 in simp)
    apply (unfold Let_def)
    apply (rule wp_seqI, rule call_value_safe [OF _ _ assms(2)], simp only: Suc_1 One_nat_def [symmetric], use r(1) k2 in simp)
    apply (rule wp_seqI, rule midway_pop, assumption, use r(1) in simp)+
    apply (rule wp_seqI, rule wp_liftI, rule add, assumption, assumption)
    apply (rule wp_seqI, rule call_context_safe, assumption, rule assms(2), blast)
     apply (simp only: split_beta)
     apply (rule wp_seqI, rule wp_set_return_dataI)
     apply (rule wp_seqI, rule wp_getsI, rule wp_ifI)
      apply (rule child_done(3) [OF midway_return_data [OF _ wf_rd_empty] r(2,1) i(3,1,2,4) assms(3)], simp only: four, simp add: assms(4))
     apply (rule finish_call_safe [OF midway_return_data [OF _ wf_rd_empty] r(2,1) i(3,1,2,4) assms(3) _ r(5,6,7)], simp only: four,
       simp add: assms(4))
    apply assumption
    done
qed

end

section \<open>All instructions\<close>

context machine
begin

lemma stack_instruction_safe:
  assumes "ready hinv params code i s" "\<not> is_push i"
  shows "wp (on_stack (exec_stack_instruction i)) (\<lambda>_. effect X hinv i s) (\<lambda>_. host_kept X hinv s) s"
  unfolding wp_on_stack
  by (rule wp_mono [OF exec_stack_instruction_safe])
    (use assms in \<open>simp_all add: ready_def effect_def host_kept_def instruction_length_def\<close>)

lemma environment_instruction_safe:
  assumes "ready hinv params code i s" "\<not> is_push i"
  shows "wp (exec_environment_instruction C X params code gas i) (\<lambda>_. effect X hinv i s) (\<lambda>_. host_kept X hinv s) s"
proof -
  consider "i \<in> {PC, GAS, ADDRESS, ORIGIN, CALLER, CALLVALUE, CALLDATASIZE, CODESIZE, RETURNDATASIZE, GASPRICE, COINBASE,
      TIMESTAMP, NUMBER, DIFFICULTY, GASLIMIT}" | "i \<in> {BALANCE, EXTCODESIZE, BLOCKHASH}" | "i = CALLDATALOAD"
    | "i = CALLDATACOPY \<or> i = CODECOPY \<or> i = RETURNDATACOPY" | "i = EXTCODECOPY"
    | "i \<notin> {PC, GAS, ADDRESS, ORIGIN, CALLER, CALLVALUE, CALLDATASIZE, CODESIZE, RETURNDATASIZE, GASPRICE, COINBASE,
      TIMESTAMP, NUMBER, DIFFICULTY, GASLIMIT, BALANCE, EXTCODESIZE, BLOCKHASH, CALLDATALOAD, CALLDATACOPY, CODECOPY,
      RETURNDATACOPY, EXTCODECOPY}" by blast
  then show ?thesis
  proof cases
    case 1
    from env_push_safe [OF assms(1) this] show ?thesis .
  next
    case 2
    from env_query_safe [OF assms(1) this] show ?thesis .
  next
    case 3
    with calldataload_safe assms(1) show ?thesis by simp
  next
    case 4
    from copies_safe [OF assms(1) this] show ?thesis .
  next
    case 5
    with extcodecopy_safe assms(1) show ?thesis by simp
  next
    case 6
    then show ?thesis using stack_instruction_safe [OF assms] by (simp add: exec_environment_instruction_def)
  qed
qed

lemma continue_safe:
  assumes "wp m (\<lambda>_. effect X hinv i s) (\<lambda>_. host_kept X hinv s) s" "\<not> halts i"
  shows "wp (and_then m (\<lambda>_. ok Continue)) (done_ok sch i s gas provided) (\<lambda>_. host_kept X hinv s) s"
  using assms by (auto simp: wp_and_then wp_ok result_ok_def elim!: wp_mono)

text \<open>Jumps and the instructions that end the execution.\<close>

lemma control_safe:
  assumes "ready hinv params code i s" "i \<in> {JUMP, JUMPI, JUMPDEST, RETURN, REVERT, STOP, SUICIDE}"
  shows "wp (exec_instruction C X keccak code gas params i provided) (done_ok sch i s gas provided) (\<lambda>_. host_kept X hinv s) s"
proof -
  have l: "instruction_length i = 1" using assms(2) by (auto simp: instruction_length_def is_push_def)
  have r: "hinv (ex_ext s)" "wf_stack (ex_stack s)" "wf_return_data (ex_return_data s)"
    "info_args (INSTRUCTIONS i) \<le> length (items s)" using assms(1) by (auto simp: ready_def)
  have su: "wp (on_ext (ext_suicide X a)) (\<lambda>_ s'. done_ok sch SUICIDE s gas provided StopExecution s') (\<lambda>_. host_kept X hinv s) (popped 1 s)"
    if "i = SUICIDE" for a
    by (rule on_ext_rule [OF host_suicide]) (use r l that in \<open>auto simp: effect_def host_kept_def stack_delta_def
      INSTRUCTIONS_simps result_ok_def halts_def min_absorb2\<close>)
  from assms(2) consider "i = JUMP" | "i = JUMPI" | "i = JUMPDEST" | "i = RETURN" | "i = REVERT" | "i = STOP" | "i = SUICIDE" by auto
  then show ?thesis
    by cases (use r l su in \<open>auto simp: exec_instruction_def wp_simps pop_rules INSTRUCTIONS_simps effect_def host_kept_def
      stack_delta_def result_ok_def halts_def mem_ranges_def min_absorb2\<close>)
qed

lemma instruction_safe:
  assumes "ready hinv params code i s" "starts_child i \<Longrightarrow> provided \<noteq> None"
    and "\<And>p. provided = Some p \<Longrightarrow> val p + stipend (ext_schedule X (ex_ext s)) i (ex_stack s) < 2 ^ W"
  shows "wp (exec_instruction C X keccak code gas params i provided)
    (done_ok (ext_schedule X (ex_ext s)) i s gas provided) (\<lambda>_. host_kept X hinv s) s"
proof (cases "i \<in> {JUMP, JUMPI, JUMPDEST, RETURN, REVERT, STOP, SUICIDE}")
  case True
  from control_safe [OF assms(1) this] show ?thesis .
next
  case False
  then have nh: "\<not> halts i" by (auto simp: halts_def)
  show ?thesis
  proof (cases "starts_child i")
    case True
    then obtain p where p: "provided = Some p" using assms(2) by blast
    from True consider "i = CREATE \<or> i = CREATE2" | "i = CALL \<or> i = CALLCODE \<or> i = DELEGATECALL \<or> i = STATICCALL"
      by (auto simp: starts_child_def)
    then show ?thesis
    proof cases
      case 1
      with create_safe [OF assms(1) 1 p] show ?thesis by (auto simp: exec_instruction_def)
    next
      case 2
      with call_safe [OF assms(1) 2 p assms(3) [OF p]] show ?thesis by (auto simp: exec_instruction_def)
    qed
  next
    case nc: False
    have "exec_instruction C X keccak code gas params i provided = and_then
        (if LOG0 \<le> i \<and> i \<le> LOG4 then exec_log X i
         else if PUSH1 \<le> i \<and> i \<le> PUSH32 then
           and_then (lift (get_push_bytes i)) (\<lambda>bytes. and_then (reader_read code bytes) push_val)
         else if i = MLOAD \<or> i = MSTORE \<or> i = MSTORE8 \<or> i = MSIZE \<or> i = SHA3 then exec_memory_instruction keccak i
         else if i = SLOAD then and_then pop (\<lambda>key. and_then (on_ext (ext_storage_at X key)) push_val)
         else if i = SSTORE then exec_sstore X
         else exec_environment_instruction C X params code gas i) (\<lambda>_. ok Continue)"
      using False nc unfolding exec_instruction_def starts_child_def
      by (simp only: insert_iff empty_iff de_Morgan_disj if_False simp_thms)
    then show ?thesis
      by (simp only:) (intro continue_safe [OF _ nh] wp_ifI log_safe [OF assms(1)] push_safe [OF assms(1)]
        memory_instruction_safe [OF assms(1)] environment_instruction_safe [OF assms(1)];
        use assms(1) sload_safe sstore_safe in \<open>auto simp: is_push_def\<close>)
  qed
qed

end

end
