(* ===== verification/Interp_Loop.thy ===== *)
theory Interp_Loop
  imports Interp_Calls
begin

text \<open>
  The execution loop: its invariant \<open>frame_ok\<close>, one iteration, termination because gas decreases, and the
  resulting contract of \<open>exec\<close>.
\<close>

section \<open>Verification and tracing\<close>

abbreviation fr_ext :: "('g, 'e, 'c) Frame \<Rightarrow> 'e" where
  "fr_ext s \<equiv> ex_ext (fr_exec s)"

abbreviation fr_mem :: "('g, 'e, 'c) Frame \<Rightarrow> bytes" where
  "fr_mem s \<equiv> ex_mem (fr_exec s)"

abbreviation fr_stack :: "('g, 'e, 'c) Frame \<Rightarrow> u256 VecStack" where
  "fr_stack s \<equiv> ex_stack (fr_exec s)"

lemma wp_in_exec:
  "wp (in_exec m) Q R = (\<lambda>s. wp m (\<lambda>a x. Q a (s\<lparr>fr_exec := x\<rparr>)) (\<lambda>err x. R err (s\<lparr>fr_exec := x\<rparr>)) (fr_exec s))"
  by (simp add: in_exec_def wp_zoom)

lemma wp_in_cache:
  "wp (in_cache m) Q R = (\<lambda>s. wp m (\<lambda>a x. Q a (s\<lparr>fr_cache := x\<rparr>)) (\<lambda>err x. R err (s\<lparr>fr_cache := x\<rparr>)) (fr_cache s))"
  by (simp add: in_cache_def wp_zoom)

lemma wp_stateI: "f s = Ok a \<Longrightarrow> Q a s \<Longrightarrow> wp (\<lambda>s. (f s, s)) Q R s"
  by (simp add: wp_def)

lemma wp_applyI: "wp (m s) Q R s \<Longrightarrow> wp (\<lambda>s. m s s) Q R s"
  by (simp add: wp_def)

lemma verify_instruction_sound:
  assumes "length (st_items st) \<le> stack_limit sch"
  shows "sound (verify_instruction sch i info st)
    (\<lambda>_. info_tier info \<noteq> Invalid \<and> info_args info \<le> length (st_items st)
       \<and> length (st_items st) - info_args info + info_ret info \<le> stack_limit sch)"
  using assms by (auto simp: verify_instruction_def has_def size_of_def)

lemma low_range:
  assumes "in_mem n off sz" "n < 2 ^ 63" "is_valid_range (low_u64 off) (low_u64 sz)"
  shows "low_u64 off + low_u64 sz \<le> n"
proof -
  have "sz \<noteq> 0" using assms(3) by (auto simp: is_valid_range_def low_u64_def)
  then have "unat off + unat sz \<le> n" using assms(1) by (simp add: in_mem_def)
  moreover from this assms(2) have "low_u64 off = unat off" "low_u64 sz = unat sz" by simp_all
  ultimately show ?thesis by simp
qed

lemma mem_written_sound:
  assumes "info_args (INSTRUCTIONS i) \<le> length (st_items st)"
    and "\<forall>(off, sz) \<in> set (mem_ranges i st). in_mem n off sz" "n < 2 ^ 63"
  shows "sound (mem_written i st) (\<lambda>mw. \<forall>off sz. mw = Some (off, sz) \<longrightarrow> off + sz \<le> n)"
proof -
  have low: "low_u64 (32 :: u256) = 32" "low_u64 (1 :: u256) = 1" by (simp_all add: low_u64_def)
  have args: "n \<le> length (st_items st)" if "info_args (INSTRUCTIONS i) = n" for n using assms(1) that by simp
  have rng: "in_mem n off sz" if "(off, sz) \<in> set (mem_ranges i st)" for off sz using assms(2) that by blast
  have done1: ?thesis if "mem_written i st = (if is_valid_range (low_u64 off) (low_u64 sz)
      then Ok (Some (low_u64 off, low_u64 sz)) else Ok None)" "(off, sz) \<in> set (mem_ranges i st)" for off sz
    using that(1) low_range [OF rng [OF that(2)] assms(3)] by simp
  consider "i = MSTORE" | "i = MLOAD" | "i = MSTORE8" | "i = CALLDATACOPY \<or> i = CODECOPY \<or> i = RETURNDATACOPY"
    | "i = EXTCODECOPY" | "i = CALL \<or> i = CALLCODE" | "i = DELEGATECALL \<or> i = STATICCALL"
    | "i \<notin> {MSTORE, MLOAD, MSTORE8, CALLDATACOPY, CODECOPY, RETURNDATACOPY, EXTCODECOPY, CALL, CALLCODE, DELEGATECALL,
        STATICCALL}" by blast
  then show ?thesis
  proof cases
    case 1
    have l: "2 \<le> length (st_items st)" by (rule args) (use 1 in \<open>auto simp: INSTRUCTIONS_simps\<close>)
    show ?thesis by (rule done1 [of "arg st 0" "32"]) (use 1 in \<open>auto simp: mem_written_def Let_def peek_arg [OF l] low mem_ranges_def\<close>)
  next
    case 2
    have l: "1 \<le> length (st_items st)" by (rule args) (use 2 in \<open>auto simp: INSTRUCTIONS_simps\<close>)
    show ?thesis by (rule done1 [of "arg st 0" "32"]) (use 2 in \<open>auto simp: mem_written_def Let_def peek_arg [OF l] low mem_ranges_def\<close>)
  next
    case 3
    have l: "2 \<le> length (st_items st)" by (rule args) (use 3 in \<open>auto simp: INSTRUCTIONS_simps\<close>)
    show ?thesis by (rule done1 [of "arg st 0" "1"]) (use 3 in \<open>auto simp: mem_written_def Let_def peek_arg [OF l] low mem_ranges_def\<close>)
  next
    case 4
    have l: "3 \<le> length (st_items st)" by (rule args) (use 4 in \<open>auto simp: INSTRUCTIONS_simps\<close>)
    show ?thesis by (rule done1 [of "arg st 0" "arg st 2"]) (insert 4, elim disjE; simp add: mem_written_def Let_def peek_arg [OF l] mem_ranges_def)+
  next
    case 5
    have l: "4 \<le> length (st_items st)" by (rule args) (use 5 in \<open>auto simp: INSTRUCTIONS_simps\<close>)
    show ?thesis by (rule done1 [of "arg st 1" "arg st 3"]) (use 5 in \<open>auto simp: mem_written_def Let_def peek_arg [OF l] low mem_ranges_def\<close>)
  next
    case 6
    have l: "7 \<le> length (st_items st)" by (rule args) (use 6 in \<open>auto simp: INSTRUCTIONS_simps\<close>)
    show ?thesis by (rule done1 [of "arg st 5" "arg st 6"]) (insert 6, elim disjE; simp add: mem_written_def Let_def peek_arg [OF l] mem_ranges_def)+
  next
    case 7
    have l: "6 \<le> length (st_items st)" by (rule args) (use 7 in \<open>auto simp: INSTRUCTIONS_simps\<close>)
    show ?thesis by (rule done1 [of "arg st 4" "arg st 5"]) (insert 7, elim disjE; simp add: mem_written_def Let_def peek_arg [OF l] mem_ranges_def)+
  next
    case 8
    then show ?thesis by (simp add: mem_written_def Let_def)
  qed
qed

lemma store_written_sound:
  assumes "info_args (INSTRUCTIONS i) \<le> length (st_items st)"
  shows "sound (store_written i st) (\<lambda>_. True)"
proof (cases "i = SSTORE")
  case True
  then have "2 \<le> length (st_items st)" using assms by (simp add: INSTRUCTIONS_simps)
  note pk = peek_arg [OF this]
  with True show ?thesis by (simp add: store_written_def)
qed (simp add: store_written_def)

section \<open>The invariant of the loop\<close>

definition frame_ok ::
  "('g \<Rightarrow> nat) \<Rightarrow> 'e ext_ops \<Rightarrow> ('e \<Rightarrow> bool) \<Rightarrow> ('c \<Rightarrow> bool) \<Rightarrow> bytes \<Rightarrow> ('g, 'e, 'c) Frame \<Rightarrow> bool" where
  "frame_ok val X hinv cinv code s \<longleftrightarrow>
     hinv (fr_ext s) \<and> cinv (fr_cache s) \<and> wf_stack (fr_stack s)
     \<and> length (st_items (fr_stack s)) \<le> stack_limit (ext_schedule X (fr_ext s))
     \<and> mem_paid val (ext_schedule X (fr_ext s)) (current_mem_gas (fr_gasometer s)) (length (fr_mem s))
     \<and> wf_return_data (ex_return_data (fr_exec s)) \<and> boundary code (ex_position (fr_exec s))
     \<and> (\<forall>d. fr_jump_destinations s = Some d \<longrightarrow> d = valid_destinations code)"

text \<open>What every step leaves behind, also when it fails.\<close>

definition frame_kept :: "'e ext_ops \<Rightarrow> ('e \<Rightarrow> bool) \<Rightarrow> ('c \<Rightarrow> bool) \<Rightarrow> 'e \<Rightarrow> ('g, 'e, 'c) Frame \<Rightarrow> bool" where
  "frame_kept X hinv cinv e s \<longleftrightarrow> hinv (fr_ext s) \<and> same_env X e (fr_ext s) \<and> cinv (fr_cache s)"

text \<open>The state after the gas for an instruction has been deducted.\<close>

definition charged ::
  "('g \<Rightarrow> nat) \<Rightarrow> 'e ext_ops \<Rightarrow> ('e \<Rightarrow> bool) \<Rightarrow> instruction \<Rightarrow> ('g, 'e, 'c) Frame \<Rightarrow> 'g InstructionRequirements \<Rightarrow>
     ('g, 'e, 'c) Frame \<Rightarrow> bool" where
  "charged val X hinv i s req s' \<longleftrightarrow>
     hinv (fr_ext s') \<and> same_env X (fr_ext s) (fr_ext s')
     \<and> requirements_ok val (ext_schedule X (fr_ext s)) i (fr_stack s) (length (fr_mem s)) req
     \<and> fr_stack s' = fr_stack s \<and> length (fr_mem s') = max (length (fr_mem s)) (memory_required_size req)
     \<and> ex_return_data (fr_exec s') = ex_return_data (fr_exec s) \<and> ex_position (fr_exec s') = ex_position (fr_exec s)
     \<and> fr_cache s' = fr_cache s \<and> fr_jump_destinations s' = fr_jump_destinations s \<and> fr_do_trace s' = fr_do_trace s
     \<and> current_mem_gas (fr_gasometer s') = memory_total_gas req \<and> val (current s') + val (gas_cost req) = val (current s)"

locale evm = machine C val mk W X hinv + jump_cache K code_of cinv
  for C :: "'g cost_ops" and val :: "'g \<Rightarrow> nat" and mk :: "nat \<Rightarrow> 'g" and W :: nat
    and X :: "'e ext_ops" and hinv :: "'e \<Rightarrow> bool"
    and K :: "'c cache_ops" and code_of :: "h256 \<Rightarrow> bytes" and cinv :: "'c \<Rightarrow> bool" +
  fixes keccak :: "bytes \<Rightarrow> h256"
  assumes word_gas: "W = 64"
begin

abbreviation E :: "('g, 'e, 'c) vm_env" where
  "E \<equiv> \<lparr>env_cost = C, env_ext = X, env_cache = K, env_keccak = keccak\<rparr>"

lemma in_ext_rule:
  assumes "host_op X hinv m P" "frame_kept X hinv cinv e s"
    and "\<And>a x. frame_kept X hinv cinv e (s\<lparr>fr_exec := (fr_exec s)\<lparr>ex_ext := x\<rparr>\<rparr>) \<Longrightarrow> P a \<Longrightarrow>
      Q a (s\<lparr>fr_exec := (fr_exec s)\<lparr>ex_ext := x\<rparr>\<rparr>)"
    and "\<And>err s'. frame_kept X hinv cinv e s' \<Longrightarrow> R err s'"
  shows "wp (in_ext m) Q R s"
proof -
  have "hinv (ex_ext (fr_exec s))" using assms(2) by (simp add: frame_kept_def)
  then have "wp (on_ext m) (\<lambda>a x. Q a (s\<lparr>fr_exec := x\<rparr>)) (\<lambda>err x. R err (s\<lparr>fr_exec := x\<rparr>)) (fr_exec s)"
    by (rule on_ext_rule [OF assms(1)]) (use assms(2) in \<open>auto intro!: assms(3,4) simp: frame_kept_def intro: same_env_trans\<close>)
  then show ?thesis by (simp add: in_ext_def wp_in_exec)
qed

lemma in_ext_if:
  assumes "host_op X hinv m P" "frame_kept X hinv cinv e s"
    and "\<And>a x. frame_kept X hinv cinv e (s\<lparr>fr_exec := (fr_exec s)\<lparr>ex_ext := x\<rparr>\<rparr>) \<Longrightarrow>
      Q a (s\<lparr>fr_exec := (fr_exec s)\<lparr>ex_ext := x\<rparr>\<rparr>)"
    and "\<And>err s'. frame_kept X hinv cinv e s' \<Longrightarrow> R err s'"
  shows "wp (if b then in_ext m else ok d) Q R s"
proof (cases b)
  case True
  then show ?thesis using in_ext_rule [OF assms(1,2)] assms(3,4) by simp
next
  case False
  have "Q d s" using assms(3) [of "ex_ext (fr_exec s)" d] assms(2) by simp
  with False show ?thesis by (simp add: wp_ok)
qed

lemma charge_safe:
  assumes "hinv (fr_ext s)" "cinv (fr_cache s)" "info_tier (INSTRUCTIONS i) \<noteq> Invalid"
    and "info_args (INSTRUCTIONS i) \<le> length (st_items (fr_stack s))"
    and "mem_paid val (ext_schedule X (fr_ext s)) (current_mem_gas (fr_gasometer s)) (length (fr_mem s))"
  shows "wp (charge E pos i) (charged val X hinv i s) (\<lambda>_. frame_kept X hinv cinv (fr_ext s)) s"
proof -
  let ?sch = "ext_schedule X (fr_ext s)" and ?n = "length (fr_mem s)"
  have kept: "frame_kept X hinv cinv (fr_ext s) s" using assms(1,2) by (simp add: frame_kept_def)
  have req: "wp (in_ext (requirements C X (fr_gasometer s) i (INSTRUCTIONS i) (fr_stack s) ?n))
      (\<lambda>r s'. \<exists>x. s' = s\<lparr>fr_exec := (fr_exec s)\<lparr>ex_ext := x\<rparr>\<rparr> \<and> frame_kept X hinv cinv (fr_ext s) s' \<and>
        requirements_ok val ?sch i (fr_stack s) ?n r)
      (\<lambda>_. frame_kept X hinv cinv (fr_ext s)) s"
    unfolding in_ext_def wp_in_exec wp_on_ext
    by (rule wp_mono [OF requirements_safe [OF assms(1,3,4) word_gas assms(5)]])
      (use assms(2) in \<open>auto simp: frame_kept_def\<close>)
  show ?thesis
    unfolding charge_def vm_env.simps
    apply (rule wp_seqI, rule wp_applyI, rule wp_mono [OF req])
     apply (elim exE conjE)
     apply (rule wp_seqI, rule wp_applyI, rule in_ext_if [OF host_trace_prepare], assumption)
      subgoal premises prems for r s1 x u y
      proof -
        let ?s = "s1\<lparr>fr_exec := (fr_exec s1)\<lparr>ex_ext := y\<rparr>\<rparr>"
        have sz: "max ?n (memory_required_size r) < 2 ^ 63" using prems(3) by (simp add: requirements_ok_def mem_paid_def)
        then have ex: "mem_expand (fr_mem s) (memory_required_size r) = Ok (fr_mem s @ replicate (memory_required_size r - ?n) 0)"
          by (intro mem_expand_ok) simp
        show ?thesis
        proof (cases "val (current s) < val (gas_cost r)")
          case True
          with prems show ?thesis by (simp add: wp_simps verify_gas_def cost_less)
        next
          case False
          then have sub: "cost_sub C (current s) (gas_cost r) = Ok (mk (val (current s) - val (gas_cost r)))"
            by (simp add: cost_sub)
          have lt: "val (current s) - val (gas_cost r) < 2 ^ W" using val_less [of "current s"] by simp
          from False prems ex sub lt show ?thesis
            by (auto simp: wp_simps wp_in_exec verify_gas_def cost_less charged_def frame_kept_def)
        qed
      qed
      apply assumption
     apply assumption
    done
qed

end

section \<open>The end of an iteration\<close>

fun gas_left_ok :: "nat \<Rightarrow> GasLeft \<Rightarrow> bool" where
  "gas_left_ok n (Known g) \<longleftrightarrow> unat g \<le> n"
| "gas_left_ok n (NeedsReturn g rd ap) \<longleftrightarrow> unat g \<le> n \<and> wf_return_data rd"

text \<open>One iteration: on success the invariant holds again and gas was spent, or the machine stops with at most the gas it had.\<close>

definition step_post ::
  "('g \<Rightarrow> nat) \<Rightarrow> 'e ext_ops \<Rightarrow> ('e \<Rightarrow> bool) \<Rightarrow> ('c \<Rightarrow> bool) \<Rightarrow> bytes \<Rightarrow> ('g, 'e, 'c) Frame \<Rightarrow> GasLeft option \<Rightarrow>
     ('g, 'e, 'c) Frame \<Rightarrow> bool" where
  "step_post val X hinv cinv code s r s' \<longleftrightarrow> frame_kept X hinv cinv (fr_ext s) s' \<and>
     (case r of None \<Rightarrow> frame_ok val X hinv cinv code s' \<and> val (current s') < val (current s)
      | Some gl \<Rightarrow> gas_left_ok (val (current s)) gl)"

text \<open>The frame between \<open>exec_instruction\<close> and the end of the iteration.\<close>

definition executed ::
  "('g \<Rightarrow> nat) \<Rightarrow> 'e ext_ops \<Rightarrow> ('e \<Rightarrow> bool) \<Rightarrow> ('c \<Rightarrow> bool) \<Rightarrow> bytes \<Rightarrow> ('g, 'e, 'c) Frame \<Rightarrow> 'g InstructionResult \<Rightarrow>
     ('g, 'e, 'c) Frame \<Rightarrow> bool" where
  "executed val X hinv cinv code s r s' \<longleftrightarrow>
     frame_kept X hinv cinv (fr_ext s) s' \<and> frame_ok val X hinv cinv code s' \<and> val (current s') \<le> val (current s)
     \<and> (case r of
          StopExecution \<Rightarrow> True
        | StopExecutionNeedsReturn g off sz _ \<Rightarrow> val g \<le> val (current s) \<and> in_mem (length (fr_mem s')) off sz
        | _ \<Rightarrow> val (current s') < val (current s))"

lemma range_end_in_mem: "range_end off sz \<le> n \<Longrightarrow> in_mem n off sz"
  by (auto simp: range_end_def in_mem_def split: if_splits)

lemma mem_paid_vec_ok: "mem_paid val sch g (length m) \<Longrightarrow> vec_ok m"
  by (simp add: mem_paid_def vec_ok_def)

lemma verify_jump_sound: "sound (verify_jump p ds) (\<lambda>pos. pos \<in> ds)"
  by (simp add: verify_jump_def Let_def)

context evm
begin

lemma jump_safe:
  assumes "executed val X hinv cinv code s (JumpToPosition p) s'"
    and "code_hash_of keccak params code \<noteq> KECCAK_EMPTY \<Longrightarrow> code_of (code_hash_of keccak params code) = code"
  shows "wp (advance E params code (JumpToPosition p)) (step_post val X hinv cinv code s)
    (\<lambda>_. frame_kept X hinv cinv (fr_ext s)) s'"
proof -
  have k: "frame_kept X hinv cinv (fr_ext s) s'" "frame_ok val X hinv cinv code s'" "val (current s') < val (current s)"
    using assms(1) by (simp_all add: executed_def)
  have jump: "wp (lift (verify_jump p d)) (\<lambda>pos. wp (in_exec (modify (\<lambda>x. x\<lparr>ex_position := pos\<rparr>)))
      (\<lambda>_. step_post val X hinv cinv code s None) (\<lambda>_. frame_kept X hinv cinv (fr_ext s))) (\<lambda>_. frame_kept X hinv cinv (fr_ext s)) t"
    if "d = valid_destinations code" "frame_kept X hinv cinv (fr_ext s) t" "frame_ok val X hinv cinv code t"
      "val (current t) < val (current s)" for d t
  proof (rule wp_lift_sound)
    show "sound (verify_jump p d) (\<lambda>pos. wp (in_exec (modify (\<lambda>x. x\<lparr>ex_position := pos\<rparr>)))
      (\<lambda>_. step_post val X hinv cinv code s None) (\<lambda>_. frame_kept X hinv cinv (fr_ext s)) t)"
      by (rule sound_mono [OF verify_jump_sound]) (use that in \<open>auto simp: wp_in_exec wp_modify step_post_def frame_ok_def
        frame_kept_def valid_destinations_def\<close>)
  qed (rule that)
  have cache: "wp (jump_destinations K (code_hash_of keccak params code) code)
      (\<lambda>d c. cinv c \<and> d = valid_destinations code) (\<lambda>_ _. False) (fr_cache s')"
    using k(2) assms(2) by (intro jump_destinations_correct) (simp_all add: frame_ok_def)
  show ?thesis
  proof (cases "fr_jump_destinations s'")
    case None
    have "wp (jump_destinations K (code_hash_of keccak params code) code)
      (\<lambda>d c. wp (lift (verify_jump p d)) (\<lambda>pos. wp (in_exec (modify (\<lambda>x. x\<lparr>ex_position := pos\<rparr>)))
      (\<lambda>_. step_post val X hinv cinv code s None) (\<lambda>_. frame_kept X hinv cinv (fr_ext s))) (\<lambda>_. frame_kept X hinv cinv (fr_ext s))
      (s'\<lparr>fr_cache := c, fr_jump_destinations := Some d\<rparr>))
      (\<lambda>_ c. frame_kept X hinv cinv (fr_ext s) (s'\<lparr>fr_cache := c\<rparr>)) (fr_cache s')"
      by (rule wp_mono [OF cache]) (use k in \<open>auto intro!: jump simp: frame_kept_def frame_ok_def\<close>)
    with None show ?thesis
      by (simp add: advance_def wp_and_then wp_gets wp_in_cache wp_modify wp_ok)
  next
    case (Some d)
    with k(2) have "d = valid_destinations code" by (simp add: frame_ok_def)
    from jump [OF this k] Some show ?thesis by (simp add: advance_def wp_and_then wp_gets wp_ok)
  qed
qed

lemma advance_safe:
  assumes "executed val X hinv cinv code s r s'"
    and "code_hash_of keccak params code \<noteq> KECCAK_EMPTY \<Longrightarrow> code_of (code_hash_of keccak params code) = code"
  shows "wp (advance E params code r) (step_post val X hinv cinv code s) (\<lambda>_. frame_kept X hinv cinv (fr_ext s)) s'"
proof (cases r)
  case (JumpToPosition p)
  with jump_safe assms show ?thesis by blast
next
  case (StopExecutionNeedsReturn g off sz ap)
  with assms(1) have "in_mem (length (fr_mem s')) off sz" "vec_ok (fr_mem s')" "val g \<le> val (current s)"
    "frame_kept X hinv cinv (fr_ext s) s'"
    by (auto simp: executed_def frame_ok_def dest: mem_paid_vec_ok)
  with into_return_data_bytes [OF this(1,2)] StopExecutionNeedsReturn show ?thesis
    by (auto simp: advance_def wp_simps wp_in_exec step_post_def frame_kept_def)
qed (use assms(1) in \<open>auto simp: advance_def wp_simps step_post_def executed_def\<close>)

end

section \<open>One iteration\<close>

text \<open>Code and call data are vectors.\<close>

definition params_ok :: "ActionParams \<Rightarrow> bool" where
  "params_ok params \<longleftrightarrow> (\<forall>d. ap_data params = Some d \<longrightarrow> vec_ok d) \<and> (\<forall>c. ap_code params = Some c \<longrightarrow> vec_ok c)"

text \<open>A frame about to be charged for the instruction at \<open>pos\<close>: the checks of \<open>verify_instruction\<close> have passed.\<close>

definition verified ::
  "('g \<Rightarrow> nat) \<Rightarrow> 'e ext_ops \<Rightarrow> ('e \<Rightarrow> bool) \<Rightarrow> ('c \<Rightarrow> bool) \<Rightarrow> bytes \<Rightarrow> nat \<Rightarrow> ('g, 'e, 'c) Frame \<Rightarrow> bool" where
  "verified val X hinv cinv code pos s \<longleftrightarrow>
     (let i = code ! pos; info = INSTRUCTIONS i; n = length (st_items (fr_stack s)); sch = ext_schedule X (fr_ext s) in
      pos < length code \<and> boundary code pos \<and> ex_position (fr_exec s) = pos + 1
      \<and> info_tier info \<noteq> Invalid \<and> info_args info \<le> n \<and> n - info_args info + info_ret info \<le> stack_limit sch
      \<and> hinv (fr_ext s) \<and> cinv (fr_cache s) \<and> wf_stack (fr_stack s)
      \<and> mem_paid val sch (current_mem_gas (fr_gasometer s)) (length (fr_mem s))
      \<and> wf_return_data (ex_return_data (fr_exec s)) \<and> (\<forall>d. fr_jump_destinations s = Some d \<longrightarrow> d = valid_destinations code))"

context evm
begin

lemma charged_ready:
  assumes "verified val X hinv cinv code pos s" "charged val X hinv (code ! pos) s req s1" "params_ok params" "vec_ok code"
  shows "ready hinv params code (code ! pos) (fr_exec s1)"
proof -
  let ?i = "code ! pos"
  have rng: "in_mem (length (fr_mem s1)) off sz" if "(off, sz) \<in> set (mem_ranges ?i (fr_stack s))" for off sz
  proof (rule range_end_in_mem)
    have "range_end off sz \<le> memory_required_size req"
      using assms(2) that unfolding charged_def requirements_ok_def by blast
    then show "range_end off sz \<le> length (fr_mem s1)" using assms(2) by (simp add: charged_def)
  qed
  have "vec_ok (fr_mem s1)"
    using assms(2) by (auto simp: charged_def requirements_ok_def mem_paid_def vec_ok_def)
  with rng assms show ?thesis
    by (auto simp: ready_def charged_def verified_def Let_def params_ok_def)
qed

lemma provided_bound:
  assumes "charged val X hinv i s req s1" "provide_gas req = Some p"
  shows "val p + min_price (ext_schedule X (fr_ext s)) i (fr_stack s) \<le> val (gas_cost req)"
  using assms by (simp add: charged_def requirements_ok_def)

lemma refund_safe:
  assumes "verified val X hinv cinv code pos s" "charged val X hinv (code ! pos) s req s1"
    and "done_ok (ext_schedule X (fr_ext s1)) (code ! pos) (fr_exec s1) (current s1) (provide_gas req) r x"
    and "ready hinv params code (code ! pos) (fr_exec s1)"
  shows "wp (case r of
         UnusedGas gas \<Rightarrow>
           and_then (\<lambda>s. (cost_add C (current s) gas, s)) (\<lambda>g.
           modify (\<lambda>s. s\<lparr>fr_gasometer := (fr_gasometer s)\<lparr>current_gas := g\<rparr>\<rparr>))
       | _ \<Rightarrow> ok ()) (\<lambda>_ t. executed val X hinv cinv code s r t \<and> fr_exec t = x) R (s1\<lparr>fr_exec := x\<rparr>)"
proof -
  let ?i = "code ! pos" and ?sch = "ext_schedule X (fr_ext s)"
  have env: "same_env X (fr_ext s) (ex_ext x)" "ext_schedule X (fr_ext s1) = ?sch" "ext_schedule X (ex_ext x) = ?sch"
    using assms(2,3) same_env_trans [of X "fr_ext s" "fr_ext s1" "ex_ext x"]
    by (auto simp: charged_def effect_def host_kept_def same_env_def)
  have gas: "val (current s1) + val (gas_cost req) = val (current s)" using assms(2) by (simp add: charged_def)
  have price: "min_price ?sch ?i (fr_stack s) + (case provide_gas req of Some p \<Rightarrow> val p | None \<Rightarrow> 0) \<le> val (gas_cost req)"
    using assms(2) by (simp add: charged_def requirements_ok_def)
  have ok: "frame_kept X hinv cinv (fr_ext s) t \<and> frame_ok val X hinv cinv code t"
    if "fr_exec t = x" "fr_cache t = fr_cache s" "fr_jump_destinations t = fr_jump_destinations s"
      "current_mem_gas (fr_gasometer t) = memory_total_gas req" for t
  proof -
    have "boundary code (pos + instruction_length ?i)"
      using assms(1) boundary_next [of code pos] by (simp add: verified_def Let_def)
    moreover have "ex_position x = pos + instruction_length ?i"
      using assms(1,2,3) by (simp add: effect_def charged_def verified_def Let_def)
    ultimately show ?thesis
      using assms(1,2,3) env that
      by (auto simp: frame_kept_def frame_ok_def verified_def charged_def effect_def host_kept_def stack_delta_def
        requirements_ok_def Let_def)
  qed
  have ok1: "frame_kept X hinv cinv (fr_ext s) (s1\<lparr>fr_exec := x\<rparr>)" "frame_ok val X hinv cinv code (s1\<lparr>fr_exec := x\<rparr>)"
    using ok [of "s1\<lparr>fr_exec := x\<rparr>"] assms(2) by (simp_all add: charged_def)
  show ?thesis
  proof (cases r)
    case (UnusedGas g)
    then obtain p where p: "provide_gas req = Some p" "val g \<le> val p + stipend ?sch ?i (fr_stack s)" "\<not> halts ?i"
      using assms(2,3) env by (auto simp: result_ok_def charged_def)
    then have lt: "val (current s1) + val g < val (current s)" using price gas by (simp add: min_price_eq)
    moreover have "val (current s) < 2 ^ W" by (rule val_less)
    ultimately have "cost_add C (current s1) g = Ok (mk (val (current s1) + val g))" "val (current s1) + val g < 2 ^ W"
      by (simp_all add: cost_add)
    with UnusedGas lt ok [of "s1\<lparr>fr_exec := x, fr_gasometer := (fr_gasometer s1)\<lparr>current_gas := mk (val (current s1) + val g)\<rparr>\<rparr>"] assms(2)
    show ?thesis by (simp add: wp_simps executed_def charged_def)
  next
    case (StopExecutionNeedsReturn g off sz ap)
    then have "g = current s1" "(off, sz) \<in> set (mem_ranges ?i (fr_stack s1))" "length (ex_mem x) = length (fr_mem s1)"
      using assms(3) by (auto simp: result_ok_def effect_def)
    with StopExecutionNeedsReturn assms(4) ok1 gas show ?thesis
      by (auto simp: wp_simps executed_def ready_def)
  next
    case StopExecution
    with ok1 gas show ?thesis by (simp add: wp_simps executed_def)
  qed (use assms(3) ok1 gas price in \<open>auto simp: wp_simps executed_def result_ok_def min_price_eq\<close>)
qed

lemma executed_ext:
  assumes "executed val X hinv cinv code s r t" "frame_kept X hinv cinv (fr_ext s) (t\<lparr>fr_exec := (fr_exec t)\<lparr>ex_ext := e\<rparr>\<rparr>)"
  shows "executed val X hinv cinv code s r (t\<lparr>fr_exec := (fr_exec t)\<lparr>ex_ext := e\<rparr>\<rparr>)"
proof -
  have "ext_schedule X e = ext_schedule X (fr_ext t)"
    using assms by (simp add: executed_def frame_kept_def same_env_def)
  with assms show ?thesis
    by (cases r) (simp_all add: executed_def frame_ok_def frame_kept_def)
qed

lemma trace_safe:
  assumes "executed val X hinv cinv code s r t" "info_ret info \<le> length (st_items (fr_stack t))"
    and "\<And>off sz. mw = Some (off, sz) \<Longrightarrow> off + sz \<le> length (fr_mem t)"
  shows "wp (if trace then trace_executed E info mw sw else ok ()) (\<lambda>_. executed val X hinv cinv code s r)
    (\<lambda>_. frame_kept X hinv cinv (fr_ext s)) t"
proof (cases trace)
  case True
  have kept: "frame_kept X hinv cinv (fr_ext s) t" using assms(1) by (simp add: executed_def)
  have tr: "wp (in_ext (ext_trace_executed X g tops md sw)) (\<lambda>_. executed val X hinv cinv code s r)
      (\<lambda>_. frame_kept X hinv cinv (fr_ext s)) t" for g tops md
    by (rule in_ext_rule [OF host_trace_executed kept]) (auto intro: executed_ext [OF assms(1)])
  have "peek_top (fr_stack t) (info_ret info) = Ok (drop (length (st_items (fr_stack t)) - info_ret info) (st_items (fr_stack t)))"
    using assms(2) by (simp add: peek_top_def slice_def)
  moreover have "slice (fr_mem t) off (off + sz) = (Ok (take sz (drop off (fr_mem t))) :: bytes vm_result)" if "mw = Some (off, sz)" for off sz
    using assms(3) [OF that] by (simp add: slice_def)
  ultimately show ?thesis
    using True tr by (cases mw) (auto simp: trace_executed_def wp_simps)
qed (use assms(1) in \<open>simp add: wp_ok\<close>)

text \<open>The part of an iteration after the gas has been charged.\<close>

lemma run_safe:
  assumes "verified val X hinv cinv code pos s" "charged val X hinv (code ! pos) s req s1" "params_ok params" "vec_ok code"
    and "code_hash_of keccak params code \<noteq> KECCAK_EMPTY \<Longrightarrow> code_of (code_hash_of keccak params code) = code"
    and "\<And>off sz. mw = Some (off, sz) \<Longrightarrow> off + sz \<le> length (fr_mem s1)"
  shows "wp (and_then (\<lambda>s. in_exec (exec_instruction C X keccak code (current s) params (code ! pos) (provide_gas req)) s) (\<lambda>result.
     and_then (case result of
         UnusedGas gas \<Rightarrow>
           and_then (\<lambda>s. (cost_add C (current s) gas, s)) (\<lambda>g.
           modify (\<lambda>s. s\<lparr>fr_gasometer := (fr_gasometer s)\<lparr>current_gas := g\<rparr>\<rparr>))
       | _ \<Rightarrow> ok ()) (\<lambda>_.
     and_then (if trace then trace_executed E (INSTRUCTIONS (code ! pos)) mw sw else ok ()) (\<lambda>_.
     advance E params code result)))) (step_post val X hinv cinv code s) (\<lambda>_. frame_kept X hinv cinv (fr_ext s)) s1"
proof -
  let ?i = "code ! pos"
  note rdy = charged_ready [OF assms(1-4)]
  have sch: "ext_schedule X (fr_ext s1) = ext_schedule X (fr_ext s)" and st: "fr_stack s1 = fr_stack s"
    and e: "same_env X (fr_ext s) (fr_ext s1)" and c: "fr_cache s1 = fr_cache s" "cinv (fr_cache s)"
    using assms(1,2) by (simp_all add: charged_def same_env_def verified_def Let_def)
  have exec: "wp (exec_instruction C X keccak code (current s1) params ?i (provide_gas req))
      (done_ok (ext_schedule X (fr_ext s1)) ?i (fr_exec s1) (current s1) (provide_gas req)) (\<lambda>_. host_kept X hinv (fr_exec s1)) (fr_exec s1)"
  proof (rule instruction_safe [OF rdy])
    show "provide_gas req \<noteq> None" if "starts_child ?i" using that assms(2) by (simp add: charged_def requirements_ok_def)
    fix p assume p: "provide_gas req = Some p"
    show "val p + stipend (ext_schedule X (fr_ext s1)) ?i (fr_stack s1) < 2 ^ W"
      using provided_bound [OF assms(2) p] val_less [of "gas_cost req"] sch st
      by (auto simp: min_price_eq stipend_def halts_def split: if_splits)
  qed
  show ?thesis
    apply (rule wp_seqI, rule wp_applyI [where m = "\<lambda>s. in_exec (exec_instruction C X keccak code (current s) params ?i (provide_gas req))"])
    apply (unfold wp_in_exec)
    apply (rule wp_mono [OF exec])
     subgoal premises prems for r x
      apply (rule wp_seqI, rule wp_mono [OF refund_safe [OF assms(1,2) prems rdy]], elim conjE)
       apply (rule wp_seqI, rule wp_mono [OF trace_safe], assumption)
          subgoal using prems rdy by (auto simp: effect_def stack_delta_def ready_def)
         subgoal using prems assms(6) by (auto simp: effect_def)
        apply (erule advance_safe, use assms(5) in blast)
       apply assumption
      apply assumption
      done
    subgoal using e c by (auto simp: host_kept_def frame_kept_def intro: same_env_trans)
    done
qed

end

text \<open>The result of a run on gas \<open>n\<close>: no panic of the machine's own code, no gas created.\<close>

definition run_ok :: "nat \<Rightarrow> GasLeft vm_result \<Rightarrow> bool" where
  "run_ok n r \<longleftrightarrow> (case r of Ok gl \<Rightarrow> gas_left_ok n gl | Err _ \<Rightarrow> True | Panic p \<Rightarrow> is_host p)"

lemma gas_left_ok_mono: "gas_left_ok m gl \<Longrightarrow> m \<le> n \<Longrightarrow> gas_left_ok n gl"
  by (cases gl) auto

lemma run_ok_mono: "run_ok m r \<Longrightarrow> m \<le> n \<Longrightarrow> run_ok n r"
  by (auto simp: run_ok_def gas_left_ok_mono split: outcome.splits)

lemma wp_state_sound:
  "sound (f s) P \<Longrightarrow> (\<And>a. P a \<Longrightarrow> Q a s) \<Longrightarrow> (\<And>e. R e s) \<Longrightarrow> wp (\<lambda>s. (f s, s)) Q R s"
  by (cases "f s") (simp_all add: wp_def)

context evm
begin

lemma perform_safe:
  assumes "verified val X hinv cinv code pos s" "params_ok params" "vec_ok code"
    and "code_hash_of keccak params code \<noteq> KECCAK_EMPTY \<Longrightarrow> code_of (code_hash_of keccak params code) = code"
  shows "wp (perform E params code pos (code ! pos) trace) (step_post val X hinv cinv code s)
    (\<lambda>_. frame_kept X hinv cinv (fr_ext s)) s"
proof -
  let ?i = "code ! pos"
  have v: "hinv (fr_ext s)" "cinv (fr_cache s)" "info_tier (INSTRUCTIONS ?i) \<noteq> Invalid"
    "info_args (INSTRUCTIONS ?i) \<le> length (st_items (fr_stack s))"
    "mem_paid val (ext_schedule X (fr_ext s)) (current_mem_gas (fr_gasometer s)) (length (fr_mem s))"
    using assms(1) by (simp_all add: verified_def Let_def)
  show ?thesis
    unfolding perform_def
    apply (rule wp_seqI, rule wp_mono [OF charge_safe [OF v]])
     subgoal premises prems for req s1
     proof -
       note rdy = charged_ready [OF assms(1) prems assms(2,3)]
       have kept: "frame_kept X hinv cinv (fr_ext s) s1"
         using prems v(2) by (simp add: charged_def frame_kept_def)
       have mw: "sound (if trace then mem_written ?i (fr_stack s1) else Ok None)
           (\<lambda>mw. \<forall>off sz. mw = Some (off, sz) \<longrightarrow> off + sz \<le> length (fr_mem s1))"
         using mem_written_sound [of ?i "fr_stack s1" "length (fr_mem s1)"] rdy by (simp add: ready_def vec_ok_def)
       have sw: "sound (if trace then store_written ?i (fr_stack s1) else Ok None) (\<lambda>_. True)"
         using store_written_sound [of ?i "fr_stack s1"] rdy by (simp add: ready_def)
       show ?thesis
         apply (rule wp_seqI, rule wp_state_sound, rule mw)
          apply (rule wp_seqI, rule wp_state_sound, rule sw)
           apply (unfold vm_env.simps, rule run_safe [OF assms(1) prems assms(2,3,4)])
            apply (assumption, blast)
          apply (rule kept)+
         done
     qed
    apply assumption
    done
qed

lemma fetch_safe:
  assumes "frame_ok val X hinv cinv code s" "ex_position (fr_exec s) < length code"
  shows "wp (fetch E code) (\<lambda>y t. case y of (pos, i, _) \<Rightarrow> pos = ex_position (fr_exec s) \<and> i = code ! pos
      \<and> (\<exists>x tr. frame_kept X hinv cinv (fr_ext s) t
         \<and> t = s\<lparr>fr_exec := (fr_exec s)\<lparr>ex_position := pos + 1, ex_ext := x\<rparr>, fr_do_trace := tr\<rparr>))
    (\<lambda>_. frame_kept X hinv cinv (fr_ext s)) s"
proof -
  let ?pos = "ex_position (fr_exec s)"
  let ?s = "s\<lparr>fr_exec := (fr_exec s)\<lparr>ex_position := ?pos + 1\<rparr>\<rparr>"
  have kept: "frame_kept X hinv cinv (fr_ext s) ?s" using assms(1) by (simp add: frame_ok_def frame_kept_def)
  have "wp (if fr_do_trace ?s then in_ext (ext_trace_next_instruction X ?pos (code ! ?pos) (as_u256 C (current ?s))) else ok False)
      (\<lambda>tr t. \<exists>x. frame_kept X hinv cinv (fr_ext s) t \<and> t = ?s\<lparr>fr_exec := (fr_exec ?s)\<lparr>ex_ext := x\<rparr>\<rparr>)
      (\<lambda>_. frame_kept X hinv cinv (fr_ext s)) ?s"
    by (rule in_ext_if [OF host_trace_next kept]) auto
  then have tr: "wp (\<lambda>s. (if fr_do_trace s then in_ext (ext_trace_next_instruction X ?pos (code ! ?pos) (as_u256 C (current s))) else ok False) s)
      (\<lambda>tr t. \<exists>x. frame_kept X hinv cinv (fr_ext s) t \<and> t = ?s\<lparr>fr_exec := (fr_exec ?s)\<lparr>ex_ext := x\<rparr>\<rparr>)
      (\<lambda>_. frame_kept X hinv cinv (fr_ext s)) ?s"
    by (rule wp_applyI [where m = "\<lambda>s. if fr_do_trace s then in_ext (ext_trace_next_instruction X ?pos (code ! ?pos)
      (as_u256 C (current s))) else ok False"])
  show ?thesis
    unfolding fetch_def vm_env.simps
    apply (rule wp_seqI, rule wp_getsI)
    apply (rule wp_seqI, rule wp_liftI [where a = "code ! ?pos"], use assms(2) in \<open>simp add: index_def\<close>)
    apply (rule wp_seqI, unfold wp_in_exec wp_modify)
    apply (rule wp_seqI, rule wp_mono [OF tr])
     apply (auto simp: wp_simps frame_kept_def)
    done
qed

lemma step_safe:
  assumes "frame_ok val X hinv cinv code s" "ex_position (fr_exec s) < length code" "params_ok params" "vec_ok code"
    and "code_hash_of keccak params code \<noteq> KECCAK_EMPTY \<Longrightarrow> code_of (code_hash_of keccak params code) = code"
  shows "wp (exec_step E params code) (step_post val X hinv cinv code s) (\<lambda>_. frame_kept X hinv cinv (fr_ext s)) s"
proof -
  have rest: "wp (case y of (pos, i, trace) \<Rightarrow> and_then (\<lambda>s. (verify_instruction (ext_schedule X (ex_ext (fr_exec s))) i (INSTRUCTIONS i)
         (ex_stack (fr_exec s)), s)) (\<lambda>_. perform E params code pos i trace))
      (step_post val X hinv cinv code s) (\<lambda>_. frame_kept X hinv cinv (fr_ext s)) t"
    if "case y of (pos, i, _) \<Rightarrow> pos = ex_position (fr_exec s) \<and> i = code ! pos \<and> (\<exists>x tr. frame_kept X hinv cinv (fr_ext s) t
         \<and> t = s\<lparr>fr_exec := (fr_exec s)\<lparr>ex_position := pos + 1, ex_ext := x\<rparr>, fr_do_trace := tr\<rparr>)" for y t
  proof -
    obtain pos i trace x tr where y: "y = (pos, i, trace)" "pos = ex_position (fr_exec s)" "i = code ! pos"
      and t: "frame_kept X hinv cinv (fr_ext s) t"
        "t = s\<lparr>fr_exec := (fr_exec s)\<lparr>ex_position := pos + 1, ex_ext := x\<rparr>, fr_do_trace := tr\<rparr>"
      using \<open>case y of (pos, i, _) \<Rightarrow> _\<close> by (cases y) auto
    have sch: "ext_schedule X (fr_ext t) = ext_schedule X (fr_ext s)" using t(1) by (simp add: frame_kept_def same_env_def)
    have lim: "length (st_items (fr_stack t)) \<le> stack_limit (ext_schedule X (fr_ext t))"
      using assms(1) t(2) unfolding sch by (simp add: frame_ok_def)
    have v: "verified val X hinv cinv code pos t"
      if "info_tier (INSTRUCTIONS i) \<noteq> Invalid \<and> info_args (INSTRUCTIONS i) \<le> length (st_items (fr_stack t))
         \<and> length (st_items (fr_stack t)) - info_args (INSTRUCTIONS i) + info_ret (INSTRUCTIONS i)
           \<le> stack_limit (ext_schedule X (fr_ext t))"
      using that assms(1,2) t y unfolding verified_def Let_def sch by (auto simp: frame_ok_def frame_kept_def)
    have up: "step_post val X hinv cinv code t r u \<Longrightarrow> step_post val X hinv cinv code s r u"
      "frame_kept X hinv cinv (fr_ext t) u \<Longrightarrow> frame_kept X hinv cinv (fr_ext s) u" for r u
      using t by (auto simp: step_post_def frame_kept_def intro: same_env_trans split: option.splits)
    have p: "wp (perform E params code pos i trace) (step_post val X hinv cinv code s) (\<lambda>_. frame_kept X hinv cinv (fr_ext s)) t"
      if "verified val X hinv cinv code pos t"
      unfolding y(3) by (rule wp_mono [OF perform_safe [OF that assms(3,4,5)]]) (assumption | rule up)+
    show ?thesis
      unfolding y(1) prod.case
      by (rule wp_seqI, rule wp_state_sound, rule verify_instruction_sound [OF lim], rule p, rule v, assumption, rule t(1))
  qed
  show ?thesis
    unfolding exec_step_def vm_env.simps
    by (rule wp_seqI, rule wp_mono [OF fetch_safe [OF assms(1,2)]], erule rest)
qed

text \<open>The loop ends, because every iteration that goes on spends gas.\<close>

lemma loop_ends:
  assumes "frame_ok val X hinv cinv code s" "params_ok params" "vec_ok code"
    and "code_hash_of keccak params code \<noteq> KECCAK_EMPTY \<Longrightarrow> code_of (code_hash_of keccak params code) = code"
  shows "\<exists>r s'. exec_loop E params code s = Some (r, s') \<and> run_ok (val (current s)) r
    \<and> (is_ok r \<or> (\<exists>e. r = Err e) \<longrightarrow> frame_kept X hinv cinv (fr_ext s) s')"
  using assms(1)
proof (induction "val (current s)" arbitrary: s rule: less_induct)
  case less
  show ?case
  proof (cases "ex_position (fr_exec s) < length code")
    case True
    from step_safe [OF less.prems True assms(2,3,4)]
    have st: "wp (exec_step E params code) (step_post val X hinv cinv code s) (\<lambda>_. frame_kept X hinv cinv (fr_ext s)) s" .
    obtain r t where step: "exec_step E params code s = (r, t)" by (cases "exec_step E params code s")
    consider "r = Ok None" | gl where "r = Ok (Some gl)" | e where "r = Err e" | p where "r = Panic p"
      by (cases r) auto
    then show ?thesis
    proof cases
      case 1
      with wp_OkD [OF st] step have post: "step_post val X hinv cinv code s None t" by blast
      then have lt: "val (current t) < val (current s)" and ok: "frame_ok val X hinv cinv code t"
        and kept: "frame_kept X hinv cinv (fr_ext s) t" by (simp_all add: step_post_def)
      from less.hyps [OF lt ok] obtain r' s' where
        r': "exec_loop E params code t = Some (r', s')" "run_ok (val (current t)) r'"
          "is_ok r' \<or> (\<exists>e. r' = Err e) \<longrightarrow> frame_kept X hinv cinv (fr_ext t) s'" by blast
      with 1 step True lt kept show ?thesis
        by (subst exec_loop.simps) (auto simp: run_ok_mono [OF _ less_imp_le] frame_kept_def intro: same_env_trans)
    next
      case 2
      with wp_OkD [OF st] step True show ?thesis
        by (subst exec_loop.simps) (auto simp: step_post_def run_ok_def is_ok_def)
    next
      case 3
      with wp_ErrD [OF st] step True show ?thesis
        by (subst exec_loop.simps) (auto simp: run_ok_def is_ok_def)
    next
      case 4
      with wp_PanicD [OF st] step True show ?thesis
        by (subst exec_loop.simps) (auto simp: run_ok_def is_ok_def)
    qed
  next
    case False
    with less.prems show ?thesis
      by (subst exec_loop.simps) (auto simp: run_ok_def frame_ok_def frame_kept_def)
  qed
qed

lemma start_frame_ok:
  assumes "hinv e" "cinv (it_cache vm)" "wf_return_data (it_return_data vm)"
  shows "frame_ok val X hinv cinv code (start_frame C vm e g)"
  using assms by (simp add: frame_ok_def start_frame_def new_gasometer_def with_capacity_def wf_stack_def mem_paid_def
    mem_price_def boundary_start)

theorem exec_correct:
  assumes "hinv e" "cinv (it_cache vm)" "wf_return_data (it_return_data vm)" "params_ok params" "ap_code params = Some code"
    and "code_hash_of keccak params code \<noteq> KECCAK_EMPTY \<Longrightarrow> code_of (code_hash_of keccak params code) = code"
  shows "\<exists>r vm' e'. exec E params (vm, e) = Some (r, vm', e') \<and> run_ok (unat (ap_gas params)) r
    \<and> (is_ok r \<or> (\<exists>err. r = Err err) \<longrightarrow> hinv e' \<and> same_env X e e' \<and> cinv (it_cache vm'))"
proof (cases "unat (ap_gas params) < 2 ^ W")
  case False
  then have "from_u256 C (ap_gas params) = Err OutOfGas" by (simp add: from_u256)
  with assms(1,2,5) show ?thesis by (simp add: exec_def Let_def run_ok_def)
next
  case True
  let ?s = "start_frame C (vm\<lparr>it_mem := []\<rparr>) e (mk (unat (ap_gas params)))"
  have g: "from_u256 C (ap_gas params) = Ok (mk (unat (ap_gas params)))" using True by (simp add: from_u256)
  have code: "vec_ok code" using assms(4,5) by (simp add: params_ok_def)
  have "frame_ok val X hinv cinv code ?s" using assms(1-3) by (intro start_frame_ok) simp_all
  from loop_ends [OF this assms(4) code assms(6)] obtain r s' where
    r: "exec_loop E params code ?s = Some (r, s')" "run_ok (val (current ?s)) r"
      "is_ok r \<or> (\<exists>e. r = Err e) \<longrightarrow> frame_kept X hinv cinv (fr_ext ?s) s'" by blast
  then show ?thesis
    using assms(5) g True by (auto simp: exec_def Let_def start_frame_def new_gasometer_def frame_kept_def frame_vm_def)
qed

end

end
