(* ===== verification/Fake_Ext.thy ===== *)
theory Fake_Ext
  imports Vm_Types
begin

text \<open>
  The host of the virtual machine's own tests (\<open>ethcore/vm/src/tests.rs\<close>): storage, balances and code in maps, calls
  recorded and answered without being executed.  It satisfies the contract \<open>ext_host\<close>.
\<close>

section \<open>Definitions\<close>

record FakeLogEntry =
  fl_topics :: "h256 list"
  fl_data :: bytes

datatype FakeCallType = FakeCallCall | FakeCallCreate

record FakeCall =
  fc_call_type :: FakeCallType
  fc_gas :: u256
  fc_sender_address :: "address option"
  fc_receive_address :: "address option"
  fc_value :: "u256 option"
  fc_data :: bytes
  fc_code_address :: "address option"

record FakeExt =
  fe_store :: "h256 \<rightharpoonup> h256"
  fe_suicides :: "address set"
  fe_calls :: "FakeCall set"
  fe_sstore_clears :: nat
  fe_depth :: nat
  fe_blockhashes :: "u256 \<rightharpoonup> h256"
  fe_codes :: "address \<rightharpoonup> bytes"
  fe_logs :: "FakeLogEntry list"
  fe_info :: EnvInfo
  fe_schedule :: Schedule
  fe_balances :: "address \<rightharpoonup> u256"
  fe_tracing :: bool
  fe_is_static :: bool

definition FakeExt_new :: FakeExt where
  "FakeExt_new = \<lparr>fe_store = Map.empty, fe_suicides = {}, fe_calls = {}, fe_sstore_clears = 0, fe_depth = 0,
     fe_blockhashes = Map.empty, fe_codes = Map.empty, fe_logs = [], fe_info = default_env_info,
     fe_schedule = default_schedule, fe_balances = Map.empty, fe_tracing = False, fe_is_static = False\<rparr>"

definition FakeExt_new_byzantium :: FakeExt where
  "FakeExt_new_byzantium = FakeExt_new\<lparr>fe_schedule := new_byzantium\<rparr>"

text \<open>\<open>unimplemented!()\<close> and a failed \<open>HashMap\<close> index are panics of the host.\<close>

definition fake_balance :: "address \<Rightarrow> (FakeExt, u256) vm_comp" where
  "fake_balance address = and_then (gets (\<lambda>e. fe_balances e address)) (\<lambda>b.
     case b of Some b \<Rightarrow> ok b | None \<Rightarrow> panic (Host ''no entry found for key''))"

definition fake_create :: "u256 \<Rightarrow> u256 \<Rightarrow> bytes \<Rightarrow> CreateContractAddress \<Rightarrow> (FakeExt, ContractCreateResult) vm_comp" where
  "fake_create gas val code scheme = and_then
     (modify (fe_calls_update (insert \<lparr>fc_call_type = FakeCallCreate, fc_gas = gas, fc_sender_address = None,
        fc_receive_address = None, fc_value = Some val, fc_data = code, fc_code_address = None\<rparr>)))
     (\<lambda>_. ok CreateFailed)"

definition fake_call ::
  "u256 \<Rightarrow> address \<Rightarrow> address \<Rightarrow> u256 option \<Rightarrow> bytes \<Rightarrow> address \<Rightarrow> bytes \<Rightarrow> CallType \<Rightarrow> (FakeExt, MessageCallResult \<times> bytes) vm_comp"
  where
  "fake_call gas sender_address receive_address val data code_address output call_type = and_then
     (modify (fe_calls_update (insert \<lparr>fc_call_type = FakeCallCall, fc_gas = gas, fc_sender_address = Some sender_address,
        fc_receive_address = Some receive_address, fc_value = val, fc_data = data, fc_code_address = Some code_address\<rparr>)))
     (\<lambda>_. ok (CallSuccess gas rd_empty, output))"

definition fake_inc_sstore_clears :: "(FakeExt, unit) vm_comp" where
  "fake_inc_sstore_clears = and_then (gets fe_sstore_clears) (\<lambda>n.
     if n + 1 < usize_range then modify (fe_sstore_clears_update (\<lambda>_. n + 1)) else panic (Host ''overflow''))"

definition fake_ext :: "FakeExt ext_ops" where
  "fake_ext = \<lparr>
     ext_storage_at = (\<lambda>key. gets (\<lambda>e. case fe_store e key of Some v \<Rightarrow> v | None \<Rightarrow> 0)),
     ext_set_storage = (\<lambda>key v. modify (fe_store_update (\<lambda>m. m(key \<mapsto> v)))),
     ext_exists = (\<lambda>a. gets (\<lambda>e. fe_balances e a \<noteq> None)),
     ext_exists_and_not_null = (\<lambda>a. gets (\<lambda>e. case fe_balances e a of None \<Rightarrow> False | Some b \<Rightarrow> b \<noteq> 0)),
     ext_origin_balance = panic (Host ''not yet implemented''),
     ext_balance = fake_balance,
     ext_blockhash = (\<lambda>n. gets (\<lambda>e. case fe_blockhashes e n of Some h \<Rightarrow> h | None \<Rightarrow> 0)),
     ext_create = fake_create,
     ext_call = fake_call,
     ext_extcode = (\<lambda>a. gets (\<lambda>e. case fe_codes e a of Some c \<Rightarrow> c | None \<Rightarrow> [])),
     ext_extcodesize = (\<lambda>a. gets (\<lambda>e. case fe_codes e a of Some c \<Rightarrow> length c | None \<Rightarrow> 0)),
     ext_log = (\<lambda>topics data. modify (fe_logs_update (\<lambda>l. l @ [\<lparr>fl_topics = topics, fl_data = data\<rparr>]))),
     ext_ret = (\<lambda>gas data apply_state. panic (Host ''not yet implemented'')),
     ext_suicide = (\<lambda>a. modify (fe_suicides_update (insert a))),
     ext_inc_sstore_clears = fake_inc_sstore_clears,
     ext_trace_next_instruction = (\<lambda>pc i g. gets fe_tracing),
     ext_trace_prepare_execute = (\<lambda>pc i g. ok ()),
     ext_trace_executed = (\<lambda>g stk mem store. ok ()),
     ext_schedule = fe_schedule, ext_env_info = fe_info, ext_depth = fe_depth, ext_is_static = fe_is_static\<rparr>"

section \<open>The contract\<close>

definition fake_ok :: "FakeExt \<Rightarrow> bool" where
  "fake_ok e \<longleftrightarrow> wf_schedule (fe_schedule e) \<and> (\<forall>a c. fe_codes e a = Some c \<longrightarrow> vec_ok c)"

lemma fake_env: "same_env fake_ext e e' \<longleftrightarrow> fe_schedule e' = fe_schedule e \<and> fe_info e' = fe_info e
    \<and> fe_depth e' = fe_depth e \<and> fe_is_static e' = fe_is_static e"
  by (simp add: same_env_def fake_ext_def)

lemmas fake_simps = fake_env wp_simps fake_ok_def fake_balance_def fake_create_def fake_call_def fake_inc_sstore_clears_def

interpretation fake_host: ext_host fake_ext fake_ok
proof unfold_locales
  show "fake_ok e \<Longrightarrow> wf_schedule (ext_schedule fake_ext e)" for e
    by (simp add: fake_ok_def fake_ext_def)
  show "host_op fake_ext fake_ok (ext_extcode fake_ext a) vec_ok"
    "host_op fake_ext fake_ok (ext_extcodesize fake_ext a) (\<lambda>n. n < usize_range)" for a
    unfolding host_op_def
    by (fastforce simp: fake_simps vec_ok_def fake_ext_def [THEN arg_cong, of ext_extcode]
      fake_ext_def [THEN arg_cong, of ext_extcodesize] split: option.split)+
qed (unfold host_op_def fake_env, simp_all add: fake_ext_def fake_simps split: option.split)

lemma fake_new_ok: "fake_ok FakeExt_new"
  by (simp add: fake_ok_def FakeExt_new_def default_schedule_def wf_schedule_new new_frontier_def)

lemma fake_byzantium_ok: "fake_ok FakeExt_new_byzantium"
  by (simp add: fake_ok_def FakeExt_new_byzantium_def FakeExt_new_def wf_new_byzantium)

end
