(* ===== verification/Evm_Factory.thy ===== *)
theory Evm_Factory
  imports Interp_Loop Fake_Ext
begin

text \<open>
  The choice of an interpreter (\<open>ethcore/evm/src/factory.rs\<close>, \<open>vmtype.rs\<close>) and the end of a run (\<open>evm.rs\<close>, trait
  \<open>Finalize\<close>), with the theorems that cover a whole run: creation of the machine, execution, and processing of the
  returned data.  The build without the JIT is modelled.
\<close>

section \<open>Definitions\<close>

record FinalizationResult =
  fz_gas_left :: u256
  fz_apply_state :: bool
  fz_return_data :: ReturnData

fun finalize :: "'e ext_ops \<Rightarrow> GasLeft vm_result \<Rightarrow> ('e, FinalizationResult) vm_comp" where
  "finalize X (Ok (Known gas_left)) =
     ok \<lparr>fz_gas_left = gas_left, fz_apply_state = True, fz_return_data = rd_empty\<rparr>"
| "finalize X (Ok (NeedsReturn gas_left data apply_state)) =
     and_then (ext_ret X gas_left data apply_state) (\<lambda>gas_left.
     ok \<lparr>fz_gas_left = gas_left, fz_apply_state = apply_state, fz_return_data = data\<rparr>)"
| "finalize X (Err err) = fail err"
| "finalize X (Panic p) = panic p"

datatype VMType = VM_Interpreter

record 'c Factory =
  fa_evm :: VMType
  fa_evm_cache :: 'c

definition factory_new :: "('l, h256, Bits) lru_ops \<Rightarrow> VMType \<Rightarrow> nat \<Rightarrow> 'l MemoryLruCache Factory" where
  "factory_new L evm_type cache_size = \<lparr>fa_evm = evm_type, fa_evm_cache = shared_cache_new L cache_size\<rparr>"

definition factory_default :: "('l, h256, Bits) lru_ops \<Rightarrow> 'l MemoryLruCache Factory" where
  "factory_default L = \<lparr>fa_evm = VM_Interpreter, fa_evm_cache = shared_cache_default L\<rparr>"

definition can_fit_in_usize :: "u256 \<Rightarrow> bool" where
  "can_fit_in_usize gas \<longleftrightarrow> gas = of_nat (low_u64 gas)"

text \<open>The boxed machine: an interpreter over one of the two cost types.\<close>

datatype 'c Vm = Interpreter_usize "'c Interpreter" | Interpreter_U256 "'c Interpreter"

definition vm_create :: "'c Factory \<Rightarrow> u256 \<Rightarrow> 'c Vm" where
  "vm_create f gas = (case fa_evm f of VM_Interpreter \<Rightarrow>
     if can_fit_in_usize gas then Interpreter_usize (new_interpreter (fa_evm_cache f))
     else Interpreter_U256 (new_interpreter (fa_evm_cache f)))"

fun vm_exec ::
  "'e ext_ops \<Rightarrow> 'c cache_ops \<Rightarrow> (bytes \<Rightarrow> h256) \<Rightarrow> ActionParams \<Rightarrow> 'c Vm \<Rightarrow> 'e \<Rightarrow> (GasLeft vm_result \<times> 'c Vm \<times> 'e) option" where
  "vm_exec X K keccak params (Interpreter_usize vm) e = map_option (\<lambda>(r, vm', e'). (r, Interpreter_usize vm', e'))
     (exec \<lparr>env_cost = usize_cost, env_ext = X, env_cache = K, env_keccak = keccak\<rparr> params (vm, e))"
| "vm_exec X K keccak params (Interpreter_U256 vm) e = map_option (\<lambda>(r, vm', e'). (r, Interpreter_U256 vm', e'))
     (exec \<lparr>env_cost = u256_cost, env_ext = X, env_cache = K, env_keccak = keccak\<rparr> params (vm, e))"

fun vm_interpreter :: "'c Vm \<Rightarrow> 'c Interpreter" where
  "vm_interpreter (Interpreter_usize vm) = vm"
| "vm_interpreter (Interpreter_U256 vm) = vm"

text \<open>
  A run as the executive performs it: create the machine for the gas at hand, execute, finalize.  The factory shares its
  cache with the machines it creates, so the cache the machine leaves behind is the factory's.
\<close>

definition vm_run ::
  "'e ext_ops \<Rightarrow> 'c cache_ops \<Rightarrow> (bytes \<Rightarrow> h256) \<Rightarrow> ActionParams \<Rightarrow> 'c Factory \<Rightarrow> 'e \<Rightarrow>
     (FinalizationResult vm_result \<times> 'c Factory \<times> 'e) option" where
  "vm_run X K keccak params f e = map_option (\<lambda>(r, vm, e').
     case finalize X r e' of (fr, e'') \<Rightarrow> (fr, f\<lparr>fa_evm_cache := it_cache (vm_interpreter vm)\<rparr>, e''))
     (vm_exec X K keccak params (vm_create f (ap_gas params)) e)"

section \<open>Whole runs\<close>

lemma can_fit_in_usize_iff: "can_fit_in_usize gas \<longleftrightarrow> unat gas < 2 ^ 64"
proof -
  have "unat (of_nat (low_u64 gas) :: u256) = low_u64 gas"
    by (rule unat_of_nat_u256_small) (rule low_u64_less)
  then have "can_fit_in_usize gas \<longleftrightarrow> unat gas = low_u64 gas"
    unfolding can_fit_in_usize_def by (metis word_unat_eq_iff)
  then show ?thesis using low_u64_less [of gas] by (auto simp: low_u64_def)
qed

lemma evm_intro:
  assumes "ext_host X hinv" "jump_lru L ents bits_capacity code_of"
  shows "evm usize_cost unat of_nat 64 X hinv (shared_ops L bits_capacity) code_of (jump_cache_ok L ents bits_capacity code_of)"
  by (intro evm.intro machine.intro evm_axioms.intro usize_gas.cost_type_axioms assms(1) refl
    jump_lru.is_jump_cache [OF assms(2)])

definition finalized :: "'e ext_ops \<Rightarrow> ('e \<Rightarrow> bool) \<Rightarrow> u256 \<Rightarrow> 'e \<Rightarrow> FinalizationResult vm_result \<Rightarrow> 'e \<Rightarrow> bool" where
  "finalized X hinv gas e r e' \<longleftrightarrow> (case r of
       Ok fr \<Rightarrow> fz_gas_left fr \<le> gas \<and> wf_return_data (fz_return_data fr) \<and> hinv e' \<and> same_env X e e'
     | Err _ \<Rightarrow> hinv e' \<and> same_env X e e'
     | Panic p \<Rightarrow> is_host p)"

lemma finalize_finalized:
  assumes "ext_host X hinv" "run_ok (unat gas) r" "is_ok r \<or> (\<exists>err. r = Err err) \<Longrightarrow> hinv e' \<and> same_env X e e'"
    and "finalize X r e' = (fr, e'')"
  shows "finalized X hinv gas e fr e''"
proof -
  consider (known) g where "r = Ok (Known g)" | (ret) g rd ap where "r = Ok (NeedsReturn g rd ap)"
    | (err) err where "r = Err err" | (pan) p where "r = Panic p"
    by (metis GasLeft.exhaust outcome.exhaust)
  then show ?thesis
  proof cases
    case known
    with assms(2-4) show ?thesis by (auto simp: finalized_def run_ok_def is_ok_def ok_def word_le_nat_alt)
  next
    case ret
    have "hinv e'" "same_env X e e'" using assms(3) ret by (auto simp: is_ok_def)
    from host_opD [OF ext_host.host_ret [OF assms(1)] this(1), of g rd ap] ret assms(2,4) this(2)
    show ?thesis
      by (auto simp: finalized_def run_ok_def wp_def and_then_def ok_def word_le_nat_alt intro: same_env_trans
        split: prod.splits outcome.splits)
  next
    case err
    with assms(3,4) show ?thesis by (auto simp: finalized_def fail_def)
  next
    case pan
    with assms(2,4) show ?thesis by (auto simp: finalized_def run_ok_def panic_def)
  qed
qed


definition sample_params :: ActionParams where
  "sample_params = default_params\<lparr>ap_gas := 100000, ap_code := Some sample_code, ap_code_hash := None\<rparr>"

lemma sample_params_ok: "params_ok sample_params"
  by (simp add: params_ok_def sample_params_def default_params_def sample_code_def vec_ok_def)

lemma sample_cache_ok:
  "jump_cache_ok list_lru ll_entries bitvec_capacity (\<lambda>_. sample_code) (fa_evm_cache (factory_default list_lru))"
  by (simp add: jump_cache_ok_def factory_default_def shared_cache_default_def shared_cache_new_def list_crate.new_ok)


text \<open>
  C19: The factory gives the machine the narrow cost type exactly when the gas fits, so the conversion of the gas with
  which every run starts cannot fail.
\<close>

theorem vm_create_fits:
  "case vm_create f gas of
     Interpreter_usize vm \<Rightarrow> unat gas < 2 ^ 64 \<and> from_u256 usize_cost gas = Ok (of_nat (unat gas))
   | Interpreter_U256 vm \<Rightarrow> 2 ^ 64 \<le> unat gas \<and> from_u256 u256_cost gas = Ok gas"
  by (cases "fa_evm f")
    (auto simp: vm_create_def can_fit_in_usize_iff usize_gas.from_u256 u256_gas.from_u256 unat_lt_u256 [simplified])

end
