(* ===== verification/Evm_Properties.thy ===== *)
theory Evm_Properties
  imports Evm_Factory
begin

text \<open>
  What the components of the virtual machine guarantee, one theorem per guarantee: the loop, the instructions, the gas
  meter, memory, arithmetic and jump destinations.
\<close>

section \<open>The loop and its instructions\<close>

abbreviation usize_env ::
  "'e ext_ops \<Rightarrow> ('l, h256, Bits) lru_ops \<Rightarrow> (nat set \<Rightarrow> nat) \<Rightarrow> (bytes \<Rightarrow> h256) \<Rightarrow> (64 word, 'e, 'l MemoryLruCache) vm_env" where
  "usize_env X L bits_capacity keccak \<equiv>
     \<lparr>env_cost = usize_cost, env_ext = X, env_cache = shared_ops L bits_capacity, env_keccak = keccak\<rparr>"

text \<open>
  C2: One iteration of the interpreter's loop, on any host and cache that keep their contracts: the loop stands at the start
  of an instruction of the code, within its stack limit, with paid-for memory; afterwards it does so again with strictly
  less gas, or the run is over with no more gas than before, or the iteration returns an error.  It never panics in its own
  code.
\<close>

theorem exec_step_invariant:
  assumes "ext_host X hinv" "jump_lru L ents bits_capacity code_of" "cinv = jump_cache_ok L ents bits_capacity code_of"
    and "frame_ok unat X hinv cinv code s" "ex_position (fr_exec s) < length code" "params_ok params" "vec_ok code"
    and "code_hash_of keccak params code \<noteq> KECCAK_EMPTY \<Longrightarrow> code_of (code_hash_of keccak params code) = code"
  shows "wp (exec_step (usize_env X L bits_capacity keccak) params code)
    (\<lambda>r s'. frame_kept X hinv cinv (fr_ext s) s' \<and> (case r of
        None \<Rightarrow> frame_ok unat X hinv cinv code s' \<and> current s' < current s
      | Some gl \<Rightarrow> gas_left_ok (unat (current s)) gl))
    (\<lambda>_. frame_kept X hinv cinv (fr_ext s)) s"
  using evm.step_safe [OF evm_intro [OF assms(1,2)] assms(4) [unfolded assms(3)] assms(5-8)]
  unfolding assms(3) by (rule wp_mono) (auto simp: step_post_def word_less_nat_alt split: option.splits)

abbreviation sample_cinv :: "(h256, Bits) ListLru MemoryLruCache \<Rightarrow> bool" where
  "sample_cinv \<equiv> jump_cache_ok list_lru ll_entries bitvec_capacity (\<lambda>_. sample_code)"

definition sample_frame :: "(64 word, FakeExt, (h256, Bits) ListLru MemoryLruCache) Frame" where
  "sample_frame = start_frame usize_cost (new_interpreter (shared_cache_default list_lru)) FakeExt_new_byzantium 1000"

lemma sample_frame_ok: "frame_ok unat fake_ext fake_ok sample_cinv sample_code sample_frame"
proof -
  have "evm usize_cost unat of_nat 64 fake_ext fake_ok (shared_ops list_lru bitvec_capacity) (\<lambda>_. sample_code) sample_cinv"
    by (rule evm_intro [OF fake_host.ext_host_axioms sample_cache.jump_lru_axioms])
  from evm.start_frame_ok [OF this, of FakeExt_new_byzantium "new_interpreter (shared_cache_default list_lru)"]
  show ?thesis
    using fake_byzantium_ok sample_cache_ok by (simp add: sample_frame_def new_interpreter_def factory_default_def)
qed

theorem exec_step_invariant_witness:
  "wp (exec_step (usize_env fake_ext list_lru bitvec_capacity (\<lambda>_. 7)) sample_params sample_code)
    (\<lambda>r s'. frame_kept fake_ext fake_ok sample_cinv (fr_ext sample_frame) s' \<and> (case r of
        None \<Rightarrow> frame_ok unat fake_ext fake_ok sample_cinv sample_code s' \<and> current s' < current sample_frame
      | Some gl \<Rightarrow> gas_left_ok (unat (current sample_frame)) gl))
    (\<lambda>_. frame_kept fake_ext fake_ok sample_cinv (fr_ext sample_frame)) sample_frame"
  by (rule exec_step_invariant [OF fake_host.ext_host_axioms sample_cache.jump_lru_axioms refl sample_frame_ok _ sample_params_ok])
    (simp_all add: sample_frame_def start_frame_def sample_code_def vec_ok_def)


definition sample_exec :: "FakeExt Exec" where
  "sample_exec = \<lparr>ex_mem = [], ex_return_data = rd_empty, ex_ext = FakeExt_new_byzantium, ex_position = 1,
     ex_stack = \<lparr>st_items = [40, 2], st_logs = [0, 0, 0, 0]\<rparr>\<rparr>"


section \<open>Gas\<close>





text \<open>
  C4: The requirements the gas meter computes for an instruction cover what the instruction will do: all memory it touches
  is in the size asked for, the total is at least the instruction's own price plus the price of the new memory plus the gas
  for a child, gas for a child is provided exactly for the instructions that start one, and the operations on the host keep
  its contract.  No computation in it panics.
\<close>

theorem requirements_cover:
  assumes "ext_host X hinv" "hinv e" "info_args (INSTRUCTIONS i) \<le> length (st_items st)"
    and "info_tier (INSTRUCTIONS i) \<noteq> Invalid" "mem_paid unat (ext_schedule X e) (current_mem_gas gm) n"
  shows "wp (requirements usize_cost X gm i (INSTRUCTIONS i) st n)
    (\<lambda>r e'. hinv e' \<and> same_env X e e' \<and> requirements_ok unat (ext_schedule X e) i st n r)
    (\<lambda>_ e'. hinv e' \<and> same_env X e e') e"
  using machine.requirements_safe [OF machine.intro [OF usize_gas.cost_type_axioms assms(1)]] assms(2-)
  by simp

theorem requirements_cover_witness:
  "wp (requirements usize_cost fake_ext \<lparr>current_gas = 1000, current_mem_gas = 0\<rparr> MLOAD (INSTRUCTIONS MLOAD)
      \<lparr>st_items = [64], st_logs = [0, 0, 0, 0]\<rparr> 0)
    (\<lambda>r e'. fake_ok e' \<and> same_env fake_ext FakeExt_new_byzantium e'
      \<and> requirements_ok unat (ext_schedule fake_ext FakeExt_new_byzantium) MLOAD \<lparr>st_items = [64], st_logs = [0, 0, 0, 0]\<rparr> 0 r)
    (\<lambda>_ e'. fake_ok e' \<and> same_env fake_ext FakeExt_new_byzantium e') FakeExt_new_byzantium"
  by (rule requirements_cover [OF fake_host.ext_host_axioms fake_byzantium_ok])
    (simp_all add: INSTRUCTIONS_simps mem_paid_def mem_price_def)

text \<open>
  C8: The gas meter over \<open>U256\<close> costs panics on large memory.  The size of the memory is converted to \<open>usize\<close> before the
  gas is verified, so an \<open>MLOAD\<close> at an offset between \<open>2 ^ 64\<close> and \<open>2 ^ 100\<close> panics in the conversion instead of
  failing with \<open>OutOfGas\<close>, however little gas there is.
\<close>

theorem u256_requirements_panic:
  assumes "wf_schedule (ext_schedule X e)" "st_items st \<noteq> []" "2 ^ 64 \<le> unat (arg st 0)" "unat (arg st 0) < 2 ^ 100"
  shows "requirements u256_cost X (new_gasometer u256_cost gas) MLOAD (INSTRUCTIONS MLOAD) st 0 e = (Panic Cast_overflow, e)"
proof -
  let ?sch = "ext_schedule X e" and ?m = "unat (arg st 0) + 32"
  let ?w = "mem_words ?m"
  have peek: "peek st 0 = Ok (arg st 0)" using assms(2) by (simp add: peek_arg [of "length (st_items st)"])
  have mg: "memory_gas ?sch < 2 ^ 32"
    using wf_schedule_extra [OF assms(1), of "memory_gas ?sch"] by (simp add: extra_prices_def)
  have m: "?m < 2 ^ 101" using assms(4) by simp
  have w: "?w < 2 ^ 97" "2 ^ 64 \<le> 32 * ?w" using m mem_words_bounds [of ?m] assms(3) by simp_all
  have ww: "?w * ?w < 2 ^ 97 * 2 ^ 97" using w(1) by (intro mult_strict_mono) simp_all
  have wm: "?w * memory_gas ?sch \<le> 2 ^ 97 * 2 ^ 32" using w(1) mg by (intro mult_mono) simp_all
  have "?w * ?w div 512 \<le> ?w * ?w" by simp
  with ww wm have price: "mem_price ?sch ?w < 2 ^ 256" unfolding mem_price_def by simp
  have "unat (of_nat ?m :: u256) = ?m" using m by (intro unat_of_nat_u256) simp
  then have "mem_gas_cost u256_cost (new_gasometer u256_cost gas) ?sch 0 (of_nat ?m) = Panic Cast_overflow"
    using u256_gas.mem_gas_cost_eq [OF assms(1), of "new_gasometer u256_cost gas" 0 "of_nat ?m"] m w ww wm price
    by (simp add: new_gasometer_def mem_paid_def mem_price_def)
  moreover have "mem_needed_const u256_cost (arg st 0) 32 = Ok (of_nat ?m)"
    using m u256_gas.mem_needed_const_eq [of 32 "arg st 0"] by simp
  moreover have "index (tier_step_gas ?sch) (get_tier_idx (info_tier (INSTRUCTIONS MLOAD)))
      = (Ok (tier_step_gas ?sch ! get_tier_idx (info_tier (INSTRUCTIONS MLOAD))) :: nat vm_result)"
    using assms(1) by (simp add: index_def wf_schedule_def INSTRUCTIONS_simps)
  ultimately show ?thesis
    using peek by (simp add: requirements_def request_of_def settle_def comp_defs)
qed

theorem u256_requirements_panic_witness:
  "requirements u256_cost fake_ext (new_gasometer u256_cost 21000) MLOAD (INSTRUCTIONS MLOAD)
      \<lparr>st_items = [2 ^ 70], st_logs = [0, 0, 0, 0]\<rparr> 0 FakeExt_new_byzantium = (Panic Cast_overflow, FakeExt_new_byzantium)"
  by (rule u256_requirements_panic) (simp_all add: arg_def fake_host.host_schedule [OF fake_byzantium_ok])

section \<open>Memory and data\<close>

text \<open>
  C15: A word written to allocated memory is read back unchanged, at any offset, and the write keeps the size of the memory.
\<close>

theorem memory_word_roundtrip:
  assumes "unat off + 32 \<le> length m" "vec_ok m"
  shows "\<exists>m'. mem_write m off v = Ok m' \<and> mem_read m' off = Ok v \<and> length m' = length m"
  by (rule mem_read_after_write [OF assms])

theorem memory_word_roundtrip_witness:
  "\<exists>m'. mem_write (replicate 64 0) 5 0xabcdef = Ok m' \<and> mem_read m' 5 = Ok 0xabcdef \<and> length m' = length (replicate 64 (0 :: u8))"
  by (rule memory_word_roundtrip) (simp_all add: vec_ok_def)

text \<open>
  C16: The bytes handed to the caller by \<open>RETURN\<close> and \<open>REVERT\<close> are the bytes of the memory range, whether the memory is
  moved as it is or copied because too much of it would be wasted.
\<close>

theorem into_return_data_correct:
  assumes "in_mem (length m) off sz" "vec_ok m"
  shows "\<exists>rd. into_return_data m off sz = Ok rd \<and> wf_return_data rd \<and> rd_deref rd = Ok (mem_bytes m off sz)"
  using into_return_data_bytes [OF assms] rd_deref_wf by metis

theorem into_return_data_correct_witness:
  "\<exists>rd. into_return_data [1, 2, 3, 4] 1 2 = Ok rd \<and> wf_return_data rd \<and> rd_deref rd = Ok [2, 3]"
  using into_return_data_correct [of "[1, 2, 3, 4]" 1 2]
  by (simp add: in_mem_def vec_ok_def mem_bytes_def)

text \<open>
  C9: \<open>CODECOPY\<close>, \<open>CALLDATACOPY\<close> and \<open>EXTCODECOPY\<close> write exactly the requested range of memory, with the bytes of
  the source where it has them and zeros beyond its end, for every 256-bit offset and size.
\<close>

theorem copy_data_correct:
  assumes "in_mem (length m) dest sz" "vec_ok m" "vec_ok source"
  shows "\<exists>m'. copy_data source dest so sz m = Ok m' \<and> length m' = length m
    \<and> (\<forall>j < length m. m' ! j = (if unat dest \<le> j \<and> j < unat dest + unat sz
        then let k = unat so + (j - unat dest) in if k < length source then source ! k else 0 else m ! j))"
proof (cases "sz = 0")
  case True
  then show ?thesis using copy_data_eq [OF assms, of so] by auto
next
  case False
  then have "unat dest + unat sz \<le> length m" using assms(1) by (simp add: in_mem_def)
  then show ?thesis
    using copy_data_eq [OF assms, of so] False
    by (auto simp: nth_splice zero_padded_def nth_append Let_def add.commute)
qed

theorem copy_data_correct_witness:
  "\<exists>m'. copy_data [7, 8, 9] 1 2 3 [1, 1, 1, 1, 1] = Ok m' \<and> length m' = 5 \<and> m' ! 1 = 9 \<and> m' ! 2 = 0 \<and> m' ! 4 = 1"
  using copy_data_correct [of "[1, 1, 1, 1, 1]" 1 3 "[7, 8, 9]" 2] by (auto simp: in_mem_def vec_ok_def)

text \<open>C17: \<open>CALLDATALOAD\<close> reads 32 bytes of the call data at any 256-bit offset, zeros beyond their end.\<close>

theorem calldataload_correct:
  assumes "vec_ok data"
  shows "calldataload (Some data) i = Ok (u256_from_be (zero_padded data (unat i) 32))"
  by (rule calldataload_eq [OF assms])

theorem calldataload_correct_witness: "calldataload (Some [1, 2]) 1 = Ok (u256_from_be (2 # replicate 31 0))"
  using calldataload_correct [of "[1, 2]" 1] by (simp add: vec_ok_def zero_padded_def)

section \<open>Arithmetic\<close>

text \<open>
  C10: \<open>SDIV\<close> is division of two's-complement integers, truncated towards zero and reduced to 256 bits; division by zero
  gives zero.
\<close>

theorem sdiv_correct: "op_sdiv a b = (if b = 0 then 0 else word_of_int (int_quot (sint a) (sint b)))"
  by (rule op_sdiv_eq)

text \<open>C11: \<open>SMOD\<close> is the remainder that belongs to it: it has the sign of the dividend.\<close>

theorem smod_correct: "op_smod a b = (if b = 0 then 0 else word_of_int (int_rem (sint a) (sint b)))"
  by (rule op_smod_eq)

text \<open>
  C12: \<open>ADDMOD\<close> and \<open>MULMOD\<close> compute with the unreduced sum and product, never panic in the conversion back to 256 bits,
  and give zero for a zero modulus.
\<close>

theorem modular_arithmetic_correct:
  "op_addmod a b c = Ok (if c = 0 then 0 else of_nat ((unat a + unat b) mod unat c))
   \<and> op_mulmod a b c = Ok (if c = 0 then 0 else of_nat ((unat a * unat b) mod unat c))"
  by (simp add: op_addmod_eq op_mulmod_eq)

text \<open>C13: \<open>SIGNEXTEND\<close> extends the sign of the low \<open>k + 1\<close> bytes.\<close>

theorem signextend_correct:
  assumes "unat k < 32"
  shows "op_signextend k x = signed_take_bit (8 * unat k + 7) x"
  by (rule op_signextend_eq [OF assms])

theorem signextend_correct_witness: "op_signextend 0 0xff = signed_take_bit 7 0xff"
  using signextend_correct [of 0 "0xff"] by simp

text \<open>C14: The special cases of \<open>DIV\<close> for powers of two agree with division.\<close>

theorem div_correct: "op_div a b = (if b = 0 then 0 else a div b)"
  by (rule op_div_eq)

section \<open>Jump destinations\<close>

text \<open>
  C5: The scan for jump destinations finds exactly the \<open>JUMPDEST\<close> bytes at which an instruction starts when the code is
  read from its beginning, never one inside the data of a push.
\<close>

theorem find_jump_destinations_correct:
  "find_jump_destinations code = Ok {p. boundary code p \<and> p < length code \<and> code ! p = JUMPDEST}"
  by (simp add: find_jump_destinations_eq valid_destinations_def)

text \<open>
  C18: The shared cache does not change the answer: whatever was cached or evicted before, the destinations returned are
  those of the code, and the cache stays in a state in which this holds.
\<close>

theorem jump_destinations_cached:
  assumes "jump_lru L ents bits_capacity code_of" "jump_cache_ok L ents bits_capacity code_of c"
    and "h \<noteq> KECCAK_EMPTY \<Longrightarrow> code_of h = code"
  shows "wp (jump_destinations (shared_ops L bits_capacity) h code)
    (\<lambda>d c'. jump_cache_ok L ents bits_capacity code_of c' \<and> d = valid_destinations code) (\<lambda>_ _. False) c"
  by (rule jump_cache.jump_destinations_correct [OF jump_lru.is_jump_cache [OF assms(1)] assms(2,3)])

theorem jump_destinations_cached_witness:
  "wp (jump_destinations (shared_ops list_lru bitvec_capacity) 7 sample_code)
    (\<lambda>d c'. sample_cinv c' \<and> d = valid_destinations sample_code) (\<lambda>_ _. False) (shared_cache_default list_lru)"
  using sample_cache_ok
  by (intro jump_destinations_cached [OF sample_cache.jump_lru_axioms]) (simp_all add: factory_default_def)

end
