(* ===== verification/Rlp_Stream.thy ===== *)
theory Rlp_Stream
  imports Prelude
begin

text \<open>
  The RLP encoder (\<open>util/rlp/src/stream.rs\<close>, \<open>error.rs\<close>): a buffer to which values are appended, and a stack of lists
  that are still open.  The prefix of a list is patched into the buffer when its last item has been appended.  The main
  result is that this back-patching encoder computes the recursive encoding \<open>enc\<close> of the yellow paper.
\<close>

section \<open>Definitions\<close>

datatype DecoderError =
    RlpIsTooBig
  | RlpIsTooShort
  | RlpExpectedToBeList
  | RlpExpectedToBeData
  | RlpIncorrectListLen
  | RlpDataLenWithZeroPrefix
  | RlpListLenWithZeroPrefix
  | RlpInvalidIndirection
  | RlpInconsistentLengthAndData
  | RlpInvalidLength
  | Custom string

type_synonym 'a rlp_result = "(DecoderError, 'a) outcome"

record ListInfo =
  li_position :: nat
  li_current :: nat
  li_max :: "nat option"

definition ListInfo_new :: "nat \<Rightarrow> nat option \<Rightarrow> ListInfo" where
  "ListInfo_new position mx = \<lparr>li_position = position, li_current = 0, li_max = mx\<rparr>"

text \<open>The back of \<open>unfinished_lists\<close> is the end of the list.\<close>

record RlpStream =
  rs_unfinished_lists :: "ListInfo list"
  rs_buffer :: bytes
  rs_finished_list :: bool

type_synonym 'a rlp_comp = "(DecoderError, RlpStream, 'a) comp"

definition stream_new :: RlpStream where
  "stream_new = \<lparr>rs_unfinished_lists = [], rs_buffer = [], rs_finished_list = False\<rparr>"

text \<open>\<open>insert_size\<close> inserts the size at \<open>position\<close>, as a 32-bit integer without its leading zero bytes.\<close>

definition insert_size :: "nat \<Rightarrow> nat \<Rightarrow> bytes \<Rightarrow> (u8 \<times> bytes) rlp_result" where
  "insert_size sz position buffer =
     (let sz = sz mod 2 ^ 32;
          leading_empty_bytes = leading_zeros 32 sz div 8;
          size_bytes = 4 - of_nat leading_empty_bytes
      in if position \<le> length buffer
         then Ok (size_bytes, take position buffer @ drop leading_empty_bytes (be_bytes 4 sz) @ drop position buffer)
         else Panic Index_out_of_bounds)"

definition set_byte :: "nat \<Rightarrow> u8 \<Rightarrow> bytes \<Rightarrow> bytes rlp_result" where
  "set_byte i b buffer = (if i < length buffer then Ok (buffer[i := b]) else Panic Index_out_of_bounds)"

definition insert_list_payload :: "nat \<Rightarrow> nat \<Rightarrow> bytes \<Rightarrow> bytes rlp_result" where
  "insert_list_payload len pos buffer =
     (if len \<le> 55 then
        ok_then (usize_sub pos 1) (\<lambda>i. set_byte i (0xc0 + of_nat len) buffer)
      else
        ok_then (insert_size len pos buffer) (\<lambda>(inserted_bytes, buffer).
        ok_then (usize_sub pos 1) (\<lambda>i. set_byte i (0xf7 + inserted_bytes) buffer)))"

definition encode_value :: "bytes \<Rightarrow> bytes \<Rightarrow> bytes rlp_result" where
  "encode_value v buffer =
     (if length v = 0 then Ok (buffer @ [0x80])
      else if length v = 1 \<and> v ! 0 < 0x80 then Ok (buffer @ [v ! 0])
      else if length v \<le> 55 then Ok (buffer @ [0x80 + of_nat (length v)] @ v)
      else
        let buffer = buffer @ [0]; position = length buffer in
        ok_then (insert_size (length v) position buffer) (\<lambda>(inserted_bytes, buffer).
        ok_then (set_byte (position - 1) (0xb7 + inserted_bytes) buffer) (\<lambda>buffer.
        Ok (buffer @ v))))"

text \<open>An operation of the encoder, which borrows the buffer of the stream.\<close>

definition on_buffer :: "(bytes \<Rightarrow> bytes rlp_result) \<Rightarrow> unit rlp_comp" where
  "on_buffer f = (\<lambda>s. case f (rs_buffer s) of Ok b \<Rightarrow> (Ok (), s\<lparr>rs_buffer := b\<rparr>) | Err e \<Rightarrow> (Err e, s) | Panic p \<Rightarrow> (Panic p, s))"

text \<open>Patch the prefix of a list that has just been taken off the stack: its items start at \<open>position\<close>.\<close>

definition patch_list :: "ListInfo \<Rightarrow> bytes \<Rightarrow> bytes rlp_result" where
  "patch_list x b = ok_then (usize_sub (length b) (li_position x)) (\<lambda>len. insert_list_payload len (li_position x) b)"

text \<open>
  \<open>note_appended\<close>: count the items of the innermost open list; when it is complete, close it, and count it as an item of
  the list around it.
\<close>

function note_appended :: "nat \<Rightarrow> unit rlp_comp" where
  "note_appended inserted_items s =
     (if rs_unfinished_lists s = [] then (Ok (), s)
      else
        let outer = butlast (rs_unfinished_lists s); x = last (rs_unfinished_lists s);
            cur = li_current x + inserted_items;
            s1 = s\<lparr>rs_unfinished_lists := outer @ [x\<lparr>li_current := cur\<rparr>]\<rparr>
        in if usize_range \<le> cur then (Panic Arith_overflow, s)
           else (case li_max x of
             Some mx \<Rightarrow>
               if mx < cur then (Panic Assert_failed, s1)
               else if cur = mx then
                 (case patch_list x (rs_buffer s) of
                    Ok b \<Rightarrow> (case note_appended 1 (s\<lparr>rs_unfinished_lists := outer, rs_buffer := b\<rparr>) of
                        (Ok _, s2) \<Rightarrow> (Ok (), s2\<lparr>rs_finished_list := True\<rparr>)
                      | r \<Rightarrow> r)
                  | Err e \<Rightarrow> (Err e, s1)
                  | Panic p \<Rightarrow> (Panic p, s1))
               else (Ok (), s1\<lparr>rs_finished_list := False\<rparr>)
           | None \<Rightarrow> (Ok (), s1\<lparr>rs_finished_list := False\<rparr>)))"
  by pat_completeness auto
termination by (relation "measure (\<lambda>(_, s). length (rs_unfinished_lists s))") auto

declare note_appended.simps [simp del]

definition push_byte :: "u8 \<Rightarrow> unit rlp_comp" where
  "push_byte b = modify (\<lambda>s. s\<lparr>rs_buffer := rs_buffer s @ [b]\<rparr>)"

definition set_finished :: "bool \<Rightarrow> unit rlp_comp" where
  "set_finished f = modify (\<lambda>s. s\<lparr>rs_finished_list := f\<rparr>)"

definition open_list :: "nat option \<Rightarrow> unit rlp_comp" where
  "open_list mx = modify (\<lambda>s. s\<lparr>rs_unfinished_lists := rs_unfinished_lists s @ [ListInfo_new (length (rs_buffer s)) mx]\<rparr>)"

definition begin_list :: "nat \<Rightarrow> unit rlp_comp" where
  "begin_list len = and_then (set_finished False) (\<lambda>_.
     if len = 0 then and_then (push_byte 0xc0) (\<lambda>_. and_then (note_appended 1) (\<lambda>_. set_finished True))
     else and_then (push_byte 0) (\<lambda>_. open_list (Some len)))"

definition begin_unbounded_list :: "unit rlp_comp" where
  "begin_unbounded_list = and_then (set_finished False) (\<lambda>_. and_then (push_byte 0) (\<lambda>_. open_list None))"

definition new_list :: "nat \<Rightarrow> RlpStream rlp_result" where
  "new_list len = (case begin_list len stream_new of (r, s) \<Rightarrow> map_outcome (\<lambda>_. s) r)"

text \<open>\<open>append\<close>: the argument is the \<open>rlp_append\<close> of the value.\<close>

definition append_item :: "unit rlp_comp \<Rightarrow> unit rlp_comp" where
  "append_item rlp_append = and_then (set_finished False) (\<lambda>_. and_then rlp_append (\<lambda>_.
     and_then (gets rs_finished_list) (\<lambda>finished. if \<not> finished then note_appended 1 else ok ())))"

fun append_all :: "('v \<Rightarrow> unit rlp_comp) \<Rightarrow> 'v list \<Rightarrow> unit rlp_comp" where
  "append_all rlp_append [] = ok ()"
| "append_all rlp_append (v # vs) = and_then (append_item (rlp_append v)) (\<lambda>_. append_all rlp_append vs)"

definition append_list :: "('v \<Rightarrow> unit rlp_comp) \<Rightarrow> 'v list \<Rightarrow> unit rlp_comp" where
  "append_list rlp_append vs = and_then (begin_list (length vs)) (\<lambda>_. append_all rlp_append vs)"

definition append_internal :: "unit rlp_comp \<Rightarrow> unit rlp_comp" where
  "append_internal rlp_append = rlp_append"

definition append_empty_data :: "unit rlp_comp" where
  "append_empty_data = and_then (push_byte 0x80) (\<lambda>_. note_appended 1)"

definition append_raw :: "bytes \<Rightarrow> nat \<Rightarrow> unit rlp_comp" where
  "append_raw bs item_count = and_then (modify (\<lambda>s. s\<lparr>rs_buffer := rs_buffer s @ bs\<rparr>)) (\<lambda>_. note_appended item_count)"

text \<open>\<open>(len as u64).leading_zeros() / 8\<close> bytes of the length are empty.\<close>

fun estimate_lists :: "nat \<Rightarrow> ListInfo list \<Rightarrow> nat \<Rightarrow> nat rlp_result" where
  "estimate_lists total_size [] base_size = Ok base_size"
| "estimate_lists total_size (x # xs) base_size = ok_then (usize_sub total_size (li_position x)) (\<lambda>len.
     estimate_lists total_size xs
       (if 55 < len then base_size + (8 - leading_zeros 64 len div 8) else base_size))"

definition estimate_size :: "nat \<Rightarrow> RlpStream \<Rightarrow> nat rlp_result" where
  "estimate_size add s = (let total_size = length (rs_buffer s) + add in
     estimate_lists total_size (rs_unfinished_lists s) total_size)"

definition stream_len :: "RlpStream \<Rightarrow> nat rlp_result" where
  "stream_len s = estimate_size 0 s"

definition append_raw_checked :: "bytes \<Rightarrow> nat \<Rightarrow> nat \<Rightarrow> bool rlp_comp" where
  "append_raw_checked bs item_count max_size = and_then (\<lambda>s. (estimate_size (length bs) s, s)) (\<lambda>n.
     if max_size < n then ok False else and_then (append_raw bs item_count) (\<lambda>_. ok True))"

definition clear :: "unit rlp_comp" where
  "clear = modify (\<lambda>s. s\<lparr>rs_buffer := [], rs_unfinished_lists := []\<rparr>)"

definition is_finished :: "RlpStream \<Rightarrow> bool" where
  "is_finished s \<longleftrightarrow> length (rs_unfinished_lists s) = 0"

definition as_raw :: "RlpStream \<Rightarrow> bytes" where
  "as_raw s = rs_buffer s"

definition out :: "RlpStream \<Rightarrow> bytes rlp_result" where
  "out s = (if is_finished s then Ok (rs_buffer s) else Panic Assert_failed)"

definition drain :: "RlpStream \<Rightarrow> bytes rlp_result" where
  "drain s = (if is_finished s then Ok (rs_buffer s) else Panic Assert_failed)"

definition complete_unbounded_list :: "unit rlp_comp" where
  "complete_unbounded_list = (\<lambda>s.
     if rs_unfinished_lists s = [] then (Panic Expect_failed, s)
     else
       let x = last (rs_unfinished_lists s); s = s\<lparr>rs_unfinished_lists := butlast (rs_unfinished_lists s)\<rparr> in
       if li_max x \<noteq> None then (Panic Assert_failed, s)
       else and_then (on_buffer (patch_list x)) (\<lambda>_. note_appended 1) s)"

text \<open>\<open>rlp::encode\<close> and \<open>rlp::encode_list\<close>.\<close>

definition run_stream :: "unit rlp_comp \<Rightarrow> bytes rlp_result" where
  "run_stream m = (case m stream_new of (r, s) \<Rightarrow> ok_then r (\<lambda>_. drain s))"

definition encode :: "unit rlp_comp \<Rightarrow> bytes rlp_result" where
  "encode rlp_append = run_stream (append_item rlp_append)"

definition encode_list :: "('v \<Rightarrow> unit rlp_comp) \<Rightarrow> 'v list \<Rightarrow> bytes rlp_result" where
  "encode_list rlp_append vs = run_stream (append_list rlp_append vs)"

definition rlp_bytes :: "unit rlp_comp \<Rightarrow> bytes rlp_result" where
  "rlp_bytes rlp_append = run_stream rlp_append"

section \<open>The recursive encoding\<close>

datatype rlp_item = RData bytes | RList "rlp_item list"

definition enc_prefix :: "u8 \<Rightarrow> u8 \<Rightarrow> nat \<Rightarrow> bytes" where
  "enc_prefix short long n = (if n \<le> 55 then [short + of_nat n] else (long + of_nat (length (be_min n))) # be_min n)"

definition enc_data :: "bytes \<Rightarrow> bytes" where
  "enc_data b = (if length b = 1 \<and> b ! 0 < 0x80 then b else enc_prefix 0x80 0xb7 (length b) @ b)"

definition enc_payload :: "bytes \<Rightarrow> bytes" where
  "enc_payload p = enc_prefix 0xc0 0xf7 (length p) @ p"

fun enc :: "rlp_item \<Rightarrow> bytes" where
  "enc (RData b) = enc_data b"
| "enc (RList xs) = enc_payload (concat (map enc xs))"

lemma enc_prefix_ne [simp]: "enc_prefix sh lg n \<noteq> []"
  by (simp add: enc_prefix_def)

lemma enc_data_ne [simp]: "enc_data b \<noteq> []"
  by (auto simp: enc_data_def)

lemma enc_ne [simp]: "enc x \<noteq> []"
  by (cases x) (simp_all add: enc_payload_def)

lemma length_items_le: "length xs \<le> length (concat (map enc xs))"
proof (induction xs)
  case (Cons x xs)
  have "1 \<le> length (enc x)" by (cases "enc x") auto
  with Cons show ?case by simp
qed simp

lemma payload_length_le: "length p \<le> length (enc_payload p)"
  by (simp add: enc_payload_def)

section \<open>The prefixes\<close>

lemma insert_size_eq:
  assumes "n < 2 ^ 32" "pos \<le> length b"
  shows "insert_size n pos b = Ok (of_nat (length (be_min n)), take pos b @ be_min n @ drop pos b)"
proof -
  have n: "n < 256 ^ 4" using assms(1) by simp
  have le: "length (be_min n) \<le> 4" using length_be_min_le [OF n] .
  have lead: "leading_zeros 32 n div 8 = 4 - length (be_min n)"
    using div8_up [of 4 "nat_bits n"] by (simp add: leading_zeros_def length_be_min)
  have "(4 :: u8) - of_nat (4 - length (be_min n)) = of_nat (length (be_min n))"
    using le by (simp add: of_nat_diff)
  moreover have "drop (leading_zeros (8 * 4) n div 8) (be_bytes 4 n) = be_min n" by (rule drop_leading [OF n])
  ultimately show ?thesis
    using assms lead by (simp add: insert_size_def Let_def)
qed

lemma encode_value_eq:
  assumes "length v < 2 ^ 32"
  shows "encode_value v b = Ok (b @ enc_data v)"
proof (cases "length v \<le> 55")
  case True
  then show ?thesis
    by (cases v) (auto simp: encode_value_def enc_data_def enc_prefix_def)
next
  case False
  then have "length v \<noteq> 0" "length v \<noteq> 1" by auto
  with False assms show ?thesis
    by (auto simp: encode_value_def enc_data_def enc_prefix_def insert_size_eq set_byte_def Let_def list_update_append)
qed

lemma patch_list_eq:
  assumes "length p < 2 ^ 32" "li_position x = Suc (length b)"
  shows "patch_list x (b @ 0 # p) = Ok (b @ enc_payload p)"
proof -
  have "usize_sub (length (b @ 0 # p)) (li_position x) = (Ok (length p) :: nat rlp_result)"
    using assms(2) by (simp add: usize_sub_def)
  moreover have "usize_sub (Suc (length b)) 1 = (Ok (length b) :: nat rlp_result)" by (simp add: usize_sub_def)
  ultimately show ?thesis
    using assms by (auto simp: patch_list_def insert_list_payload_def enc_payload_def enc_prefix_def insert_size_eq
      set_byte_def list_update_append)
qed

section \<open>The stream computes the encoding\<close>

text \<open>A sequence of calls on the stream.\<close>

fun seq_all :: "unit rlp_comp list \<Rightarrow> unit rlp_comp" where
  "seq_all [] = ok ()"
| "seq_all (m # ms) = and_then m (\<lambda>_. seq_all ms)"

lemma append_all_seq: "append_all f vs = seq_all (map (\<lambda>v. append_item (f v)) vs)"
  by (induction vs) simp_all

text \<open>The append operation of an item, composed as the implementations of \<open>Encodable\<close> compose it.\<close>

lemma append_all_cong [fundef_cong]:
  "xs = ys \<Longrightarrow> (\<And>x. x \<in> set ys \<Longrightarrow> f x = g x) \<Longrightarrow> append_all f xs = append_all g ys"
  by (induction ys arbitrary: xs) auto

fun item_append :: "rlp_item \<Rightarrow> unit rlp_comp" where
  "item_append (RData b) = on_buffer (encode_value b)"
| "item_append (RList xs) = and_then (begin_list (length xs)) (\<lambda>_. append_all item_append xs)"

text \<open>Two results that differ at most in the flag \<open>finished_list\<close>.\<close>

definition agree :: "'a \<times> RlpStream \<Rightarrow> 'a \<times> RlpStream \<Rightarrow> bool" where
  "agree a b \<longleftrightarrow> fst a = fst b \<and> (snd a)\<lparr>rs_finished_list := False\<rparr> = (snd b)\<lparr>rs_finished_list := False\<rparr>"

lemma agree_refl [simp]: "agree a a"
  by (simp add: agree_def)

lemma agree_trans: "agree a b \<Longrightarrow> agree b c \<Longrightarrow> agree a c"
  by (simp add: agree_def)

lemma note_closing:
  assumes "rs_unfinished_lists s = outer @ [x]" "li_max x = Some (li_current x + k)" "li_current x + k < usize_range"
    and "patch_list x (rs_buffer s) = Ok b"
  shows "note_appended k s = (case note_appended 1 (s\<lparr>rs_unfinished_lists := outer, rs_buffer := b\<rparr>) of
     (Ok _, s2) \<Rightarrow> (Ok (), s2\<lparr>rs_finished_list := True\<rparr>) | r \<Rightarrow> r)"
  using assms by (subst note_appended.simps) simp

lemma note_open:
  assumes "rs_unfinished_lists s = outer @ [x]" "case li_max x of None \<Rightarrow> True | Some mx \<Rightarrow> li_current x + k < mx"
    and "li_current x + k < usize_range"
  shows "note_appended k s =
    (Ok (), s\<lparr>rs_unfinished_lists := outer @ [x\<lparr>li_current := li_current x + k\<rparr>], rs_finished_list := False\<rparr>)"
  using assms by (subst note_appended.simps) (simp split: option.splits)

lemma note_flag: "agree (note_appended k (s\<lparr>rs_finished_list := f\<rparr>)) (note_appended k s)"
proof (induction "length (rs_unfinished_lists s)" arbitrary: s k rule: less_induct)
  case less
  show ?case
  proof (cases "rs_unfinished_lists s" rule: rev_cases)
    case Nil
    then show ?thesis by (simp add: note_appended.simps agree_def)
  next
    case (snoc outer x)
    let ?cur = "li_current x + k"
    note unf = note_appended.simps [of k s] note_appended.simps [of k "s\<lparr>rs_finished_list := f\<rparr>"]
    consider "usize_range \<le> ?cur" | "?cur < usize_range" "li_max x = None" | mx where "?cur < usize_range" "li_max x = Some mx" "mx \<noteq> ?cur"
      | "?cur < usize_range" "li_max x = Some ?cur" "\<And>b. patch_list x (rs_buffer s) \<noteq> Ok b"
      | b where "?cur < usize_range" "li_max x = Some ?cur" "patch_list x (rs_buffer s) = Ok b"
      by fastforce
    then show ?thesis
    proof cases
      case (5 b)
      let ?s = "s\<lparr>rs_unfinished_lists := outer, rs_buffer := b\<rparr>"
      have eq: "s\<lparr>rs_finished_list := f, rs_unfinished_lists := outer, rs_buffer := b\<rparr> = ?s\<lparr>rs_finished_list := f\<rparr>" by simp
      have "agree (note_appended 1 (?s\<lparr>rs_finished_list := f\<rparr>)) (note_appended 1 ?s)"
        by (rule less) (simp add: snoc)
      then show ?thesis
        using note_closing [OF snoc 5(2,1,3)] note_closing [of "s\<lparr>rs_finished_list := f\<rparr>" outer x k b] snoc 5 unfolding eq
        by (cases "note_appended 1 ?s"; cases "note_appended 1 (?s\<lparr>rs_finished_list := f\<rparr>)"; cases "fst (note_appended 1 ?s)")
          (auto simp: agree_def)
    next
      case 4
      then show ?thesis using snoc by (cases "patch_list x (rs_buffer s)") (auto simp: unf agree_def Let_def)
    qed (use snoc in \<open>auto simp: unf agree_def Let_def\<close>)
  qed
qed

text \<open>\<open>put bs\<close> is the effect of one encoded item: its bytes go to the buffer and it is counted.\<close>

definition put :: "bytes \<Rightarrow> unit rlp_comp" where
  "put bs s = note_appended 1 (s\<lparr>rs_buffer := rs_buffer s @ bs\<rparr>)"

text \<open>The next item completes the innermost list.\<close>

definition closing :: "RlpStream \<Rightarrow> bool" where
  "closing s \<longleftrightarrow> (\<exists>outer x. rs_unfinished_lists s = outer @ [x] \<and> li_max x = Some (Suc (li_current x)))"

definition puts :: "unit rlp_comp \<Rightarrow> bytes \<Rightarrow> bool" where
  "puts m bs \<longleftrightarrow> (\<forall>s. agree (m s) (put bs s) \<and> (closing s \<and> fst (m s) = Ok () \<longrightarrow> rs_finished_list (snd (m s))))"

lemma put_flag: "agree (put bs (s\<lparr>rs_finished_list := f\<rparr>)) (put bs s)"
  using note_flag [where k = 1 and s = "s\<lparr>rs_buffer := rs_buffer s @ bs\<rparr>" and f = f]
  by (cases s) (simp add: put_def)

lemma note_finished:
  assumes "closing s" "note_appended 1 s = (Ok (), s')"
  shows "rs_finished_list s'"
  using assms by (subst (asm) note_appended.simps)
    (auto simp: closing_def Let_def split: outcome.splits prod.splits if_splits)

lemma puts_data:
  assumes "length b < 2 ^ 32"
  shows "puts (append_item (item_append (RData b))) (enc_data b)"
  unfolding puts_def
proof (intro allI conjI impI)
  fix s :: RlpStream
  let ?s = "s\<lparr>rs_finished_list := False\<rparr>"
  have eq: "append_item (item_append (RData b)) s = put (enc_data b) ?s"
    using assms by (simp add: append_item_def comp_defs set_finished_def on_buffer_def encode_value_eq put_def)
  show "agree (append_item (item_append (RData b)) s) (put (enc_data b) s)"
    unfolding eq by (rule put_flag)
  assume "closing s \<and> fst (append_item (item_append (RData b)) s) = Ok ()"
  then have "fst (put (enc_data b) ?s) = Ok ()" "closing (?s\<lparr>rs_buffer := rs_buffer ?s @ enc_data b\<rparr>)"
    unfolding eq by (simp_all add: closing_def)
  then show "rs_finished_list (snd (append_item (item_append (RData b)) s))"
    unfolding eq put_def using note_finished by (metis prod.collapse)
qed

text \<open>A stream in the middle of a list of \<open>n\<close> items, of which \<open>i\<close> have been appended with encoding \<open>p\<close>.\<close>

definition within :: "RlpStream \<Rightarrow> nat \<Rightarrow> nat \<Rightarrow> bytes \<Rightarrow> RlpStream" where
  "within s n i p = s\<lparr>rs_unfinished_lists := rs_unfinished_lists s
       @ [\<lparr>li_position = Suc (length (rs_buffer s)), li_current = i, li_max = Some n\<rparr>],
     rs_buffer := rs_buffer s @ 0 # p\<rparr>"

lemma within_close: "(within s n i p)\<lparr>rs_unfinished_lists := rs_unfinished_lists s, rs_buffer := b\<rparr> = s\<lparr>rs_buffer := b\<rparr>"
  by (cases s) (simp add: within_def)

lemma put_within:
  assumes "Suc i < n" "n < usize_range"
  shows "agree (put bs (within s n i p)) (Ok (), within s n (Suc i) (p @ bs))"
proof -
  let ?t = "within s n i p"
  have "rs_unfinished_lists (?t\<lparr>rs_buffer := rs_buffer ?t @ bs\<rparr>) = rs_unfinished_lists s
      @ [\<lparr>li_position = Suc (length (rs_buffer s)), li_current = i, li_max = Some n\<rparr>]" by (simp add: within_def)
  from note_open [OF this, of 1] assms show ?thesis
    by (simp add: put_def within_def agree_def)
qed

lemma put_last:
  assumes "n = Suc i" "n < usize_range" "length (p @ bs) < 2 ^ 32"
  shows "agree (put bs (within s n i p)) (put (enc_payload (p @ bs)) s)"
proof -
  let ?t = "within s n i p" and ?x = "\<lparr>li_position = Suc (length (rs_buffer s)), li_current = i, li_max = Some n\<rparr>"
  let ?u = "s\<lparr>rs_buffer := rs_buffer s @ enc_payload (p @ bs)\<rparr>"
  have l: "rs_unfinished_lists (?t\<lparr>rs_buffer := rs_buffer ?t @ bs\<rparr>) = rs_unfinished_lists s @ [?x]"
    by (simp add: within_def)
  have patch: "patch_list ?x (rs_buffer (?t\<lparr>rs_buffer := rs_buffer ?t @ bs\<rparr>)) = Ok (rs_buffer s @ enc_payload (p @ bs))"
    using patch_list_eq [OF assms(3), of ?x "rs_buffer s"] by (simp add: within_def)
  have "put bs ?t = (case note_appended 1 ?u of (Ok _, s2) \<Rightarrow> (Ok (), s2\<lparr>rs_finished_list := True\<rparr>) | r \<Rightarrow> r)"
    unfolding put_def using note_closing [OF l _ _ patch, of 1] assms(1,2) by (simp add: within_close)
  then show ?thesis
    by (cases "note_appended 1 ?u"; cases "fst (note_appended 1 ?u)") (auto simp: put_def agree_def)
qed

lemma agree_Ok: "agree r (Ok (), w) \<Longrightarrow> \<exists>f. r = (Ok (), w\<lparr>rs_finished_list := f\<rparr>)"
proof -
  assume "agree r (Ok (), w)"
  then have "fst r = Ok ()" "snd r = w\<lparr>rs_finished_list := rs_finished_list (snd r)\<rparr>"
    by (cases "snd r"; cases w; simp add: agree_def)+
  then show ?thesis by (metis prod.collapse)
qed

lemma list_items:
  assumes "ms \<noteq> []" "list_all2 puts ms bss"
    and "i + length ms = n" "n < usize_range" "length (p @ concat bss) < 2 ^ 32"
  shows "agree (seq_all ms ((within s n i p)\<lparr>rs_finished_list := f\<rparr>)) (put (enc_payload (p @ concat bss)) s)
    \<and> (fst (seq_all ms ((within s n i p)\<lparr>rs_finished_list := f\<rparr>)) = Ok () \<longrightarrow>
       rs_finished_list (snd (seq_all ms ((within s n i p)\<lparr>rs_finished_list := f\<rparr>))))"
  using assms(2,1,3-)
proof (induction ms bss arbitrary: i p f rule: list_all2_induct)
  case (Cons m ms b bss)
  let ?t = "(within s n i p)\<lparr>rs_finished_list := f\<rparr>"
  let ?r = "m ?t"
  have y: "agree ?r (put b (within s n i p))" "closing ?t \<and> fst ?r = Ok () \<longrightarrow> rs_finished_list (snd ?r)"
    using Cons.hyps(1) put_flag by (auto simp: puts_def intro: agree_trans)
  show ?case
  proof (cases "ms = []")
    case True
    with Cons.hyps(2) have bss: "bss = []" by simp
    with True Cons.prems have "agree (put b (within s n i p)) (put (enc_payload (p @ b)) s)" by (intro put_last) simp_all
    with y(1) have "agree ?r (put (enc_payload (p @ b)) s)" by (rule agree_trans)
    moreover have "closing ?t" using True Cons.prems(2) by (simp add: closing_def within_def)
    moreover have "seq_all (m # ms) ?t = ?r"
      using True by (cases ?r; cases "fst ?r") (auto simp: comp_defs)
    ultimately show ?thesis using bss y(2) by simp
  next
    case False
    have "agree (put b (within s n i p)) (Ok (), within s n (Suc i) (p @ b))"
      using Cons.prems(2,3) False by (intro put_within) (auto simp: Suc_le_eq neq_Nil_conv)
    with y(1) have "agree ?r (Ok (), within s n (Suc i) (p @ b))" by (rule agree_trans)
    from agree_Ok [OF this] obtain g where "?r = (Ok (), (within s n (Suc i) (p @ b))\<lparr>rs_finished_list := g\<rparr>)" by blast
    then have "seq_all (m # ms) ?t = seq_all ms ((within s n (Suc i) (p @ b))\<lparr>rs_finished_list := g\<rparr>)"
      by (simp add: and_then_def)
    then show ?thesis
      using Cons.IH [of "Suc i" "p @ b" g] Cons.prems False by simp
  qed
qed simp

text \<open>Opening a list and running the calls for its items: the list is finished, and counted as one item.\<close>

lemma list_closes:
  fixes s :: RlpStream
  assumes "list_all2 puts ms bss" "length ms < usize_range" "length (concat bss) < 2 ^ 32"
  defines "m \<equiv> and_then (begin_list (length ms)) (\<lambda>_. seq_all ms)"
  shows "agree (m s) (put (enc_payload (concat bss)) s)" "fst (m s) = Ok () \<Longrightarrow> rs_finished_list (snd (m s))"
proof -
  let ?s = "s\<lparr>rs_finished_list := False\<rparr>" and ?b = "enc_payload (concat bss)"
  have "agree (m s) (put ?b ?s) \<and> (fst (m s) = Ok () \<longrightarrow> rs_finished_list (snd (m s)))"
  proof (cases "ms = []")
    case True
    then have "bss = []" using assms(1) by simp
    then have "?b = [0xc0]" by (simp add: enc_payload_def enc_prefix_def)
    with True show ?thesis
      by (cases s; cases "put ?b ?s"; cases "fst (put ?b ?s)")
        (auto simp: m_def begin_list_def comp_defs set_finished_def push_byte_def put_def agree_def)
  next
    case False
    then have "m s = seq_all ms ((within ?s (length ms) 0 [])\<lparr>rs_finished_list := False\<rparr>)"
      by (cases s) (simp add: m_def begin_list_def comp_defs set_finished_def push_byte_def open_list_def ListInfo_new_def within_def)
    with list_items [where i = 0 and n = "length ms" and p = "[]" and s = ?s and f = False, OF False assms(1)] assms(2,3) show ?thesis by simp
  qed
  moreover have "agree (put ?b ?s) (put ?b s)" by (rule put_flag)
  ultimately show "agree (m s) (put ?b s)" "fst (m s) = Ok () \<Longrightarrow> rs_finished_list (snd (m s))"
    by (auto intro: agree_trans)
qed

lemma puts_list:
  assumes "list_all2 puts ms bss" "length ms < usize_range" "length (concat bss) < 2 ^ 32"
  shows "puts (and_then (begin_list (length ms)) (\<lambda>_. seq_all ms)) (enc_payload (concat bss))"
  using list_closes [OF assms] by (auto simp: puts_def)

lemma puts_append_list:
  assumes "list_all2 puts ms bss" "length ms < usize_range" "length (concat bss) < 2 ^ 32"
  shows "puts (append_item (and_then (begin_list (length ms)) (\<lambda>_. seq_all ms))) (enc_payload (concat bss))"
proof -
  let ?m = "and_then (begin_list (length ms)) (\<lambda>_. seq_all ms)"
  have "append_item ?m s = ?m s" for s
  proof -
    have "?m (s\<lparr>rs_finished_list := False\<rparr>) = ?m s"
      by (simp add: begin_list_def set_finished_def comp_defs)
    then show ?thesis
      using list_closes(2) [OF assms, of s]
      by (cases "?m s"; cases "fst (?m s)") (auto simp: append_item_def comp_defs set_finished_def)
  qed
  then have "append_item ?m = ?m" by (rule ext)
  then show ?thesis using puts_list [OF assms] by simp
qed

lemma puts_item: "length (enc x) < 2 ^ 32 \<Longrightarrow> puts (append_item (item_append x)) (enc x)"
proof (induction x)
  case (RData b)
  then have "length b < 2 ^ 32" by (auto simp: enc_data_def split: if_splits)
  then show ?case using puts_data by simp
next
  case (RList xs)
  let ?p = "concat (map enc xs)" and ?ms = "map (\<lambda>x. append_item (item_append x)) xs"
  have p: "length ?p < 2 ^ 32" using RList.prems payload_length_le [of ?p] by simp
  have "length (enc x) < 2 ^ 32" if "x \<in> set xs" for x
  proof -
    have "length (enc x) \<le> length ?p" using that by (induction xs) auto
    with p show ?thesis by simp
  qed
  with RList.IH have "list_all2 puts ?ms (map enc xs)"
    by (simp add: list_all2_map1 list_all2_map2 list.rel_refl_strong)
  from puts_append_list [OF this] p length_items_le [of xs] show ?case
    by (simp add: append_all_seq)
qed

lemma puts_encode: "puts (append_item m) bs \<Longrightarrow> encode m = Ok bs"
proof -
  assume "puts (append_item m) bs"
  then have "agree (append_item m stream_new) (put bs stream_new)" by (simp add: puts_def)
  then have "agree (append_item m stream_new) (Ok (), stream_new\<lparr>rs_buffer := bs\<rparr>)"
    by (simp add: put_def stream_new_def note_appended.simps)
  from agree_Ok [OF this] show ?thesis
    by (auto simp: encode_def run_stream_def drain_def is_finished_def stream_new_def)
qed

section \<open>Properties\<close>

text \<open>
  C23: The back-patching encoder computes the recursive RLP encoding: appending any tree of byte strings and lists, as the
  implementations of \<open>Encodable\<close> do, and draining the stream gives the encoding of the tree, for every tree whose encoding
  is shorter than \<open>2 ^ 32\<close> bytes.
\<close>

theorem encode_correct:
  assumes "length (enc x) < 2 ^ 32"
  shows "encode (item_append x) = Ok (enc x)"
  by (rule puts_encode [OF puts_item [OF assms]])

theorem encode_correct_witness:
  "encode (item_append (RList [RData [99, 97, 116], RList [], RData [5]])) = Ok [0xc6, 0x83, 99, 97, 116, 0xc0, 5]"
  using encode_correct [of "RList [RData [99, 97, 116], RList [], RData [5]]"]
  by (simp add: enc_data_def enc_payload_def enc_prefix_def)



section \<open>Progress of a list\<close>

lemma list_prefix:
  assumes "list_all2 puts ms bss" "i + length ms < n" "n < usize_range"
  shows "\<exists>g. seq_all ms ((within s n i p)\<lparr>rs_finished_list := f\<rparr>)
    = (Ok (), (within s n (i + length ms) (p @ concat bss))\<lparr>rs_finished_list := g\<rparr>)"
  using assms
proof (induction ms bss arbitrary: i p f rule: list_all2_induct)
  case Nil
  show ?case by (auto simp: ok_def)
next
  case (Cons m ms b bss)
  let ?t = "(within s n i p)\<lparr>rs_finished_list := f\<rparr>"
  have "agree (m ?t) (put b ?t)" using Cons.hyps(1) by (simp add: puts_def)
  with put_flag have "agree (m ?t) (put b (within s n i p))" by (blast intro: agree_trans)
  with put_within [of i n b s p] Cons.prems have "agree (m ?t) (Ok (), within s n (Suc i) (p @ b))"
    by (auto intro: agree_trans)
  from agree_Ok [OF this] obtain g where "m ?t = (Ok (), (within s n (Suc i) (p @ b))\<lparr>rs_finished_list := g\<rparr>)" by blast
  then show ?case using Cons.IH [of "Suc i" g "p @ b"] Cons.prems by (simp add: and_then_def)
qed

lemma puts_items:
  assumes "length (concat (map enc xs)) < 2 ^ 32"
  shows "list_all2 puts (map (\<lambda>x. append_item (item_append x)) xs) (map enc xs)"
proof -
  have "length (enc x) < 2 ^ 32" if "x \<in> set xs" for x
  proof -
    have "length (enc x) \<le> length (concat (map enc xs))" using that by (induction xs) auto
    with assms show ?thesis by simp
  qed
  then show ?thesis by (simp add: list_all2_map1 list_all2_map2 list.rel_refl_strong puts_item)
qed

text \<open>
  C29: A list that has been opened for a number of items can always be completed.  As long as items are missing, the stream is not
  finished and \<open>out\<close> panics; appending the missing items, whatever they are, finishes the stream, and \<open>out\<close> then returns
  the encoding of the list, for lists whose encoding is shorter than \<open>2 ^ 32\<close> bytes.
\<close>

theorem stream_finishes:
  assumes "ys \<noteq> []" "length (enc (RList (xs @ ys))) < 2 ^ 32"
  shows "\<exists>s0 s1 s2. new_list (length (xs @ ys)) = Ok s0 \<and> append_all item_append xs s0 = (Ok (), s1) \<and> \<not> is_finished s1
    \<and> out s1 = Panic Assert_failed \<and> append_all item_append ys s1 = (Ok (), s2) \<and> is_finished s2 \<and> out s2 = Ok (enc (RList (xs @ ys)))"
proof -
  let ?n = "length (xs @ ys)" and ?p = "concat (map enc xs)" and ?q = "concat (map enc ys)"
  let ?s0 = "(within stream_new ?n 0 [])\<lparr>rs_finished_list := False\<rparr>"
  have len: "length (?p @ ?q) < 2 ^ 32" using assms(2) payload_length_le [of "?p @ ?q"] by simp
  have n: "?n < usize_range" using length_items_le [of "xs @ ys"] len by simp
  have s0: "new_list ?n = Ok ?s0"
    using assms(1) by (simp add: new_list_def begin_list_def comp_defs set_finished_def push_byte_def open_list_def ListInfo_new_def within_def stream_new_def)
  obtain g where s1: "append_all item_append xs ?s0 = (Ok (), (within stream_new ?n (length xs) ?p)\<lparr>rs_finished_list := g\<rparr>)"
    using list_prefix [OF puts_items [of xs], where i = 0 and n = ?n and s = stream_new and p = "[]" and f = False] len n assms(1) by (auto simp: append_all_seq)
  let ?s1 = "(within stream_new ?n (length xs) ?p)\<lparr>rs_finished_list := g\<rparr>"
  have "agree (append_all item_append ys ?s1) (put (enc_payload (?p @ ?q)) stream_new)"
    using list_items [where ms = "map (\<lambda>x. append_item (item_append x)) ys" and bss = "map enc ys" and i = "length xs" and n = ?n and p = ?p and s = stream_new and f = g] puts_items [of ys] len n assms(1)
    by (simp add: append_all_seq)
  then have "agree (append_all item_append ys ?s1) (Ok (), stream_new\<lparr>rs_buffer := enc_payload (?p @ ?q)\<rparr>)"
    by (simp add: put_def stream_new_def note_appended.simps)
  from agree_Ok [OF this] obtain h where
    s2: "append_all item_append ys ?s1 = (Ok (), stream_new\<lparr>rs_buffer := enc_payload (?p @ ?q), rs_finished_list := h\<rparr>)" by auto
  moreover have "\<not> is_finished ?s1" "out ?s1 = Panic Assert_failed"
    by (simp_all add: is_finished_def out_def within_def)
  moreover have "is_finished (stream_new\<lparr>rs_buffer := b, rs_finished_list := h\<rparr>)" "out (stream_new\<lparr>rs_buffer := b, rs_finished_list := h\<rparr>) = Ok b" for b
    by (simp_all add: is_finished_def out_def stream_new_def)
  moreover have "enc (RList (xs @ ys)) = enc_payload (?p @ ?q)" by simp
  ultimately show ?thesis using s0 s1 by metis
qed

theorem stream_finishes_witness:
  "\<exists>s0 s1 s2. new_list 2 = Ok s0 \<and> append_all item_append [RData [1]] s0 = (Ok (), s1) \<and> \<not> is_finished s1
    \<and> append_all item_append [RData [2]] s1 = (Ok (), s2) \<and> out s2 = Ok [0xc2, 1, 2]"
proof -
  have e: "enc (RList ([RData [1]] @ [RData [2]])) = [0xc2, 1, 2]" by (simp add: enc_data_def enc_payload_def enc_prefix_def)
  have "length (enc (RList ([RData [1]] @ [RData [2]]))) < 2 ^ 32" unfolding e by simp
  from stream_finishes [OF _ this] show ?thesis unfolding e by (simp add: numeral_2_eq_2) blast
qed

end
