(* ===== verification/Rlp_View.thy ===== *)
theory Rlp_View
  imports Rlp_Stream
begin

text \<open>
  The RLP decoder (\<open>util/rlp/src/untrusted_rlp.rs\<close>, \<open>rlpin.rs\<close> and \<open>decode_usize\<close> of \<open>impls.rs\<close>): a view of a byte
  slice with two caches in cells, which \<open>at\<close> and \<open>item_count\<close> update, so that the methods that reach them are
  computations on the view.  Shown: no input makes the decoder panic, every iteration ends, and the items of an encoded
  list are read back, whatever was asked of the view before.
\<close>

section \<open>Definitions\<close>

subsection \<open>Payload information\<close>

record OffsetCache =
  oc_index :: nat
  oc_offset :: nat

definition OffsetCache_new :: "nat \<Rightarrow> nat \<Rightarrow> OffsetCache" where
  "OffsetCache_new i offset = \<lparr>oc_index = i, oc_offset = offset\<rparr>"

datatype Prototype = Null | Data nat | List nat

record PayloadInfo =
  header_len :: nat
  value_len :: nat

definition PayloadInfo_new :: "nat \<Rightarrow> nat \<Rightarrow> PayloadInfo" where
  "PayloadInfo_new h v = \<lparr>header_len = h, value_len = v\<rparr>"

definition total :: "PayloadInfo \<Rightarrow> nat rlp_result" where
  "total pi = usize_add (header_len pi) (value_len pi)"

text \<open>The loop \<open>res = res + ((bytes[i] as usize) << shift)\<close>; the shift keeps the low 64 bits.\<close>

fun add_digits :: "bytes \<Rightarrow> nat \<Rightarrow> nat rlp_result" where
  "add_digits [] res = Ok res"
| "add_digits (b # bs) res = ok_then (usize_add res (unat b * 2 ^ (length bs * 8) mod usize_range)) (add_digits bs)"

definition decode_usize :: "bytes \<Rightarrow> nat rlp_result" where
  "decode_usize bs =
     (if length bs \<le> 8 then
        ok_then (index bs 0) (\<lambda>b. if b = 0 then Err RlpInvalidIndirection else add_digits bs 0)
      else Err RlpIsTooBig)"

definition calculate_payload_info :: "bytes \<Rightarrow> nat \<Rightarrow> PayloadInfo rlp_result" where
  "calculate_payload_info header_bytes len_of_len =
     (let header_len = 1 + len_of_len in
      if 1 < length header_bytes \<and> header_bytes ! 1 = 0 then Err RlpDataLenWithZeroPrefix
      else if \<not> 1 < length header_bytes then Err RlpIsTooShort
      else if length header_bytes < header_len then Err RlpIsTooShort
      else ok_then (slice header_bytes 1 header_len) (\<lambda>digits.
           ok_then (decode_usize digits) (\<lambda>value_len. Ok (PayloadInfo_new header_len value_len))))"

definition PayloadInfo_from :: "bytes \<Rightarrow> PayloadInfo rlp_result" where
  "PayloadInfo_from header_bytes =
     (case header_bytes of
        [] \<Rightarrow> Err RlpIsTooShort
      | l # _ \<Rightarrow>
          if l \<le> 0x7f then Ok (PayloadInfo_new 0 1)
          else if l \<le> 0xb7 then Ok (PayloadInfo_new 1 (unat l - 0x80))
          else if l \<le> 0xbf then calculate_payload_info header_bytes (unat l - 0xb7)
          else if l \<le> 0xf7 then Ok (PayloadInfo_new 1 (unat l - 0xc0))
          else calculate_payload_info header_bytes (unat l - 0xf7))"

text \<open>\<open>BasicDecoder::payload_info\<close>: the item at the front lies inside the slice.\<close>

definition basic_payload_info :: "bytes \<Rightarrow> PayloadInfo rlp_result" where
  "basic_payload_info bs = ok_then (PayloadInfo_from bs) (\<lambda>item.
     if header_len item + value_len item < usize_range \<and> header_len item + value_len item \<le> length bs then Ok item
     else Err RlpIsTooShort)"

subsection \<open>The view\<close>

record UntrustedRlp =
  ur_bytes :: bytes
  offset_cache :: OffsetCache
  count_cache :: "nat option"

type_synonym 'a view = "(DecoderError, UntrustedRlp, 'a) comp"

definition UntrustedRlp_new :: "bytes \<Rightarrow> UntrustedRlp" where
  "UntrustedRlp_new bs = \<lparr>ur_bytes = bs, offset_cache = OffsetCache_new (usize_range - 1) 0, count_cache = None\<rparr>"

definition view_as_raw :: "UntrustedRlp \<Rightarrow> bytes" where
  "view_as_raw r = ur_bytes r"

definition is_null :: "UntrustedRlp \<Rightarrow> bool" where
  "is_null r \<longleftrightarrow> length (ur_bytes r) = 0"

definition is_empty :: "UntrustedRlp \<Rightarrow> bool" where
  "is_empty r \<longleftrightarrow> \<not> is_null r \<and> (ur_bytes r ! 0 = 0xc0 \<or> ur_bytes r ! 0 = 0x80)"

definition is_list :: "UntrustedRlp \<Rightarrow> bool" where
  "is_list r \<longleftrightarrow> \<not> is_null r \<and> 0xc0 \<le> ur_bytes r ! 0"

definition is_data :: "UntrustedRlp \<Rightarrow> bool" where
  "is_data r \<longleftrightarrow> \<not> is_null r \<and> ur_bytes r ! 0 < 0xc0"

definition is_int :: "UntrustedRlp \<Rightarrow> bool rlp_result" where
  "is_int r =
     (if is_null r then Ok False
      else let b = ur_bytes r ! 0 in
        if b \<le> 0x80 then Ok True
        else if b \<le> 0xb7 then map_outcome (\<lambda>x. x \<noteq> 0) (index (ur_bytes r) 1)
        else if b \<le> 0xbf then map_outcome (\<lambda>x. x \<noteq> 0) (index (ur_bytes r) (1 + unat b - 0xb7))
        else Ok False)"

definition payload_info :: "UntrustedRlp \<Rightarrow> PayloadInfo rlp_result" where
  "payload_info r = basic_payload_info (ur_bytes r)"

definition view_data :: "UntrustedRlp \<Rightarrow> bytes rlp_result" where
  "view_data r = ok_then (basic_payload_info (ur_bytes r)) (\<lambda>pi.
     ok_then (usize_add (header_len pi) (value_len pi)) (\<lambda>to. slice (ur_bytes r) (header_len pi) to))"

definition view_size :: "UntrustedRlp \<Rightarrow> nat rlp_result" where
  "view_size r = (if is_data r then
       (case basic_payload_info (ur_bytes r) of Ok b \<Rightarrow> Ok (value_len b) | Err _ \<Rightarrow> Ok 0 | Panic p \<Rightarrow> Panic p)
     else Ok 0)"

definition consume :: "bytes \<Rightarrow> nat \<Rightarrow> bytes rlp_result" where
  "consume bs len = (if len \<le> length bs then slice bs len (length bs) else Err RlpIsTooShort)"

fun consume_items :: "bytes \<Rightarrow> nat \<Rightarrow> bytes rlp_result" where
  "consume_items result 0 = Ok result"
| "consume_items result (Suc items) = ok_then (basic_payload_info result) (\<lambda>i.
     ok_then (usize_add (header_len i) (value_len i)) (\<lambda>len.
     ok_then (consume result len) (\<lambda>result. consume_items result items)))"

definition consume_list_payload :: "UntrustedRlp \<Rightarrow> bytes rlp_result" where
  "consume_list_payload r = ok_then (basic_payload_info (ur_bytes r)) (\<lambda>item. consume (ur_bytes r) (header_len item))"

definition at :: "nat \<Rightarrow> UntrustedRlp view" where
  "at idx = and_then (gets is_list) (\<lambda>list.
     if \<not> list then fail RlpExpectedToBeList
     else and_then (gets ur_bytes) (\<lambda>whole.
       and_then (gets offset_cache) (\<lambda>c.
       and_then (\<lambda>r. (if oc_index c \<le> idx
           then map_outcome (\<lambda>bs. (bs, idx - oc_index c)) (consume whole (oc_offset c))
           else map_outcome (\<lambda>bs. (bs, idx)) (consume_list_payload r), r)) (\<lambda>(bs, to_skip).
       and_then (lift (consume_items bs to_skip)) (\<lambda>bs.
       and_then (lift (usize_sub (length whole) (length bs))) (\<lambda>offset.
       and_then (modify (\<lambda>r. r\<lparr>offset_cache := OffsetCache_new idx offset\<rparr>)) (\<lambda>_.
       and_then (lift (basic_payload_info bs)) (\<lambda>found.
       and_then (lift (usize_add (header_len found) (value_len found))) (\<lambda>to.
       lift (map_outcome UntrustedRlp_new (slice bs 0 to)))))))))))"

text \<open>An item is never empty, so that moving to the next one makes progress.\<close>

lemma calculate_payload_info_pos: "calculate_payload_info bs n = Ok i \<Longrightarrow> 0 < header_len i"
  by (auto simp: calculate_payload_info_def PayloadInfo_new_def Let_def split: if_splits)

lemma PayloadInfo_from_pos: "PayloadInfo_from bs = Ok i \<Longrightarrow> 0 < header_len i + value_len i"
  by (auto simp: PayloadInfo_from_def PayloadInfo_new_def dest: calculate_payload_info_pos split: list.splits if_splits)

lemma basic_payload_info_Ok:
  assumes "basic_payload_info bs = Ok i"
  shows "0 < header_len i + value_len i" "header_len i + value_len i \<le> length bs"
    "header_len i + value_len i < usize_range"
  using assms PayloadInfo_from_pos [of bs i] by (auto simp: basic_payload_info_def split: if_splits)

lemma consume_Ok [simp]: "consume bs n = Ok r \<longleftrightarrow> n \<le> length bs \<and> r = drop n bs"
  by (auto simp: consume_def slice_def)

lemma consume_items_le: "consume_items bs n = Ok r \<Longrightarrow> length r + n \<le> length bs"
proof (induction n arbitrary: bs)
  case (Suc n)
  then obtain i where i: "basic_payload_info bs = Ok i"
      "consume_items (drop (header_len i + value_len i) bs) n = Ok r"
    by (auto simp: usize_add_def split: if_splits)
  from Suc.IH [OF i(2)] basic_payload_info_Ok(1,2) [OF i(1)] show ?case unfolding length_drop by linarith
qed simp

text \<open>Where \<open>at\<close> finds the item: the rest of the slice from the item on.\<close>

definition locate :: "nat \<Rightarrow> UntrustedRlp \<Rightarrow> bytes rlp_result" where
  "locate idx r =
     (if oc_index (offset_cache r) \<le> idx
      then ok_then (consume (ur_bytes r) (oc_offset (offset_cache r))) (\<lambda>bs. consume_items bs (idx - oc_index (offset_cache r)))
      else ok_then (consume_list_payload r) (\<lambda>bs. consume_items bs idx))"

lemma locate_le:
  assumes "locate idx r = Ok bs"
  shows "length bs \<le> length (ur_bytes r)"
    "oc_index (offset_cache r) < idx \<Longrightarrow> length bs + oc_offset (offset_cache r) < length (ur_bytes r)"
  using assms by (auto simp: locate_def consume_list_payload_def dest!: consume_items_le split: if_splits)

lemma ok_then_map: "ok_then (map_outcome g m) f = ok_then m (\<lambda>a. f (g a))"
  by (cases m) simp_all

lemma at_eq:
  "at idx r =
     (if is_list r then
        (case locate idx r of
           Ok bs \<Rightarrow> (map_outcome (\<lambda>i. UntrustedRlp_new (take (header_len i + value_len i) bs)) (basic_payload_info bs),
                    r\<lparr>offset_cache := OffsetCache_new idx (length (ur_bytes r) - length bs)\<rparr>)
         | Err e \<Rightarrow> (Err e, r)
         | Panic p \<Rightarrow> (Panic p, r))
      else (Err RlpExpectedToBeList, r))"
proof (cases "is_list r")
  case True
  define start where "start = (if oc_index (offset_cache r) \<le> idx
    then map_outcome (\<lambda>bs. (bs, idx - oc_index (offset_cache r))) (consume (ur_bytes r) (oc_offset (offset_cache r)))
    else map_outcome (\<lambda>bs. (bs, idx)) (consume_list_payload r))"
  have locate: "locate idx r = ok_then start (\<lambda>(bs, to_skip). consume_items bs to_skip)"
    by (simp add: locate_def start_def ok_then_map)
  have found: "slice bs 0 (header_len i + value_len i) = (Ok (take (header_len i + value_len i) bs) :: bytes rlp_result)"
      "usize_add (header_len i) (value_len i) = (Ok (header_len i + value_len i) :: nat rlp_result)"
    if "basic_payload_info bs = Ok i" for bs i
    using basic_payload_info_Ok [OF that] by (simp_all add: slice_def usize_add_def)
  show ?thesis
  proof (cases "locate idx r")
    case (Ok bs)
    then have "usize_sub (length (ur_bytes r)) (length bs) = (Ok (length (ur_bytes r) - length bs) :: nat rlp_result)"
      using locate_le [OF Ok] by (simp add: usize_sub_def)
    moreover obtain bs0 k where "start = Ok (bs0, k)" "consume_items bs0 k = Ok bs"
      using Ok unfolding locate by auto
    ultimately show ?thesis
      using True Ok unfolding at_def start_def [symmetric]
      by (cases "basic_payload_info bs") (simp_all add: comp_defs found start_def [symmetric])
  qed (use True in \<open>auto simp: at_def comp_defs locate start_def [symmetric] ok_then_Err_iff ok_then_Panic_iff\<close>)
qed (simp add: at_def comp_defs)

lemma at_Ok:
  assumes "at idx r = (Ok v, r')"
  shows "ur_bytes r' = ur_bytes r" "oc_index (offset_cache r') = idx" "oc_offset (offset_cache r') < length (ur_bytes r)"
    "oc_index (offset_cache r) < idx \<Longrightarrow> oc_offset (offset_cache r) < oc_offset (offset_cache r')"
proof -
  from assms obtain bs i where bs: "locate idx r = Ok bs" "basic_payload_info bs = Ok i"
    and r': "r' = r\<lparr>offset_cache := OffsetCache_new idx (length (ur_bytes r) - length bs)\<rparr>"
    by (auto simp: at_eq split: if_splits outcome.splits)
  have "0 < length bs" using basic_payload_info_Ok(1,2) [OF bs(2)] by linarith
  then have "length (ur_bytes r) - length bs < length (ur_bytes r)" using locate_le(1) [OF bs(1)] by linarith
  with locate_le [OF bs(1)] show "ur_bytes r' = ur_bytes r" "oc_index (offset_cache r') = idx"
      "oc_offset (offset_cache r') < length (ur_bytes r)"
      "oc_index (offset_cache r) < idx \<Longrightarrow> oc_offset (offset_cache r) < oc_offset (offset_cache r')"
    by (auto simp: r' OffsetCache_new_def)
qed

text \<open>
  \<open>self.iter().map(f).collect()\<close>: the iterator calls \<open>at\<close> with increasing indices until it fails; collecting stops at
  the first error of \<open>f\<close>.  The recursion ends because the cached offset grows and stays inside the slice.
\<close>

function iter_from :: "(UntrustedRlp \<Rightarrow> 'v rlp_result) \<Rightarrow> nat \<Rightarrow> 'v list view" where
  "iter_from f idx r =
     (case at idx r of
        (Ok item, r') \<Rightarrow>
          (case f item of
             Ok v \<Rightarrow> (case iter_from f (Suc idx) r' of (rest, r'') \<Rightarrow> (map_outcome ((#) v) rest, r''))
           | Err e \<Rightarrow> (Err e, r')
           | Panic p \<Rightarrow> (Panic p, r'))
      | (Err e, r') \<Rightarrow> (Ok [], r')
      | (Panic p, r') \<Rightarrow> (Panic p, r'))"
  by pat_completeness auto
termination
proof (relation "measure (\<lambda>(_, idx, r). if oc_index (offset_cache r) < idx
      then length (ur_bytes r) - oc_offset (offset_cache r) else Suc (length (ur_bytes r)))", goal_cases)
  case (2 f idx r x y item v)
  then have at: "(Ok item, y) = at idx r" by simp
  show ?case using at_Ok [OF at [symmetric]] by auto
qed auto

declare iter_from.simps [simp del]

definition item_count :: "nat view" where
  "item_count = and_then (gets is_list) (\<lambda>list.
     if list then
       and_then (gets count_cache) (\<lambda>cached.
         case cached of
           Some c \<Rightarrow> ok c
         | None \<Rightarrow> and_then (iter_from Ok 0) (\<lambda>items.
             and_then (modify (\<lambda>r. r\<lparr>count_cache := Some (length items)\<rparr>)) (\<lambda>_. ok (length items))))
     else fail RlpExpectedToBeList)"

definition prototype :: "Prototype view" where
  "prototype = and_then (gets is_data) (\<lambda>data.
     if data then and_then (\<lambda>r. (view_size r, r)) (\<lambda>n. ok (Data n))
     else and_then (gets is_list) (\<lambda>list.
       if list then and_then item_count (\<lambda>n. ok (List n)) else ok Null))"

text \<open>A \<open>Decodable\<close> type is its function \<open>decode\<close>, a computation on the view.\<close>

definition as_val :: "'v view \<Rightarrow> 'v view" where
  "as_val decode = decode"

definition as_list :: "'v view \<Rightarrow> 'v list view" where
  "as_list decode = iter_from (\<lambda>r. fst (as_val decode r)) 0"

definition val_at :: "'v view \<Rightarrow> nat \<Rightarrow> 'v view" where
  "val_at decode idx = and_then (at idx) (\<lambda>item. lift (fst (as_val decode item)))"

definition list_at :: "'v view \<Rightarrow> nat \<Rightarrow> 'v list view" where
  "list_at decode idx = and_then (at idx) (\<lambda>item. lift (fst (as_list decode item)))"

definition decode_value :: "(bytes \<Rightarrow> 'v rlp_result) \<Rightarrow> UntrustedRlp \<Rightarrow> 'v rlp_result" where
  "decode_value f r = (let bs = view_as_raw r in
     case bs of
       [] \<Rightarrow> Err RlpIsTooShort
     | l # _ \<Rightarrow>
         if l \<le> 0x7f then f [l]
         else if l \<le> 0xb7 then
           (let last_index_of = 1 + unat l - 0x80 in
            if length bs < last_index_of then Err RlpInconsistentLengthAndData
            else ok_then (slice bs 1 last_index_of) (\<lambda>d.
              ok_then (if l = 0x81 then map_outcome (\<lambda>b. b < 0x80) (index d 0) else Ok False) (\<lambda>indirect.
              if indirect then Err RlpInvalidIndirection else f d)))
         else if l \<le> 0xbf then
           (let len_of_len = unat l - 0xb7; begin_of_value = 1 + len_of_len in
            if length bs < begin_of_value then Err RlpInconsistentLengthAndData
            else ok_then (slice bs 1 begin_of_value) (\<lambda>digits.
              ok_then (decode_usize digits) (\<lambda>len.
              if usize_range \<le> begin_of_value + len then Err RlpInvalidLength
              else let last_index_of_value = begin_of_value + len in
                if length bs < last_index_of_value then Err RlpInconsistentLengthAndData
                else ok_then (slice bs begin_of_value last_index_of_value) f)))
         else Err RlpExpectedToBeData)"

subsection \<open>The trusted view\<close>

text \<open>\<open>Rlp\<close> wraps an \<open>UntrustedRlp\<close> and unwraps its results.\<close>

fun unwrap :: "(DecoderError, 'a) outcome \<Rightarrow> 'a rlp_result" where
  "unwrap (Ok a) = Ok a"
| "unwrap (Err e) = Panic Expect_failed"
| "unwrap (Panic p) = Panic p"

definition unwrap_view :: "'a view \<Rightarrow> 'a view" where
  "unwrap_view m r = (case m r of (v, r') \<Rightarrow> (unwrap v, r'))"

definition Rlp_prototype :: "Prototype view" where
  "Rlp_prototype = unwrap_view prototype"

definition Rlp_payload_info :: "UntrustedRlp \<Rightarrow> PayloadInfo rlp_result" where
  "Rlp_payload_info r = unwrap (payload_info r)"

definition Rlp_data :: "UntrustedRlp \<Rightarrow> bytes rlp_result" where
  "Rlp_data r = unwrap (view_data r)"

definition Rlp_item_count :: "nat view" where
  "Rlp_item_count r = (case item_count r of (Err _, r') \<Rightarrow> (Ok 0, r') | res \<Rightarrow> res)"

definition Rlp_at :: "nat \<Rightarrow> UntrustedRlp view" where
  "Rlp_at idx = unwrap_view (at idx)"

definition Rlp_as_val :: "'v view \<Rightarrow> 'v view" where
  "Rlp_as_val decode = unwrap_view (as_val decode)"

definition Rlp_as_list :: "'v view \<Rightarrow> 'v list view" where
  "Rlp_as_list decode = iter_from (\<lambda>r. fst (Rlp_as_val decode r)) 0"

definition Rlp_val_at :: "'v view \<Rightarrow> nat \<Rightarrow> 'v view" where
  "Rlp_val_at decode idx = and_then (Rlp_at idx) (\<lambda>item. lift (fst (Rlp_as_val decode item)))"

definition Rlp_list_at :: "'v view \<Rightarrow> nat \<Rightarrow> 'v list view" where
  "Rlp_list_at decode idx = and_then (Rlp_at idx) (\<lambda>item. lift (fst (Rlp_as_list decode item)))"

section \<open>No input makes the decoder panic\<close>

lemma add_digits_eq: "res + be_nat bs < usize_range \<Longrightarrow> add_digits bs res = Ok (res + be_nat bs)"
proof (induction bs arbitrary: res)
  case (Cons b bs)
  have "(2 :: nat) ^ (length bs * 8) = 256 ^ length bs" by (simp add: mult.commute [of "length bs"] power_mult)
  with Cons show ?case by (simp add: usize_add_def add.assoc)
qed simp

lemma decode_usize_eq:
  assumes "bs \<noteq> []"
  shows "decode_usize bs = (if 8 < length bs then Err RlpIsTooBig
    else if hd bs = 0 then Err RlpInvalidIndirection else Ok (be_nat bs))"
proof -
  have "be_nat bs < usize_range" if "length bs \<le> 8"
  proof -
    have "(256 :: nat) ^ length bs \<le> 256 ^ 8" using that by (intro power_increasing) auto
    with be_nat_less [of bs] show ?thesis by simp
  qed
  with assms show ?thesis by (simp add: decode_usize_def index_def hd_conv_nth add_digits_eq not_less)
qed

lemma calculate_payload_info_safe: "0 < n \<Longrightarrow> sound (calculate_payload_info bs n) (\<lambda>_. True)"
proof -
  assume n: "0 < n"
  have "take n (drop (Suc 0) bs) \<noteq> []" if "n < length bs" "0 < length bs" using n that by (cases bs) auto
  then show ?thesis
    using n by (auto simp: calculate_payload_info_def Let_def slice_def decode_usize_eq)
qed

lemma PayloadInfo_from_safe: "sound (PayloadInfo_from bs) (\<lambda>_. True)"
proof (cases bs)
  case (Cons l ls)
  then show ?thesis
    by (auto simp: PayloadInfo_from_def word_le_nat_alt not_le intro!: calculate_payload_info_safe)
qed (simp add: PayloadInfo_from_def)

lemma basic_payload_info_safe:
  "sound (basic_payload_info bs) (\<lambda>i. header_len i + value_len i \<le> length bs \<and> header_len i + value_len i < usize_range)"
  using PayloadInfo_from_safe by (auto simp: basic_payload_info_def intro: sound_mono)

lemma consume_safe [simp]: "sound (consume bs n) Q = (n \<le> length bs \<longrightarrow> Q (drop n bs))"
  by (auto simp: consume_def slice_def)

lemma consume_items_safe: "sound (consume_items bs n) (\<lambda>_. True)"
proof (induction n arbitrary: bs)
  case (Suc n)
  then show ?case
    using basic_payload_info_safe [of bs] by (auto simp: usize_add_def elim!: sound_mono)
qed simp

lemma locate_safe: "sound (locate idx r) (\<lambda>_. True)"
  using basic_payload_info_safe [of "ur_bytes r"]
  by (auto simp: locate_def consume_list_payload_def consume_items_safe elim!: sound_mono)

lemma sound_noPanic: "sound r Q \<Longrightarrow> r \<noteq> Panic p"
  by auto

lemma at_safe: "fst (at idx r) \<noteq> Panic p"
  using sound_noPanic [OF locate_safe [of idx r]] sound_noPanic [OF basic_payload_info_safe]
  by (auto simp: at_eq split: outcome.splits)

lemma iter_from_safe: "(\<And>item p. f item \<noteq> Panic p) \<Longrightarrow> fst (iter_from f idx r) \<noteq> Panic p"
proof (induction f idx r rule: iter_from.induct)
  case (1 f idx r)
  have "fst (iter_from f (Suc idx) r') \<noteq> Panic p" if "at idx r = (Ok item, r')" "f item = Ok v" for item r' v
    using 1(1) [OF that(1) [symmetric] _ that(2)] 1(2) by simp
  then show ?case
    using 1(2) at_safe [of idx r p] by (subst iter_from.simps) (fastforce split: prod.splits outcome.splits)
qed

lemma item_count_safe: "fst (item_count r) \<noteq> Panic p"
  using iter_from_safe [where f = Ok and idx = 0 and r = r and p = p]
  by (auto simp: item_count_def comp_defs split: option.splits prod.splits outcome.splits)

lemma view_data_safe: "view_data r \<noteq> Panic p"
  using basic_payload_info_safe [of "ur_bytes r"]
  by (intro sound_noPanic [where Q = "\<lambda>_. True"]) (auto simp: view_data_def usize_add_def slice_def elim!: sound_mono)

lemma decode_value_safe: "(\<And>bs p. f bs \<noteq> Panic p) \<Longrightarrow> decode_value f r \<noteq> Panic p"
proof -
  assume f: "\<And>bs p. f bs \<noteq> Panic p"
  have fs: "sound (f bs) (\<lambda>_. True)" for bs using f [of bs] by (cases "f bs") auto
  have "sound (decode_value f r) (\<lambda>_. True)"
  proof (cases "ur_bytes r")
    case (Cons l ls)
    have digits: "take (unat l - 0xb7) ls \<noteq> []" if "\<not> l \<le> 0xb7" "unat l - 0xb7 \<le> length ls"
      using that by (cases ls) (auto simp: word_le_nat_alt)
    show ?thesis
      using fs digits Cons
      by (auto simp: decode_value_def view_as_raw_def Let_def slice_def decode_usize_eq index_def word_le_nat_alt not_le)
  qed (simp add: decode_value_def view_as_raw_def)
  then show ?thesis by (rule sound_noPanic)
qed

section \<open>Reading encodings\<close>

lemma unat_add_u8:
  assumes "n < 256 - k"
  shows "unat (of_nat k + of_nat n :: u8) = k + n"
  using assms by (simp add: unat_of_nat flip: of_nat_add)

lemma consume_drop: "n \<le> length bs \<Longrightarrow> consume bs n = Ok (drop n bs)"
  by simp

lemma be_min_usize:
  assumes "0 < n" "n < usize_range"
  shows "length (be_min n) \<le> 8" "be_min n \<noteq> []" "hd (be_min n) \<noteq> 0" "be_nat (be_min n) = n"
  using assms length_be_min_le [of n 8] be_min_hd be_nat_be_min by simp_all

lemma calculate_payload_info_eq:
  assumes "0 < n" "n < usize_range"
  shows "calculate_payload_info (l # be_min n @ rest) (length (be_min n)) = Ok (PayloadInfo_new (Suc (length (be_min n))) n)"
  using be_min_usize [OF assms]
  by (cases "be_min n") (auto simp: calculate_payload_info_def Let_def slice_def decode_usize_eq)

text \<open>The prefix of an encoding, and what it says about the item.\<close>

lemma data_prefix_info:
  assumes "n < usize_range"
  shows "PayloadInfo_from (enc_prefix 0x80 0xb7 n @ rest) = Ok (PayloadInfo_new (length (enc_prefix 0x80 0xb7 n)) n)"
proof (cases "n \<le> 55")
  case True
  then have "unat (0x80 + of_nat n :: u8) = 0x80 + n" using unat_add_u8 [of n "0x80"] by simp
  with True show ?thesis by (simp add: enc_prefix_def PayloadInfo_from_def word_le_nat_alt)
next
  case False
  let ?k = "length (be_min n)"
  have k: "0 < ?k" "?k \<le> 8" using be_min_usize [of n] False assms by auto
  then have "unat (0xb7 + of_nat ?k :: u8) = 0xb7 + ?k" using unat_add_u8 [of ?k "0xb7"] by simp
  with False k assms show ?thesis
    by (simp add: enc_prefix_def PayloadInfo_from_def word_le_nat_alt calculate_payload_info_eq)
qed

lemma list_prefix_info:
  assumes "n < usize_range"
  shows "PayloadInfo_from (enc_prefix 0xc0 0xf7 n @ rest) = Ok (PayloadInfo_new (length (enc_prefix 0xc0 0xf7 n)) n)"
proof (cases "n \<le> 55")
  case True
  then have "unat (0xc0 + of_nat n :: u8) = 0xc0 + n" using unat_add_u8 [of n "0xc0"] by simp
  with True show ?thesis by (simp add: enc_prefix_def PayloadInfo_from_def word_le_nat_alt)
next
  case False
  let ?k = "length (be_min n)"
  have k: "0 < ?k" "?k \<le> 8" using be_min_usize [of n] False assms by auto
  then have "unat (0xf7 + of_nat ?k :: u8) = 0xf7 + ?k" using unat_add_u8 [of ?k "0xf7"] by simp
  with False k assms show ?thesis
    by (simp add: enc_prefix_def PayloadInfo_from_def word_le_nat_alt calculate_payload_info_eq)
qed

lemma list_prefix_hd:
  assumes "n < usize_range"
  shows "0xc0 \<le> (enc_prefix 0xc0 0xf7 n @ rest) ! 0"
proof (cases "n \<le> 55")
  case True
  then have "unat (0xc0 + of_nat n :: u8) = 0xc0 + n" using unat_add_u8 [of n "0xc0"] by simp
  with True show ?thesis by (simp add: enc_prefix_def word_le_nat_alt)
next
  case False
  have "length (be_min n) \<le> 8" using be_min_usize [of n] False assms by auto
  then have "unat (0xf7 + of_nat (length (be_min n)) :: u8) = 0xf7 + length (be_min n)"
    using unat_add_u8 [of "length (be_min n)" "0xf7"] by simp
  with False show ?thesis by (simp add: enc_prefix_def word_le_nat_alt)
qed

lemma data_prefix_hd:
  assumes "n < usize_range"
  shows "(enc_prefix 0x80 0xb7 n @ rest) ! 0 < 0xc0"
proof (cases "n \<le> 55")
  case True
  then have "unat (0x80 + of_nat n :: u8) = 0x80 + n" using unat_add_u8 [of n "0x80"] by simp
  with True show ?thesis by (simp add: enc_prefix_def word_less_nat_alt)
next
  case False
  have "length (be_min n) \<le> 8" using be_min_usize [of n] False assms by auto
  then have "unat (0xb7 + of_nat (length (be_min n)) :: u8) = 0xb7 + length (be_min n)" "length (be_min n) \<le> 8"
    using unat_add_u8 [of "length (be_min n)" "0xb7"] by simp_all
  with False show ?thesis by (simp add: enc_prefix_def word_less_nat_alt)
qed

lemma enc_info:
  assumes "length (enc x) < usize_range"
  obtains i where "basic_payload_info (enc x @ rest) = Ok i" "header_len i + value_len i = length (enc x)"
proof -
  have from_basic: "basic_payload_info bs = Ok i"
    if "PayloadInfo_from bs = Ok i" "header_len i + value_len i \<le> length bs" "header_len i + value_len i < usize_range" for bs i
    using that by (simp add: basic_payload_info_def)
  have "\<exists>i. basic_payload_info (enc x @ rest) = Ok i \<and> header_len i + value_len i = length (enc x)"
  proof (cases x)
    case (RData b)
    show ?thesis
    proof (cases "length b = 1 \<and> b ! 0 < 0x80")
      case True
      then obtain c where "b = [c]" "c < 0x80" by (cases b) auto
      then have "PayloadInfo_from (enc x @ rest) = Ok (PayloadInfo_new 0 1)" "length (enc x) = 1"
        by (simp_all add: RData enc_data_def PayloadInfo_from_def word_less_nat_alt word_le_nat_alt)
      then show ?thesis by (auto simp: PayloadInfo_new_def intro!: from_basic)
    next
      case False
      then have e: "enc x = enc_prefix 0x80 0xb7 (length b) @ b" by (auto simp: RData enc_data_def)
      with assms have "PayloadInfo_from (enc x @ rest) = Ok (PayloadInfo_new (length (enc_prefix 0x80 0xb7 (length b))) (length b))"
        using data_prefix_info [of "length b" "b @ rest"] by simp
      with assms e show ?thesis by (auto simp: PayloadInfo_new_def intro!: from_basic)
    qed
  next
    case (RList xs)
    let ?p = "concat (map enc xs)"
    have e: "enc x = enc_prefix 0xc0 0xf7 (length ?p) @ ?p" by (simp add: RList enc_payload_def)
    with assms have "PayloadInfo_from (enc x @ rest) = Ok (PayloadInfo_new (length (enc_prefix 0xc0 0xf7 (length ?p))) (length ?p))"
      using list_prefix_info [of "length ?p" "?p @ rest"] by simp
    with assms e show ?thesis by (auto simp: PayloadInfo_new_def intro!: from_basic)
  qed
  then show ?thesis using that by blast
qed

lemma consume_items_enc:
  assumes "length (concat (map enc xs)) < usize_range" "k \<le> length xs"
  shows "consume_items (concat (map enc xs)) k = Ok (concat (map enc (drop k xs)))"
  using assms
proof (induction k arbitrary: xs)
  case (Suc k)
  then obtain y ys where xs: "xs = y # ys" by (cases xs) auto
  obtain i where i: "basic_payload_info (enc y @ concat (map enc ys)) = Ok i" "header_len i + value_len i = length (enc y)"
    using enc_info [of y "concat (map enc ys)"] Suc.prems xs by auto
  have "usize_add (header_len i) (value_len i) = (Ok (length (enc y)) :: nat rlp_result)"
    using Suc.prems xs i(2) by (simp add: usize_add_def)
  then show ?case using Suc i(1) xs by (simp add: consume_def slice_def)
qed simp

lemma consume_items_beyond:
  assumes "length (concat (map enc xs)) < usize_range" "length xs < k"
  shows "consume_items (concat (map enc xs)) k = Err RlpIsTooShort"
  using assms
proof (induction xs arbitrary: k)
  case Nil
  then show ?case by (cases k) (simp_all add: basic_payload_info_def PayloadInfo_from_def)
next
  case (Cons y ys)
  then obtain j where k: "k = Suc j" by (cases k) auto
  obtain i where i: "basic_payload_info (enc y @ concat (map enc ys)) = Ok i" "header_len i + value_len i = length (enc y)"
    using enc_info [of y "concat (map enc ys)"] Cons.prems by auto
  have "usize_add (header_len i) (value_len i) = (Ok (length (enc y)) :: nat rlp_result)"
    using Cons.prems i(2) by (simp add: usize_add_def)
  then show ?case using Cons i(1) k by (simp add: consume_def slice_def)
qed

text \<open>
  A list whose prefix declares a payload of \<open>n\<close> bytes and is followed by the items \<open>xs\<close>: the decoder reads on past the
  declared payload.  The caches of a view of such bytes: the offset cache is unused, or holds the position of an item
  or the end of the items, and the count cache is empty or right.
\<close>

definition list_bytes :: "nat \<Rightarrow> rlp_item list \<Rightarrow> bytes" where
  "list_bytes n xs = enc_prefix 0xc0 0xf7 n @ concat (map enc xs)"

definition list_fits :: "nat \<Rightarrow> rlp_item list \<Rightarrow> bool" where
  "list_fits n xs \<longleftrightarrow> n \<le> length (concat (map enc xs)) \<and> length (list_bytes n xs) < usize_range"

definition item_offset :: "nat \<Rightarrow> rlp_item list \<Rightarrow> nat \<Rightarrow> nat" where
  "item_offset n xs k = length (enc_prefix 0xc0 0xf7 n) + length (concat (map enc (take k xs)))"

definition views :: "nat \<Rightarrow> rlp_item list \<Rightarrow> UntrustedRlp \<Rightarrow> bool" where
  "views n xs r \<longleftrightarrow> list_fits n xs \<and> ur_bytes r = list_bytes n xs
     \<and> (offset_cache r = OffsetCache_new (usize_range - 1) 0
        \<or> oc_index (offset_cache r) \<le> length xs \<and> oc_offset (offset_cache r) = item_offset n xs (oc_index (offset_cache r)))
     \<and> (count_cache r = None \<or> count_cache r = Some (length xs))"

lemma views_bytes: "views n xs r \<Longrightarrow> ur_bytes r = list_bytes n xs"
  by (simp add: views_def)

lemma views_new: "list_fits n xs \<Longrightarrow> views n xs (UntrustedRlp_new (list_bytes n xs))"
  by (simp add: views_def UntrustedRlp_new_def)

lemma enc_list_bytes: "enc (RList xs) = list_bytes (length (concat (map enc xs))) xs"
  by (simp add: list_bytes_def enc_payload_def)

lemma list_fits_enc: "length (enc (RList xs)) < usize_range \<Longrightarrow> list_fits (length (concat (map enc xs))) xs"
  by (simp only: list_fits_def enc_list_bytes order_refl simp_thms)

lemma views_enc: "length (enc (RList xs)) < usize_range \<Longrightarrow> views (length (concat (map enc xs))) xs (UntrustedRlp_new (enc (RList xs)))"
  by (simp only: enc_list_bytes) (rule views_new, simp only: list_fits_def order_refl simp_thms)

lemma views_list:
  assumes "views n xs r"
  shows "is_list r"
  using assms list_prefix_hd [of n "concat (map enc xs)"]
  by (simp add: views_def list_fits_def list_bytes_def is_list_def is_null_def)

lemma items_split: "concat (map enc xs) = concat (map enc (take k xs)) @ concat (map enc (drop k xs))"
  by (metis append_take_drop_id concat_append map_append)

lemma drop_items: "drop (item_offset n xs k) (list_bytes n xs) = concat (map enc (drop k xs))"
  using items_split [of xs k] by (simp add: item_offset_def list_bytes_def)

lemma item_offset_le: "item_offset n xs k \<le> length (list_bytes n xs)"
proof -
  have "length (concat (map enc (take k xs))) \<le> length (concat (map enc xs))"
    by (metis items_split le_add1 length_append)
  then show ?thesis by (simp add: item_offset_def list_bytes_def)
qed

lemma length_items_drop: "list_fits n xs \<Longrightarrow> length (concat (map enc (drop k xs))) < usize_range"
  by (metis drop_items length_drop diff_le_self le_less_trans list_fits_def)

lemma items_small:
  assumes "list_fits n xs"
  shows "length xs < usize_range - 1"
proof -
  have "1 \<le> length (enc_prefix 0xc0 0xf7 n)" by (simp add: enc_prefix_def)
  then have "Suc (length (concat (map enc xs))) \<le> length (list_bytes n xs)" by (simp add: list_bytes_def)
  with assms length_items_le [of xs] show ?thesis unfolding list_fits_def by linarith
qed

lemma locate_enc:
  assumes r: "views n xs r" and i: "i < usize_range - 1"
  shows "locate i r = (if i \<le> length xs then Ok (concat (map enc (drop i xs))) else Err RlpIsTooShort)"
proof -
  have fits: "list_fits n xs" using r by (simp add: views_def)
  have skip: "consume_items (concat (map enc (drop k xs))) (i - k)
      = (if i \<le> length xs then Ok (concat (map enc (drop i xs))) else Err RlpIsTooShort)" if "k \<le> i" "k \<le> length xs" for k
    using consume_items_enc [OF length_items_drop [OF fits, of k], of "i - k"]
      consume_items_beyond [OF length_items_drop [OF fits, of k], of "i - k"] that by simp
  show ?thesis
  proof (cases "oc_index (offset_cache r) \<le> i")
    case True
    with r i have c: "oc_index (offset_cache r) \<le> length xs"
        "oc_offset (offset_cache r) = item_offset n xs (oc_index (offset_cache r))"
      by (auto simp: views_def OffsetCache_new_def)
    then show ?thesis
      using skip [OF True c(1)] True by (simp add: locate_def consume_drop views_bytes [OF r] item_offset_le drop_items)
  next
    case False
    have "n < usize_range" using fits by (simp add: list_fits_def list_bytes_def)
    then have "PayloadInfo_from (list_bytes n xs) = Ok (PayloadInfo_new (length (enc_prefix 0xc0 0xf7 n)) n)"
      unfolding list_bytes_def by (rule list_prefix_info)
    then have "basic_payload_info (ur_bytes r) = Ok (PayloadInfo_new (length (enc_prefix 0xc0 0xf7 n)) n)"
      using fits by (simp add: views_bytes [OF r] basic_payload_info_def PayloadInfo_new_def list_fits_def list_bytes_def)
    then have "consume_list_payload r = Ok (concat (map enc xs))"
      by (simp add: consume_list_payload_def views_bytes [OF r] PayloadInfo_new_def consume_drop list_bytes_def)
    with False skip [of 0] show ?thesis by (simp add: locate_def)
  qed
qed

lemma at_enc:
  assumes r: "views n xs r" and i: "i < usize_range - 1"
  obtains r' where "at i r = (if i < length xs then Ok (UntrustedRlp_new (enc (xs ! i))) else Err RlpIsTooShort, r')" "views n xs r'"
    "count_cache r' = count_cache r"
proof (cases "i \<le> length xs")
  case True
  let ?d = "concat (map enc (drop i xs))"
  let ?r = "r\<lparr>offset_cache := OffsetCache_new i (length (list_bytes n xs) - length ?d)\<rparr>"
  have "length (list_bytes n xs) - length ?d = item_offset n xs i"
    using item_offset_le by (metis diff_diff_cancel drop_items length_drop)
  then have v: "views n xs ?r" using r True by (simp add: views_def OffsetCache_new_def)
  have at: "at i r = (map_outcome (\<lambda>i. UntrustedRlp_new (take (header_len i + value_len i) ?d)) (basic_payload_info ?d), ?r)"
    using locate_enc [OF assms] True views_list [OF r] by (simp add: at_eq views_bytes [OF r])
  show ?thesis
  proof (cases "i < length xs")
    case lt: True
    then have d: "?d = enc (xs ! i) @ concat (map enc (drop (Suc i) xs))" by (simp flip: Cons_nth_drop_Suc)
    have "length ?d < usize_range" using r length_items_drop [of n xs i] by (simp add: views_def)
    then have "length (enc (xs ! i)) < usize_range" using d by simp
    from enc_info [OF this, of "concat (map enc (drop (Suc i) xs))"] obtain j where
      "basic_payload_info ?d = Ok j" "header_len j + value_len j = length (enc (xs ! i))" using d by metis
    then have "at i r = (Ok (UntrustedRlp_new (enc (xs ! i))), ?r)" using at d by simp
    then show ?thesis using that [of ?r] lt v by simp
  next
    case False
    with True have "?d = []" by simp
    then have "at i r = (Err RlpIsTooShort, ?r)"
      using at by (simp add: basic_payload_info_def PayloadInfo_from_def)
    then show ?thesis using that [of ?r] False v by simp
  qed
next
  case False
  then show ?thesis
    using that [of r] locate_enc [OF assms] views_list [OF r] r by (simp add: at_eq)
qed

text \<open>Collecting over a list that ends at the first error, as \<open>collect\<close> does.\<close>

fun collect :: "('a \<Rightarrow> 'v rlp_result) \<Rightarrow> 'a list \<Rightarrow> 'v list rlp_result" where
  "collect f [] = Ok []"
| "collect f (x # xs) = ok_then (f x) (\<lambda>v. map_outcome ((#) v) (collect f xs))"

lemma collect_Ok: "(\<And>x. x \<in> set xs \<Longrightarrow> f (h x) = Ok (g x)) \<Longrightarrow> collect f (map h xs) = Ok (map g xs)"
  by (induction xs) auto

lemma views_fits: "views n xs r \<Longrightarrow> list_fits n xs"
  by (simp add: views_def)

lemma iter_from_enc:
  assumes "views n xs r" "i \<le> length xs"
  obtains r' where "iter_from f i r = (collect f (map (\<lambda>x. UntrustedRlp_new (enc x)) (drop i xs)), r')" "views n xs r'"
    "count_cache r' = count_cache r"
proof -
  note small = items_small [OF views_fits [OF assms(1)]]
  have "\<exists>r'. iter_from f i r = (collect f (map (\<lambda>x. UntrustedRlp_new (enc x)) (drop i xs)), r') \<and> views n xs r'
      \<and> count_cache r' = count_cache r"
    using assms
  proof (induction "length xs - i" arbitrary: i r)
    case 0
    then have i: "i = length xs" by simp
    from at_enc [OF 0(2), of i] small i obtain r' where "at i r = (Err RlpIsTooShort, r')" "views n xs r'"
      "count_cache r' = count_cache r" by auto
    then show ?case using i by (subst iter_from.simps) simp
  next
    case (Suc m)
    then have i: "i < length xs" "m = length xs - Suc i" "Suc i \<le> length xs" by auto
    from at_enc [OF Suc(3), of i] small i obtain r' where
      at: "at i r = (Ok (UntrustedRlp_new (enc (xs ! i))), r')" "views n xs r'" "count_cache r' = count_cache r" by auto
    from Suc(1) [OF i(2) at(2) i(3)] obtain r'' where
      "iter_from f (Suc i) r' = (collect f (map (\<lambda>x. UntrustedRlp_new (enc x)) (drop (Suc i) xs)), r'')" "views n xs r''"
      "count_cache r'' = count_cache r'" by blast
    moreover have "drop i xs = xs ! i # drop (Suc i) xs" using i(1) by (simp add: Cons_nth_drop_Suc)
    ultimately show ?case
      using at by (subst iter_from.simps) (auto split: outcome.split)
  qed
  then show ?thesis using that by blast
qed

lemma item_count_enc:
  assumes "views n xs r"
  obtains r' where "item_count r = (Ok (length xs), r')" "views n xs r'"
proof -
  obtain r' where r': "iter_from Ok 0 r = (collect Ok (map (\<lambda>x. UntrustedRlp_new (enc x)) (drop 0 xs)), r')" "views n xs r'"
      "count_cache r' = count_cache r"
    using iter_from_enc [OF assms, of 0] by blast
  have "collect Ok (map (\<lambda>x. UntrustedRlp_new (enc x)) xs) = Ok (map (\<lambda>x. UntrustedRlp_new (enc x)) xs)"
    by (rule collect_Ok) simp
  with r' have "iter_from Ok 0 r = (Ok (map (\<lambda>x. UntrustedRlp_new (enc x)) xs), r')" by simp
  moreover have "views n xs (r'\<lparr>count_cache := Some (length xs)\<rparr>)" using r'(2) by (simp add: views_def)
  ultimately show ?thesis
    using that views_list [OF assms] assms
    by (cases "count_cache r") (auto simp: item_count_def comp_defs views_def)
qed

lemma as_list_enc:
  assumes "views n xs r"
  shows "fst (as_list d r) = collect (\<lambda>r. fst (d r)) (map (\<lambda>x. UntrustedRlp_new (enc x)) xs)"
proof -
  obtain r' where "iter_from (\<lambda>r. fst (d r)) 0 r = (collect (\<lambda>r. fst (d r)) (map (\<lambda>x. UntrustedRlp_new (enc x)) (drop 0 xs)), r')"
    using iter_from_enc [OF assms, of 0] by blast
  then show ?thesis by (simp add: as_list_def as_val_def)
qed

lemma val_at_enc:
  assumes "views n xs r" "i < length xs"
  obtains r' where "val_at d i r = (fst (d (UntrustedRlp_new (enc (xs ! i)))), r')" "views n xs r'"
proof -
  have "i < usize_range - 1" using items_small [OF views_fits [OF assms(1)]] assms(2) by linarith
  from at_enc [OF assms(1) this] assms(2) obtain r' where "at i r = (Ok (UntrustedRlp_new (enc (xs ! i))), r')" "views n xs r'"
    by auto
  then show ?thesis using that by (simp add: val_at_def as_val_def comp_defs)
qed

lemma list_at_enc:
  assumes "views n xs r" "i < length xs" "xs ! i = RList ys"
  obtains r' where "list_at d i r = (collect (\<lambda>r. fst (d r)) (map (\<lambda>x. UntrustedRlp_new (enc x)) ys), r')" "views n xs r'"
proof -
  note fits = views_fits [OF assms(1)]
  have "i < usize_range - 1" using items_small [OF fits] assms(2) by linarith
  from at_enc [OF assms(1) this] assms(2,3) obtain r' where r': "at i r = (Ok (UntrustedRlp_new (enc (RList ys))), r')" "views n xs r'"
    by auto
  have "concat (map enc (drop i xs)) = enc (RList ys) @ concat (map enc (drop (Suc i) xs))"
    using assms(2,3) by (simp flip: Cons_nth_drop_Suc)
  then have "length (enc (RList ys)) < usize_range" using length_items_drop [OF fits, of i] by simp
  from as_list_enc [OF views_enc [OF this], of d] r'(1)
  have "list_at d i r = (collect (\<lambda>r. fst (d r)) (map (\<lambda>x. UntrustedRlp_new (enc x)) ys), r')"
    by (simp add: list_at_def comp_defs)
  then show ?thesis using that r'(2) by blast
qed

lemma decode_value_enc:
  assumes "length (enc_data b) < usize_range"
  shows "decode_value f (UntrustedRlp_new (enc_data b)) = f b"
proof (cases "length b = 1 \<and> b ! 0 < 0x80")
  case True
  then obtain c where "b = [c]" "c < 0x80" by (cases b) auto
  then show ?thesis
    by (simp add: enc_data_def decode_value_def view_as_raw_def UntrustedRlp_new_def word_less_nat_alt word_le_nat_alt)
next
  case False
  then have e: "enc_data b = enc_prefix 0x80 0xb7 (length b) @ b" by (auto simp: enc_data_def)
  show ?thesis
  proof (cases "length b \<le> 55")
    case True
    have l: "unat (0x80 + of_nat (length b) :: u8) = 0x80 + length b"
      using unat_add_u8 [of "length b" "0x80"] True by simp
    have one: "length b = 1 \<and> \<not> b ! 0 < 0x80" if "0x80 + of_nat (length b) = (0x81 :: u8)"
      using l False that by simp
    show ?thesis
      using True l one unfolding e
      by (auto simp: enc_prefix_def decode_value_def view_as_raw_def UntrustedRlp_new_def word_le_nat_alt Let_def slice_def index_def)
  next
    case long: False
    let ?n = "length b" and ?k = "length (be_min (length b))"
    have n: "0 < ?n" "?n < usize_range" using long assms e by auto
    note min = be_min_usize [OF n]
    have k: "0 < ?k" "?k \<le> 8" using min by auto
    have l: "unat (0xb7 + of_nat ?k :: u8) = 0xb7 + ?k" using unat_add_u8 [of ?k "0xb7"] k by simp
    have "Suc ?k + ?n < usize_range" using assms long by (simp add: e enc_prefix_def)
    then show ?thesis
      using long l k min unfolding e
      by (simp add: enc_prefix_def decode_value_def view_as_raw_def UntrustedRlp_new_def word_le_nat_alt Let_def slice_def
          decode_usize_eq)
  qed
qed

lemma view_data_enc:
  assumes "length (enc_data b) < usize_range"
  shows "is_data (UntrustedRlp_new (enc_data b))" "view_data (UntrustedRlp_new (enc_data b)) = Ok b"
proof -
  have "is_data (UntrustedRlp_new (enc_data b)) \<and> view_data (UntrustedRlp_new (enc_data b)) = Ok b"
  proof (cases "length b = 1 \<and> b ! 0 < 0x80")
    case True
    then obtain c where b: "b = [c]" "c < 0x80" by (cases b) auto
    then have "PayloadInfo_from b = Ok (PayloadInfo_new 0 1)"
      by (simp add: PayloadInfo_from_def word_less_nat_alt word_le_nat_alt)
    with b show ?thesis
      by (simp add: enc_data_def view_data_def is_data_def is_null_def UntrustedRlp_new_def basic_payload_info_def
          PayloadInfo_new_def usize_add_def slice_def word_less_nat_alt)
  next
    case False
    let ?p = "enc_prefix 0x80 0xb7 (length b)"
    have e: "enc_data b = ?p @ b" using False by (auto simp: enc_data_def)
    have "(?p @ b) ! 0 < 0xc0" using data_prefix_hd [of "length b" b] assms e by simp
    moreover have "basic_payload_info (?p @ b) = Ok (PayloadInfo_new (length ?p) (length b))"
      using data_prefix_info [of "length b" b] assms by (simp add: e basic_payload_info_def PayloadInfo_new_def)
    ultimately show ?thesis
      using assms unfolding e
      by (simp add: view_data_def is_data_def is_null_def UntrustedRlp_new_def PayloadInfo_new_def usize_add_def slice_def)
  qed
  then show "is_data (UntrustedRlp_new (enc_data b))" "view_data (UntrustedRlp_new (enc_data b)) = Ok b" by simp_all
qed

section \<open>Properties\<close>

text \<open>A client of a view, as a sequence of requests, and the answers that it gets.\<close>

datatype view_request = At nat | Count

fun serve :: "view_request \<Rightarrow> (nat + bytes) view" where
  "serve (At i) = and_then (at i) (\<lambda>v. ok (Inr (view_as_raw v)))"
| "serve Count = and_then item_count (\<lambda>n. ok (Inl n))"

fun serve_all :: "view_request list \<Rightarrow> UntrustedRlp \<Rightarrow> (nat + bytes) rlp_result list" where
  "serve_all [] r = []"
| "serve_all (q # qs) r = (case serve q r of (a, r') \<Rightarrow> a # serve_all qs r')"

fun request_ok :: "view_request \<Rightarrow> bool" where
  "request_ok (At i) \<longleftrightarrow> i < usize_range - 1"
| "request_ok Count \<longleftrightarrow> True"

text \<open>The answers of the list itself.\<close>

fun answer :: "rlp_item list \<Rightarrow> view_request \<Rightarrow> (nat + bytes) rlp_result" where
  "answer xs (At i) = (if i < length xs then Ok (Inr (enc (xs ! i))) else Err RlpIsTooShort)"
| "answer xs Count = Ok (Inl (length xs))"

lemma serve_enc:
  assumes "views n xs r" "request_ok q"
  obtains r' where "serve q r = (answer xs q, r')" "views n xs r'"
proof (cases q)
  case (At i)
  then have "i < usize_range - 1" using assms(2) by simp
  from at_enc [OF assms(1) this] obtain r' where
    "at i r = (if i < length xs then Ok (UntrustedRlp_new (enc (xs ! i))) else Err RlpIsTooShort, r')" "views n xs r'" by blast
  then show ?thesis using that [of r'] At by (simp add: comp_defs view_as_raw_def UntrustedRlp_new_def)
next
  case Count
  obtain r' where "item_count r = (Ok (length xs), r')" "views n xs r'" using item_count_enc [OF assms(1)] by blast
  then show ?thesis using that [of r'] Count by (simp add: comp_defs)
qed

text \<open>
  C24: A view of an encoded list refines the list: whatever sequence of \<open>at\<close> and \<open>item_count\<close> requests is made, with the
  offset and count caches filled and moved by the earlier ones, each answer is the one that the list gives, the encoding
  of the item, an error past the end, or the number of items.  The largest index, \<open>usize::max_value()\<close>, is excluded: it
  marks an unused cache, and \<open>at_max_returns_list\<close> shows what \<open>at\<close> does with it.
\<close>

theorem view_refines_list:
  assumes "length (enc (RList xs)) < usize_range" "list_all request_ok qs"
  shows "serve_all qs (UntrustedRlp_new (enc (RList xs))) = map (answer xs) qs"
proof -
  have "views n xs r \<Longrightarrow> serve_all qs r = map (answer xs) qs" for n r
    using assms(2)
  proof (induction qs arbitrary: r)
    case (Cons q qs)
    then obtain r' where "serve q r = (answer xs q, r')" "views n xs r'"
      using serve_enc [OF Cons.prems(1), of q] by auto
    with Cons show ?case by simp
  qed simp
  then show ?thesis using views_enc [OF assms(1)] by blast
qed

theorem view_refines_list_witness:
  "serve_all [At 1, Count, At 0, At 7, At 2] (UntrustedRlp_new [0xc6, 0x83, 99, 97, 116, 0xc0, 5])
     = [Ok (Inr [0xc0]), Ok (Inl 3), Ok (Inr [0x83, 99, 97, 116]), Err RlpIsTooShort, Ok (Inr [5])]"
  using view_refines_list [of "[RData [99, 97, 116], RList [], RData [5]]" "[At 1, Count, At 0, At 7, At 2]"]
  by (simp add: enc_data_def enc_payload_def enc_prefix_def)

text \<open>
  C25: No input makes these operations of the decoder panic: for every view, of any bytes and in any state of its caches,
  \<open>at\<close>, \<open>item_count\<close> and \<open>data\<close> return a value or an error, and so do \<open>decode_value\<close> and \<open>as_list\<close> with a decoder that does
  not panic itself.  (\<open>is_int\<close> does panic, on the input that \<open>is_int_panics_iff\<close> describes.)
\<close>

theorem decoder_never_panics:
  assumes "\<And>bs p. f bs \<noteq> Panic p" "\<And>v p. fst (d v) \<noteq> Panic p"
  shows "fst (at i r) \<noteq> Panic p \<and> fst (item_count r) \<noteq> Panic p \<and> view_data r \<noteq> Panic p
    \<and> decode_value f r \<noteq> Panic p \<and> fst (as_list d r) \<noteq> Panic p"
  using assms by (intro conjI at_safe item_count_safe view_data_safe decode_value_safe)
    (simp_all add: as_list_def as_val_def iter_from_safe)

theorem decoder_never_panics_witness:
  "fst (at 3 (UntrustedRlp_new [0xff, 1])) \<noteq> Panic Index_out_of_bounds
     \<and> fst (item_count (UntrustedRlp_new [0xff, 1])) \<noteq> Panic Index_out_of_bounds
     \<and> view_data (UntrustedRlp_new [0xff, 1]) \<noteq> Panic Index_out_of_bounds
     \<and> decode_value Ok (UntrustedRlp_new [0xff, 1]) \<noteq> Panic Index_out_of_bounds
     \<and> fst (as_list item_count (UntrustedRlp_new [0xff, 1])) \<noteq> Panic Index_out_of_bounds"
  using decoder_never_panics [where f = Ok and d = item_count and i = 3 and r = "UntrustedRlp_new [0xff, 1]"
      and p = Index_out_of_bounds] item_count_safe by auto

lemma iter_from_bound:
  assumes "fst (iter_from f i r) = Ok vs"
  shows "length vs \<le> length (ur_bytes r)
    \<and> (oc_index (offset_cache r) < i \<longrightarrow> length vs \<le> length (ur_bytes r) - Suc (oc_offset (offset_cache r)))"
  using assms
proof (induction f i r arbitrary: vs rule: iter_from.induct)
  case (1 f i r)
  show ?case
  proof (cases "fst (at i r)")
    case (Ok item)
    then obtain r' where at: "at i r = (Ok item, r')" by (cases "at i r") simp
    with 1(2) obtain v ws where v: "f item = Ok v" and ws: "fst (iter_from f (Suc i) r') = Ok ws" "vs = v # ws"
      by (subst (asm) iter_from.simps) (auto split: outcome.splits prod.splits)
    have "length ws \<le> length (ur_bytes r') \<and> (oc_index (offset_cache r') < Suc i \<longrightarrow>
        length ws \<le> length (ur_bytes r') - Suc (oc_offset (offset_cache r')))"
      using 1(1) [OF at [symmetric] _ v ws(1)] by simp
    then show ?thesis using at_Ok [OF at] ws(2) by auto
  next
    case (Err e)
    then show ?thesis using 1(2) by (subst (asm) iter_from.simps) (auto split: outcome.splits prod.splits)
  next
    case (Panic p)
    then show ?thesis using 1(2) by (subst (asm) iter_from.simps) (auto split: outcome.splits prod.splits)
  qed
qed

text \<open>
  C26: Every iteration over a view ends, on any bytes and in any state of the caches, and yields at most as many items as
  the slice has bytes.
\<close>

theorem as_list_bounded:
  assumes "fst (as_list d r) = Ok vs"
  shows "length vs \<le> length (ur_bytes r)"
  using assms iter_from_bound by (auto simp: as_list_def)

theorem as_list_bounded_witness:
  "fst (as_list (\<lambda>r. (decode_value Ok r, r)) (UntrustedRlp_new [0xc2, 5, 7])) = Ok [[5], [7]]
     \<and> length [[5], [7 :: u8]] \<le> length (ur_bytes (UntrustedRlp_new [0xc2, 5, 7]))"
proof -
  have "fst (as_list (\<lambda>r. (decode_value Ok r, r)) (UntrustedRlp_new [0xc2, 5, 7])) = Ok [[5], [7]]"
    using as_list_enc [OF views_enc [of "[RData [5], RData [7]]"], of "\<lambda>r. (decode_value Ok r, r)"]
    by (simp add: enc_data_def enc_payload_def enc_prefix_def decode_value_def view_as_raw_def UntrustedRlp_new_def)
  with as_list_bounded [OF this] show ?thesis by simp
qed

text \<open>
  \<open>is_int\<close> is not total: it panics exactly on the views whose prefix announces a value or a length of a length of
  which the byte it looks at is cut off, the single byte \<open>0x81\<close> for example.
\<close>

theorem is_int_panics_iff:
  "(\<exists>p. is_int r = Panic p) \<longleftrightarrow>
     is_data r \<and> 0x80 < ur_bytes r ! 0 \<and> length (ur_bytes r) \<le> 1 + (unat (ur_bytes r ! 0) - 0xb7)"
  by (auto simp: is_int_def is_data_def is_null_def index_def Let_def word_le_nat_alt word_less_nat_alt)

text \<open>
  C38: The length that the prefix of a list declares does not bound its items: when a list of items \<open>xs\<close> is followed by
  the encodings of \<open>ys\<close>, the view has the items of both.
\<close>

theorem list_reads_past_its_end:
  assumes "length (enc (RList xs) @ concat (map enc ys)) < usize_range"
  shows "fst (item_count (UntrustedRlp_new (enc (RList xs) @ concat (map enc ys)))) = Ok (length xs + length ys)"
proof -
  let ?n = "length (concat (map enc xs))"
  have b: "enc (RList xs) @ concat (map enc ys) = list_bytes ?n (xs @ ys)" by (simp add: list_bytes_def enc_payload_def)
  have "views ?n (xs @ ys) (UntrustedRlp_new (list_bytes ?n (xs @ ys)))"
    using assms by (intro views_new) (simp add: list_fits_def list_bytes_def enc_payload_def)
  then obtain r' where "item_count (UntrustedRlp_new (list_bytes ?n (xs @ ys))) = (Ok (length (xs @ ys)), r')"
    using item_count_enc by blast
  then show ?thesis unfolding b by simp
qed

theorem list_reads_past_its_end_witness: "fst (item_count (UntrustedRlp_new [0xc1, 1, 2])) = Ok 2"
  using list_reads_past_its_end [of "[RData [1]]" "[RData [2]]"]
  by (simp add: enc_data_def enc_payload_def enc_prefix_def)

text \<open>
  The index \<open>usize::MAX\<close> marks an unused offset cache, so that asking a fresh view for the item of that index returns
  the list itself.
\<close>

theorem at_max_returns_list:
  assumes "length (enc (RList xs)) < usize_range"
  shows "fst (at (usize_range - 1) (UntrustedRlp_new (enc (RList xs)))) = Ok (UntrustedRlp_new (enc (RList xs)))"
proof -
  let ?r = "UntrustedRlp_new (enc (RList xs))"
  have "locate (usize_range - 1) ?r = Ok (enc (RList xs))"
    by (simp add: locate_def UntrustedRlp_new_def OffsetCache_new_def consume_drop)
  moreover obtain i where "basic_payload_info (enc (RList xs)) = Ok i" "header_len i + value_len i = length (enc (RList xs))"
    using enc_info [OF assms, of "[]"] by auto
  ultimately show ?thesis
    using views_list [OF views_enc [OF assms]] by (simp add: at_eq)
qed

theorem at_max_returns_list_witness:
  "fst (at (usize_range - 1) (UntrustedRlp_new [0xc1, 1])) = Ok (UntrustedRlp_new [0xc1, 1])"
  using at_max_returns_list [of "[RData [1]]"] by (simp add: enc_data_def enc_payload_def enc_prefix_def)

text \<open>
  C39: A non-canonical representation is accepted: a string of 2 to 55 bytes behind a one-byte length, where the canonical
  encoding has the length in the prefix, is decoded to the same value, so that different bytes decode alike.
\<close>

theorem noncanonical_accepted:
  assumes "1 < length b" "length b \<le> 55"
  shows "decode_value f (UntrustedRlp_new (0xb8 # of_nat (length b) # b)) = f b
    \<and> decode_value f (UntrustedRlp_new (enc_data b)) = f b \<and> enc_data b \<noteq> 0xb8 # of_nat (length b) # b"
proof (intro conjI)
  have n: "unat (of_nat (length b) :: u8) = length b" using assms(2) by (simp add: unat_of_nat)
  then have "decode_usize [of_nat (length b)] = Ok (length b)"
    using assms(1) by (auto simp: decode_usize_eq word_unat_eq_iff)
  then show "decode_value f (UntrustedRlp_new (0xb8 # of_nat (length b) # b)) = f b"
    using assms(2) by (simp add: decode_value_def view_as_raw_def UntrustedRlp_new_def slice_def Let_def)
  show "decode_value f (UntrustedRlp_new (enc_data b)) = f b"
    using assms by (intro decode_value_enc) (simp add: enc_data_def enc_prefix_def)
  have "length (enc_data b) = Suc (length b)" using assms by (simp add: enc_data_def enc_prefix_def)
  then show "enc_data b \<noteq> 0xb8 # of_nat (length b) # b" by auto
qed

theorem noncanonical_accepted_witness:
  "decode_value Ok (UntrustedRlp_new (0xb8 # of_nat (length [1, 2 :: u8]) # [1, 2])) = Ok [1, 2]
    \<and> decode_value Ok (UntrustedRlp_new (enc_data [1, 2])) = Ok [1, 2] \<and> enc_data [1, 2] \<noteq> 0xb8 # of_nat (length [1, 2 :: u8]) # [1, 2]"
  by (rule noncanonical_accepted) simp_all

end
