(* ===== verification/Rlp_Codec.thy ===== *)
theory Rlp_Codec
  imports Rlp_View
begin

text \<open>
  The implementations of \<open>Encodable\<close> and \<open>Decodable\<close> for the basic types (\<open>util/rlp/src/impls.rs\<close>) and the code that
  \<open>util/rlp_derive\<close> generates for structures.  The macros of the source, which are instantiated at several integer and
  hash types, are functions polymorphic in the length of a word.  The locale \<open>codec\<close> states what a type promises, that
  appending a value appends the encoding of an item and that decoding this item gives the value back, and the round
  trips are proved from it once.
\<close>

section \<open>Definitions\<close>

text \<open>A decoder that reads the payload of a byte string.\<close>

definition decoding :: "(bytes \<Rightarrow> 'v rlp_result) \<Rightarrow> 'v view" where
  "decoding f r = (decode_value f r, r)"

definition encoding :: "bytes \<Rightarrow> unit rlp_comp" where
  "encoding b = on_buffer (encode_value b)"

subsection \<open>Booleans, byte strings and strings\<close>

definition bool_append :: "bool \<Rightarrow> unit rlp_comp" where
  "bool_append b = (if b then encoding [1] else encoding [0])"

definition bool_decode :: "bool view" where
  "bool_decode = decoding (\<lambda>bs.
     if length bs = 0 then Ok False
     else if length bs = 1 then Ok (bs ! 0 \<noteq> 0)
     else Err RlpIsTooBig)"

definition bytes_append :: "bytes \<Rightarrow> unit rlp_comp" where
  "bytes_append b = encoding b"

definition bytes_decode :: "bytes view" where
  "bytes_decode = decoding Ok"

text \<open>\<open>str::from_utf8\<close> accepts the well-formed sequences; a \<open>String\<close> is represented by its bytes.\<close>

definition is_cont :: "u8 \<Rightarrow> bool" where
  "is_cont b \<longleftrightarrow> 0x80 \<le> b \<and> b \<le> 0xbf"

fun utf8_valid :: "bytes \<Rightarrow> bool" where
  "utf8_valid [] = True"
| "utf8_valid (a # bs) =
     (if a < 0x80 then utf8_valid bs
      else case bs of
        [] \<Rightarrow> False
      | b # cs \<Rightarrow>
          if 0xc2 \<le> a \<and> a \<le> 0xdf then is_cont b \<and> utf8_valid cs
          else case cs of
            [] \<Rightarrow> False
          | c # ds \<Rightarrow>
              if 0xe0 \<le> a \<and> a \<le> 0xef then
                is_cont b \<and> (a = 0xe0 \<longrightarrow> 0xa0 \<le> b) \<and> (a = 0xed \<longrightarrow> b \<le> 0x9f) \<and> is_cont c \<and> utf8_valid ds
              else case ds of
                [] \<Rightarrow> False
              | d # es \<Rightarrow>
                  0xf0 \<le> a \<and> a \<le> 0xf4 \<and> is_cont b \<and> (a = 0xf0 \<longrightarrow> 0x90 \<le> b) \<and> (a = 0xf4 \<longrightarrow> b \<le> 0x8f)
                  \<and> is_cont c \<and> is_cont d \<and> utf8_valid es)"

definition str_append :: "bytes \<Rightarrow> unit rlp_comp" where
  "str_append s = encoding s"

definition str_decode :: "bytes view" where
  "str_decode = decoding (\<lambda>bs. if utf8_valid bs then Ok bs else Err RlpExpectedToBeData)"

subsection \<open>Options\<close>

definition option_append :: "('v \<Rightarrow> unit rlp_comp) \<Rightarrow> 'v option \<Rightarrow> unit rlp_comp" where
  "option_append rlp_append v =
     (case v of
        None \<Rightarrow> begin_list 0
      | Some v \<Rightarrow> and_then (begin_list 1) (\<lambda>_. append_item (rlp_append v)))"

definition option_decode :: "'v view \<Rightarrow> 'v option view" where
  "option_decode decode = and_then item_count (\<lambda>items.
     if items = 1 then and_then (val_at decode 0) (\<lambda>v. ok (Some v))
     else if items = 0 then ok None
     else fail RlpIncorrectListLen)"

subsection \<open>Integers\<close>

definition u8_append :: "u8 \<Rightarrow> unit rlp_comp" where
  "u8_append v = (if v \<noteq> 0 then encoding [v] else encoding [])"

definition u8_decode :: "u8 view" where
  "u8_decode = decoding (\<lambda>bs.
     if length bs = 1 \<and> bs ! 0 \<noteq> 0 then Ok (bs ! 0)
     else if length bs = 0 then Ok 0
     else if length bs = 1 then Err RlpInvalidIndirection
     else Err RlpIsTooBig)"

text \<open>The macros \<open>impl_encodable_for_u\<close> and \<open>impl_decodable_for_u\<close>, instantiated at 16, 32 and 64 bits.\<close>

definition u_append :: "'a::len word \<Rightarrow> unit rlp_comp" where
  "u_append v =
     (let leading_empty_bytes = leading_zeros LENGTH('a) (unat v) div 8;
          buffer = be_bytes (LENGTH('a) div 8) (unat v)
      in encoding (drop leading_empty_bytes buffer))"

fun u_digits :: "bytes \<Rightarrow> 'a::len word \<Rightarrow> 'a word rlp_result" where
  "u_digits [] res = Ok res"
| "u_digits (b # bs) res = ok_then (word_add res (push_bit (length bs * 8) (ucast b))) (u_digits bs)"

definition u_decode :: "'a::len word view" where
  "u_decode r = decoding (\<lambda>bs.
     if length bs \<le> 1 then map_outcome ucast (fst (u8_decode r))
     else if length bs \<le> LENGTH('a) div 8 then
       (if bs ! 0 = 0 then Err RlpInvalidIndirection else u_digits bs 0)
     else Err RlpIsTooBig) r"

definition usize_append :: "nat \<Rightarrow> unit rlp_comp" where
  "usize_append n = u_append (of_nat n :: 64 word)"

definition usize_decode :: "nat view" where
  "usize_decode = and_then (u_decode :: 64 word view) (\<lambda>v. ok (unat v))"

text \<open>The macros \<open>impl_encodable_for_uint\<close> and \<open>impl_decodable_for_uint\<close>, for \<open>U256\<close> and \<open>U128\<close>.\<close>

definition uint_append :: "'a::len word \<Rightarrow> unit rlp_comp" where
  "uint_append v =
     (let leading_empty_bytes = LENGTH('a) div 8 - (nat_bits (unat v) + 7) div 8;
          buffer = be_bytes (LENGTH('a) div 8) (unat v)
      in encoding (drop leading_empty_bytes buffer))"

definition uint_decode :: "'a::len word view" where
  "uint_decode = decoding (\<lambda>bs.
     if bs \<noteq> [] \<and> bs ! 0 = 0 then Err RlpInvalidIndirection
     else if length bs \<le> LENGTH('a) div 8 then Ok (of_nat (be_nat bs))
     else Err RlpIsTooBig)"

text \<open>The macros \<open>impl_encodable_for_hash\<close> and \<open>impl_decodable_for_hash\<close>: a hash is the big-endian value of its bytes.\<close>

definition hash_append :: "'a::len word \<Rightarrow> unit rlp_comp" where
  "hash_append h = encoding (be_bytes (LENGTH('a) div 8) (unat h))"

definition hash_decode :: "'a::len word view" where
  "hash_decode = decoding (\<lambda>bs.
     if length bs < LENGTH('a) div 8 then Err RlpIsTooShort
     else if LENGTH('a) div 8 < length bs then Err RlpIsTooBig
     else Ok (of_nat (be_nat bs)))"

subsection \<open>Derived implementations\<close>

text \<open>
  \<open>impl_encodable\<close> generates a list with one call for each field, \<open>append_list\<close> for a field whose type is written as
  \<open>Vec\<close> and \<open>append\<close> otherwise; the decoder reads the fields in their order with \<open>list_at\<close> and \<open>val_at\<close>.  The wrappers
  for a structure with a single field leave out the list.
\<close>

definition impl_encodable :: "unit rlp_comp list \<Rightarrow> unit rlp_comp" where
  "impl_encodable stmts = and_then (begin_list (length stmts)) (\<lambda>_. seq_all stmts)"

definition encodable_field :: "('v \<Rightarrow> unit rlp_comp) \<Rightarrow> 'v \<Rightarrow> unit rlp_comp" where
  "encodable_field rlp_append v = append_item (rlp_append v)"

definition encodable_vec_field :: "('v \<Rightarrow> unit rlp_comp) \<Rightarrow> 'v list \<Rightarrow> unit rlp_comp" where
  "encodable_vec_field rlp_append vs = append_list rlp_append vs"

definition decodable_field :: "'v view \<Rightarrow> nat \<Rightarrow> 'v view" where
  "decodable_field decode i = val_at decode i"

definition decodable_vec_field :: "'v view \<Rightarrow> nat \<Rightarrow> 'v list view" where
  "decodable_vec_field decode i = list_at decode i"

section \<open>Encodings of small items\<close>

definition small :: "rlp_item \<Rightarrow> bool" where
  "small x \<longleftrightarrow> length (enc x) < 2 ^ 32"

lemma small_usize: "small x \<Longrightarrow> length (enc x) < usize_range"
  by (simp add: small_def)

lemma small_payload: "small (RList xs) \<Longrightarrow> length (concat (map enc xs)) < 2 ^ 32"
  using payload_length_le [of "concat (map enc xs)"] by (simp add: small_def)

lemma small_member: "small (RList xs) \<Longrightarrow> x \<in> set xs \<Longrightarrow> small x"
proof -
  assume x: "small (RList xs)" "x \<in> set xs"
  from x(2) have "length (enc x) \<le> length (concat (map enc xs))" by (induction xs) auto
  with small_payload [OF x(1)] show ?thesis by (simp add: small_def)
qed

lemma small_list_all: "small (RList xs) \<Longrightarrow> list_all small xs"
  using small_member by (auto simp: list_all_iff)

lemma small_length: "small (RList xs) \<Longrightarrow> length xs < usize_range"
  using small_payload [of xs] length_items_le [of xs] by simp

text \<open>A bound on the length of an encoding.\<close>

fun item_bound :: "rlp_item \<Rightarrow> nat" where
  "item_bound (RData b) = 9 + length b"
| "item_bound (RList xs) = 9 + sum_list (map item_bound xs)"

lemma length_prefix_le: "n < usize_range \<Longrightarrow> length (enc_prefix sh lg n) \<le> 9"
  using length_be_min_le [of n 8] by (simp add: enc_prefix_def)

lemma length_enc_data_le: "length b < usize_range \<Longrightarrow> length (enc (RData b)) \<le> 9 + length b"
  using length_prefix_le by (simp add: enc_data_def)

lemma length_enc_le: "item_bound x < usize_range \<Longrightarrow> length (enc x) \<le> item_bound x"
proof (induction x)
  case (RData b)
  then show ?case using length_enc_data_le [of b] by simp
next
  case (RList xs)
  have "length (concat (map enc xs)) \<le> sum_list (map item_bound xs)"
    using RList by (induction xs) (auto simp: add_mono)
  moreover from this RList.prems have "length (enc_prefix 0xc0 0xf7 (length (concat (map enc xs)))) \<le> 9"
    by (intro length_prefix_le) simp
  ultimately show ?case by (simp add: enc_payload_def)
qed

lemma small_bound: "item_bound x < 2 ^ 32 \<Longrightarrow> small x"
  using length_enc_le [of x] by (simp add: small_def)

lemma puts_encoding: "small (RData b) \<Longrightarrow> puts (append_item (encoding b)) (enc (RData b))"
proof -
  assume "small (RData b)"
  then have "length b < 2 ^ 32" by (auto simp: small_def enc_data_def split: if_splits)
  from puts_data [OF this] show ?thesis by (simp add: encoding_def)
qed

lemma decoding_enc: "small (RData b) \<Longrightarrow> fst (decoding f (UntrustedRlp_new (enc (RData b)))) = f b"
  using decode_value_enc [of b f] small_usize [of "RData b"] by (simp add: decoding_def)

lemma puts_struct:
  assumes "list_all2 puts ms (map enc xs)" "small (RList xs)"
  shows "puts (append_item (impl_encodable ms)) (enc (RList xs))" "puts (impl_encodable ms) (enc (RList xs))"
proof -
  have l: "length ms < usize_range" using assms small_length by (auto dest: list_all2_lengthD)
  show "puts (append_item (impl_encodable ms)) (enc (RList xs))" "puts (impl_encodable ms) (enc (RList xs))"
    using puts_append_list [OF assms(1) l] puts_list [OF assms(1) l] small_payload [OF assms(2)]
    by (simp_all add: impl_encodable_def)
qed

text \<open>Reading a structure: a computation that gives the value \<open>v\<close> on every view of the items \<open>xs\<close>.\<close>

definition reads :: "rlp_item list \<Rightarrow> 'v view \<Rightarrow> 'v \<Rightarrow> bool" where
  "reads xs m v \<longleftrightarrow> (\<forall>n r. views n xs r \<longrightarrow> (\<exists>r'. m r = (Ok v, r') \<and> views n xs r'))"

lemma reads_ok: "reads xs (ok v) v"
  by (simp add: reads_def ok_def)

lemma reads_okI: "v = w \<Longrightarrow> reads xs (ok v) w"
  using reads_ok by simp

lemma reads_and_then: "reads xs m a \<Longrightarrow> reads xs (f a) b \<Longrightarrow> reads xs (and_then m f) b"
  by (fastforce simp: reads_def and_then_def)

lemma reads_item_count: "reads xs item_count (length xs)"
  using item_count_enc by (metis reads_def)

lemma reads_at: "i < length xs \<Longrightarrow> reads xs (at i) (UntrustedRlp_new (enc (xs ! i)))"
  unfolding reads_def
proof (intro allI impI)
  fix n r assume i: "i < length xs" and r: "views n xs r"
  have "i < usize_range - 1" using items_small [OF views_fits [OF r]] i by linarith
  from at_enc [OF r this] i show "\<exists>r'. at i r = (Ok (UntrustedRlp_new (enc (xs ! i))), r') \<and> views n xs r'"
    by (metis (full_types))
qed

lemma reads_val_at:
  "i < length xs \<Longrightarrow> fst (d (UntrustedRlp_new (enc (xs ! i)))) = Ok v \<Longrightarrow> reads xs (val_at d i) v"
  unfolding reads_def by (metis val_at_enc)

lemma reads_list_at:
  assumes "i < length xs" "xs ! i = RList (map g vs)" "\<And>v. v \<in> set vs \<Longrightarrow> fst (d (UntrustedRlp_new (enc (g v)))) = Ok v"
  shows "reads xs (list_at d i) vs"
proof -
  have "collect (\<lambda>r. fst (d r)) (map (\<lambda>v. UntrustedRlp_new (enc (g v))) vs) = Ok (map (\<lambda>v. v) vs)"
    by (rule collect_Ok) (rule assms(3))
  then have "collect (\<lambda>r. fst (d r)) (map (\<lambda>x. UntrustedRlp_new (enc x)) (map g vs)) = Ok vs" by (simp add: comp_def)
  then show ?thesis unfolding reads_def using list_at_enc [OF _ assms(1,2)] by metis
qed

lemma reads_lift: "reads xs (lift (Ok v)) v"
  by (simp add: reads_def lift_def)

lemma reads_decode: "reads xs m v \<Longrightarrow> small (RList xs) \<Longrightarrow> fst (m (UntrustedRlp_new (enc (RList xs)))) = Ok v"
  using views_enc [OF small_usize [of "RList xs"]] by (fastforce simp: reads_def)

text \<open>Sequences of calls, written out or as a list.\<close>

lemma and_then_assoc: "and_then (and_then m f) g = and_then m (\<lambda>a. and_then (f a) g)"
  by (auto simp: and_then_def fun_eq_iff split: prod.splits outcome.splits)

lemma and_then_ok: "and_then m ok = m"
  by (auto simp: and_then_def ok_def fun_eq_iff split: prod.splits outcome.splits)

lemmas calls_defs = impl_encodable_def and_then_assoc and_then_ok eval_nat_numeral

section \<open>Codecs\<close>

locale codec =
  fixes app :: "'v \<Rightarrow> unit rlp_comp" and dec :: "'v view" and item :: "'v \<Rightarrow> rlp_item" and valid :: "'v \<Rightarrow> bool"
  assumes appends: "valid v \<Longrightarrow> small (item v) \<Longrightarrow> puts (append_item (app v)) (enc (item v))"
    and decodes: "valid v \<Longrightarrow> small (item v) \<Longrightarrow> fst (dec (UntrustedRlp_new (enc (item v)))) = Ok v"
begin

lemma roundtrip:
  assumes "valid v" "small (item v)"
  shows "encode (app v) = Ok (enc (item v))" "fst (as_val dec (UntrustedRlp_new (enc (item v)))) = Ok v"
  using puts_encode [OF appends [OF assms]] decodes [OF assms] by (simp_all add: as_val_def)

lemma item_inj: "valid v \<Longrightarrow> valid w \<Longrightarrow> small (item v) \<Longrightarrow> item v = item w \<Longrightarrow> v = w"
  using decodes by (metis outcome.inject(1))

lemma appends_all:
  assumes "list_all valid vs" "small (RList (map item vs))"
  shows "list_all2 puts (map (\<lambda>v. append_item (app v)) vs) (map enc (map item vs))"
  using assms small_list_all [OF assms(2)] appends
  by (auto simp: list_all2_map1 list_all2_map2 list_all_iff intro: list.rel_refl_strong)

lemma list_appends:
  assumes "list_all valid vs" "small (RList (map item vs))"
  shows "puts (append_list app vs) (enc (RList (map item vs)))" "puts (append_item (append_list app vs)) (enc (RList (map item vs)))"
  using puts_struct [OF appends_all [OF assms] assms(2)]
  by (simp_all add: impl_encodable_def append_list_def append_all_seq)

lemma list_decodes:
  assumes "list_all valid vs" "small (RList (map item vs))" "v \<in> set vs"
  shows "fst (dec (UntrustedRlp_new (enc (item v)))) = Ok v"
  using assms small_list_all [OF assms(2)] decodes by (auto simp: list_all_iff)

lemma reads_field: "i < length xs \<Longrightarrow> xs ! i = item v \<Longrightarrow> valid v \<Longrightarrow> small (item v) \<Longrightarrow> reads xs (val_at dec i) v"
  by (rule reads_val_at) (auto intro: decodes)

lemma reads_vec_field:
  "i < length xs \<Longrightarrow> xs ! i = RList (map item vs) \<Longrightarrow> list_all valid vs \<Longrightarrow> small (RList (map item vs)) \<Longrightarrow> reads xs (list_at dec i) vs"
  by (rule reads_list_at) (auto intro: list_decodes)

lemma list_codec:
  "codec (append_list app) (as_list dec) (\<lambda>vs. RList (map item vs)) (list_all valid)"
proof
  fix vs assume vs: "list_all valid vs" "small (RList (map item vs))"
  show "puts (append_item (append_list app vs)) (enc (RList (map item vs)))" using list_appends [OF vs] by simp
  have "collect (\<lambda>r. fst (dec r)) (map (\<lambda>v. UntrustedRlp_new (enc (item v))) vs) = Ok (map (\<lambda>v. v) vs)"
    by (rule collect_Ok) (rule list_decodes [OF vs])
  with as_list_enc [OF views_enc [OF small_usize [OF vs(2)]], of dec]
  show "fst (as_list dec (UntrustedRlp_new (enc (RList (map item vs))))) = Ok vs" by (simp add: comp_def)
qed

lemma option_codec:
  "codec (option_append app) (option_decode dec) (\<lambda>v. RList (case v of None \<Rightarrow> [] | Some v \<Rightarrow> [item v])) (pred_option valid)"
proof
  fix v assume v: "pred_option valid v" "small (RList (case v of None \<Rightarrow> [] | Some v \<Rightarrow> [item v]))"
  let ?xs = "case v of None \<Rightarrow> [] | Some v \<Rightarrow> [item v]"
  have all: "list_all small ?xs" using small_list_all [OF v(2)] .
  have eq: "option_append app v = impl_encodable (case v of None \<Rightarrow> [] | Some v \<Rightarrow> [append_item (app v)])"
    by (cases v; rule ext) (auto simp: option_append_def impl_encodable_def comp_defs split: prod.splits outcome.splits)
  have "list_all2 puts (case v of None \<Rightarrow> [] | Some v \<Rightarrow> [append_item (app v)]) (map enc ?xs)"
    using v(1) all appends by (cases v) auto
  then show "puts (append_item (option_append app v)) (enc (RList ?xs))"
    unfolding eq by (rule puts_struct(1)) (rule v(2))
  have "reads ?xs (option_decode dec) v"
    unfolding option_decode_def
    by (rule reads_and_then [OF reads_item_count]) (use v(1) all in \<open>cases v; auto intro!: reads_and_then reads_ok reads_field\<close>)
  then show "fst (option_decode dec (UntrustedRlp_new (enc (RList ?xs)))) = Ok v"
    by (rule reads_decode) (rule v(2))
qed

end

section \<open>The basic types\<close>

interpretation bool_c: codec bool_append bool_decode "\<lambda>b. RData (if b then [1] else [0])" "\<lambda>_. True"
proof
  fix b assume s: "small (RData (if b then [1] else [0]))"
  show "puts (append_item (bool_append b)) (enc (RData (if b then [1] else [0])))"
    using puts_encoding [OF s] by (auto simp: bool_append_def split: if_splits)
  show "fst (bool_decode (UntrustedRlp_new (enc (RData (if b then [1] else [0]))))) = Ok b"
    unfolding bool_decode_def decoding_enc [OF s] by simp
qed

interpretation bytes_c: codec bytes_append bytes_decode RData "\<lambda>_. True"
proof
  fix b assume s: "small (RData b)"
  show "puts (append_item (bytes_append b)) (enc (RData b))"
    using puts_encoding [OF s] by (simp add: bytes_append_def)
  show "fst (bytes_decode (UntrustedRlp_new (enc (RData b)))) = Ok b"
    unfolding bytes_decode_def decoding_enc [OF s] by simp
qed

interpretation str_c: codec str_append str_decode RData utf8_valid
proof
  fix b assume v: "utf8_valid b" and s: "small (RData b)"
  show "puts (append_item (str_append b)) (enc (RData b))"
    using puts_encoding [OF s] by (simp add: str_append_def)
  show "fst (str_decode (UntrustedRlp_new (enc (RData b)))) = Ok b"
    unfolding str_decode_def decoding_enc [OF s] using v by simp
qed

lemma be_min_u8: "be_min (unat v) = (if v = 0 then [] else [v])" for v :: u8
  using unat_lt_u8 [of v] by (simp add: be_min_pos)

interpretation u8_c: codec u8_append u8_decode "\<lambda>v. RData (be_min (unat v))" "\<lambda>_. True"
proof
  fix v :: u8 assume s: "small (RData (be_min (unat v)))"
  show "puts (append_item (u8_append v)) (enc (RData (be_min (unat v))))"
    using puts_encoding [OF s] by (cases "v = 0") (simp_all add: u8_append_def be_min_u8)
  show "fst (u8_decode (UntrustedRlp_new (enc (RData (be_min (unat v)))))) = Ok v"
    unfolding u8_decode_def decoding_enc [OF s] by (simp add: be_min_u8)
qed

text \<open>Integers are encoded by their shortest big-endian representation.\<close>

lemma unat_less_bytes: "LENGTH('a) = 8 * k \<Longrightarrow> unat (v :: 'a::len word) < 256 ^ k"
proof -
  assume k: "LENGTH('a) = 8 * k"
  have "(2 :: nat) ^ LENGTH('a) = 256 ^ k" by (simp only: k power_mult) simp
  then show ?thesis by (metis unsigned_less)
qed

lemma length_be_min_word: "LENGTH('a) = 8 * k \<Longrightarrow> length (be_min (unat (v :: 'a::len word))) \<le> k"
  using unat_less_bytes [of k v] by (rule length_be_min_le)

lemma small_be_min: "LENGTH('a) = 8 * k \<Longrightarrow> k \<le> 55 \<Longrightarrow> small (RData (be_min (unat (v :: 'a::len word))))"
  using length_be_min_word [of k v] by (auto simp: small_def enc_data_def enc_prefix_def)

lemma u_append_min: "LENGTH('a) = 8 * k \<Longrightarrow> u_append (v :: 'a::len word) = encoding (be_min (unat v))"
  using drop_leading [OF unat_less_bytes, of k v] by (simp add: u_append_def)

lemma uint_append_min: "LENGTH('a) = 8 * k \<Longrightarrow> uint_append (v :: 'a::len word) = encoding (be_min (unat v))"
  using be_bytes_min [OF unat_less_bytes, of k v] by (simp add: uint_append_def length_be_min)

lemma u_digits_eq:
  fixes res :: "'a::len word"
  assumes "LENGTH('a) = 8 * k" "length bs \<le> k" "unat res + be_nat bs < 2 ^ LENGTH('a)"
  shows "u_digits bs res = Ok (of_nat (unat res + be_nat bs))"
  using assms(2,3)
proof (induction bs arbitrary: res)
  case (Cons b bs)
  let ?d = "push_bit (length bs * 8) (ucast b) :: 'a word"
  have lt: "unat b * 256 ^ length bs < 2 ^ LENGTH('a)" using Cons.prems(2) by simp
  have p: "(2 :: nat) ^ (length bs * 8) = 256 ^ length bs" by (simp add: mult.commute [of "length bs"] power_mult)
  have "LENGTH(8) \<le> LENGTH('a)" using Cons.prems(1) assms(1) by (cases k) auto
  then have b: "unat (ucast b :: 'a word) = unat b" by (rule unat_ucast_wider)
  have "?d = of_nat (unat b * 256 ^ length bs)" by (simp only: push_bit_word_nat b p)
  then have d: "unat ?d = unat b * 256 ^ length bs" using lt by (simp only: unat_of_nat mod_less)
  have add: "word_add res ?d = (Ok (res + ?d) :: 'a word rlp_result)"
    using Cons.prems(2) d by (simp add: word_add_def)
  have sum: "unat (res + ?d) = unat res + unat ?d"
    using Cons.prems(2) d by (subst unat_add_lem [symmetric]) simp
  show ?case
    using Cons.IH [of "res + ?d"] Cons.prems sum d by (simp add: add add.assoc del: of_nat_add)
qed simp

lemma u_decode_min:
  fixes v :: "'a::len word"
  assumes k: "LENGTH('a) = 8 * k" "0 < k" "k \<le> 55"
  shows "fst (u_decode (UntrustedRlp_new (enc (RData (be_min (unat v)))))) = Ok v"
proof -
  let ?b = "be_min (unat v)"
  note s = small_be_min [OF k(1,3), of v]
  have le: "length ?b \<le> k" by (rule length_be_min_word [OF k(1)])
  show ?thesis
  proof (cases "length ?b \<le> 1")
    case True
    have "be_nat ?b < 256 ^ length ?b" by (rule be_nat_less)
    also have "\<dots> \<le> 256 ^ 1" using True by (intro power_increasing) auto
    finally have v: "unat v < 256" by (simp add: be_nat_be_min)
    have u8: "unat (of_nat (unat v) :: u8) = unat v" using v by (simp only: unat_of_nat) simp
    have "fst (u8_decode (UntrustedRlp_new (enc (RData ?b)))) = Ok (of_nat (unat v))"
      using u8_c.decodes [of "of_nat (unat v)"] s unfolding u8 by (simp only: simp_thms)
    moreover have "ucast (of_nat (unat v) :: u8) = v" by (simp only: ucast_nat u8) simp
    ultimately show ?thesis
      unfolding u_decode_def decoding_enc [OF s] using True by simp
  next
    case False
    then have "0 < unat v" by (cases "unat v") auto
    from be_min_hd [OF this] have "?b ! 0 \<noteq> 0" by (metis hd_conv_nth)
    moreover have "u_digits ?b (0 :: 'a word) = Ok v"
      using u_digits_eq [OF k(1) le, of 0] by (simp add: be_nat_be_min)
    ultimately show ?thesis
      unfolding u_decode_def decoding_enc [OF s] using False le k by simp
  qed
qed

lemma u_codec:
  assumes "LENGTH('a::len) = 8 * k" "0 < k" "k \<le> 55"
  shows "codec u_append u_decode (\<lambda>v :: 'a word. RData (be_min (unat v))) (\<lambda>_. True)"
  by standard (simp_all only: u_append_min [OF assms(1)] puts_encoding u_decode_min [OF assms])

lemma uint_codec:
  assumes "LENGTH('a::len) = 8 * k" "k \<le> 55"
  shows "codec uint_append uint_decode (\<lambda>v :: 'a word. RData (be_min (unat v))) (\<lambda>_. True)"
proof
  fix v :: "'a word" assume s: "small (RData (be_min (unat v)))"
  show "puts (append_item (uint_append v)) (enc (RData (be_min (unat v))))"
    using puts_encoding [OF s] by (simp add: uint_append_min [OF assms(1)])
  have "be_min (unat v) = [] \<or> be_min (unat v) ! 0 \<noteq> 0"
    using be_min_hd [of "unat v"] by (cases "unat v = 0") (auto simp: hd_conv_nth)
  then show "fst (uint_decode (UntrustedRlp_new (enc (RData (be_min (unat v)))))) = Ok v"
    unfolding uint_decode_def decoding_enc [OF s]
    using length_be_min_word [OF assms(1), of v] assms(1) by (auto simp: be_nat_be_min)
qed

lemma hash_codec:
  assumes "LENGTH('a::len) = 8 * k"
  shows "codec hash_append hash_decode (\<lambda>h :: 'a word. RData (be_bytes k (unat h))) (\<lambda>_. True)"
proof
  fix h :: "'a word" assume s: "small (RData (be_bytes k (unat h)))"
  show "puts (append_item (hash_append h)) (enc (RData (be_bytes k (unat h))))"
    using puts_encoding [OF s] assms by (simp add: hash_append_def)
  have "be_nat (be_bytes k (unat h)) = unat h"
    using unat_less_bytes [OF assms, of h] by (simp add: be_bytes_def be_nat_digits)
  then show "fst (hash_decode (UntrustedRlp_new (enc (RData (be_bytes k (unat h)))))) = Ok h"
    unfolding hash_decode_def decoding_enc [OF s] using assms by simp
qed

interpretation u16_c: codec u_append u_decode "\<lambda>v :: 16 word. RData (be_min (unat v))" "\<lambda>_. True"
  by (rule u_codec [where k = 2]) simp_all

interpretation u32_c: codec u_append u_decode "\<lambda>v :: 32 word. RData (be_min (unat v))" "\<lambda>_. True"
  by (rule u_codec [where k = 4]) simp_all

interpretation u64_c: codec u_append u_decode "\<lambda>v :: 64 word. RData (be_min (unat v))" "\<lambda>_. True"
  by (rule u_codec [where k = 8]) simp_all

interpretation u128_c: codec uint_append uint_decode "\<lambda>v :: 128 word. RData (be_min (unat v))" "\<lambda>_. True"
  by (rule uint_codec [where k = 16]) simp_all

interpretation u256_c: codec uint_append uint_decode "\<lambda>v :: u256. RData (be_min (unat v))" "\<lambda>_. True"
  by (rule uint_codec [where k = 32]) simp_all

interpretation h64_c: codec hash_append hash_decode "\<lambda>h :: 64 word. RData (be_bytes 8 (unat h))" "\<lambda>_. True"
  by (rule hash_codec) simp

interpretation h128_c: codec hash_append hash_decode "\<lambda>h :: 128 word. RData (be_bytes 16 (unat h))" "\<lambda>_. True"
  by (rule hash_codec) simp

interpretation h160_c: codec hash_append hash_decode "\<lambda>h :: address. RData (be_bytes 20 (unat h))" "\<lambda>_. True"
  by (rule hash_codec) simp

interpretation h256_c: codec hash_append hash_decode "\<lambda>h :: h256. RData (be_bytes 32 (unat h))" "\<lambda>_. True"
  by (rule hash_codec) simp

interpretation h512_c: codec hash_append hash_decode "\<lambda>h :: 512 word. RData (be_bytes 64 (unat h))" "\<lambda>_. True"
  by (rule hash_codec) simp

interpretation h520_c: codec hash_append hash_decode "\<lambda>h :: 520 word. RData (be_bytes 65 (unat h))" "\<lambda>_. True"
  by (rule hash_codec) simp

interpretation bloom_c: codec hash_append hash_decode "\<lambda>h :: 2048 word. RData (be_bytes 256 (unat h))" "\<lambda>_. True"
  by (rule hash_codec) simp

interpretation usize_c: codec usize_append usize_decode "\<lambda>n. RData (be_min n)" "\<lambda>n. n < usize_range"
proof
  fix n assume n: "n < usize_range" and s: "small (RData (be_min n))"
  have u: "unat (of_nat n :: 64 word) = n" using n by (simp add: unat_of_nat)
  show "puts (append_item (usize_append n)) (enc (RData (be_min n)))"
    using u64_c.appends [of "of_nat n"] s by (simp add: usize_append_def u)
  show "fst (usize_decode (UntrustedRlp_new (enc (RData (be_min n))))) = Ok n"
    using u64_c.decodes [of "of_nat n"] s
    by (cases "u_decode (UntrustedRlp_new (enc_data (be_min n))) :: 64 word rlp_result \<times> UntrustedRlp")
      (simp add: usize_decode_def comp_defs u)
qed

section \<open>Structures\<close>

text \<open>
  The collections \<open>codec_appends\<close> and \<open>codec_reads\<close> hold what each type promises as a field of a structure; the rules below
  walk through the calls that write and read the fields.
\<close>

named_theorems codec_appends \<open>appending a value of a type with a codec\<close>
named_theorems codec_reads \<open>reading a field of a type with a codec\<close>

lemma fields_Nil: "list_all2 puts [] (map enc [])"
  by simp

lemma fields_Cons: "puts m (enc x) \<Longrightarrow> list_all2 puts ms (map enc xs) \<Longrightarrow> list_all2 puts (m # ms) (map enc (x # xs))"
  by simp

lemmas struct_appends = fields_Cons fields_Nil

text \<open>Picking a field by its index.\<close>

lemma nth_picks:
  "(y # xs) ! 0 = y"
  "xs ! 0 = y \<Longrightarrow> (x # xs) ! 1 = y"
  "xs ! 1 = y \<Longrightarrow> (x # xs) ! 2 = y"
  "xs ! 2 = y \<Longrightarrow> (x # xs) ! 3 = y"
  "xs ! 3 = y \<Longrightarrow> (x # xs) ! 4 = y"
  "xs ! 4 = y \<Longrightarrow> (x # xs) ! 5 = y"
  "xs ! 5 = y \<Longrightarrow> (x # xs) ! 6 = y"
  "xs ! 6 = y \<Longrightarrow> (x # xs) ! 7 = y"
  "xs ! 7 = y \<Longrightarrow> (x # xs) ! 8 = y"
  "xs ! 8 = y \<Longrightarrow> (x # xs) ! 9 = y"
  "xs ! 9 = y \<Longrightarrow> (x # xs) ! 10 = y"
  "xs ! 10 = y \<Longrightarrow> (x # xs) ! 11 = y"
  "xs ! 11 = y \<Longrightarrow> (x # xs) ! 12 = y"
  "xs ! 12 = y \<Longrightarrow> (x # xs) ! 13 = y"
  "xs ! 13 = y \<Longrightarrow> (x # xs) ! 14 = y"
  "xs ! 14 = y \<Longrightarrow> (x # xs) ! 15 = y"
  by (simp_all add: eval_nat_numeral)

lemmas field_defs = encodable_field_def encodable_vec_field_def decodable_field_def decodable_vec_field_def

lemmas [codec_appends] =
  bool_c.appends [OF TrueI] bytes_c.appends [OF TrueI] str_c.appends u8_c.appends [OF TrueI]
  u16_c.appends [OF TrueI] u32_c.appends [OF TrueI] u64_c.appends [OF TrueI] usize_c.appends
  u128_c.appends [OF TrueI] u256_c.appends [OF TrueI] h64_c.appends [OF TrueI] h128_c.appends [OF TrueI]
  h160_c.appends [OF TrueI] h256_c.appends [OF TrueI] h512_c.appends [OF TrueI] h520_c.appends [OF TrueI]
  bloom_c.appends [OF TrueI]

lemmas [codec_reads] =
  bool_c.reads_field [OF _ _ TrueI] bytes_c.reads_field [OF _ _ TrueI] str_c.reads_field u8_c.reads_field [OF _ _ TrueI]
  u16_c.reads_field [OF _ _ TrueI] u32_c.reads_field [OF _ _ TrueI] u64_c.reads_field [OF _ _ TrueI] usize_c.reads_field
  u128_c.reads_field [OF _ _ TrueI] u256_c.reads_field [OF _ _ TrueI] h64_c.reads_field [OF _ _ TrueI]
  h128_c.reads_field [OF _ _ TrueI] h160_c.reads_field [OF _ _ TrueI] h256_c.reads_field [OF _ _ TrueI]
  h512_c.reads_field [OF _ _ TrueI] h520_c.reads_field [OF _ _ TrueI] bloom_c.reads_field [OF _ _ TrueI]

lemma list_all_True: "list_all (\<lambda>_. True) xs"
  by (simp add: list_all_iff)

lemmas [codec_appends] =
  u256_c.list_appends(1) [OF list_all_True] h256_c.list_appends(1) [OF list_all_True] usize_c.list_appends(1)

lemmas [codec_reads] =
  u256_c.reads_vec_field [OF _ _ list_all_True] h256_c.reads_vec_field [OF _ _ list_all_True] usize_c.reads_vec_field

text \<open>Every type of fixed size has small encodings.\<close>

lemma small_short: "length b \<le> 55 \<Longrightarrow> small (RData b)"
  by (auto simp: small_def enc_data_def enc_prefix_def)

lemma small_hash: "k < 2 ^ 31 \<Longrightarrow> small (RData (be_bytes k n))"
proof -
  assume k: "k < 2 ^ 31"
  have "length (be_min k) \<le> 4" using k by (intro length_be_min_le) simp
  with k show ?thesis by (simp add: small_def enc_data_def enc_prefix_def)
qed

end
