(* ===== verification/Chain_Types.thy ===== *)
theory Chain_Types
  imports Rlp_Codec Vm_Types
begin

text \<open>
  Types of the block chain with their encodings: \<open>ethcore/vm/src/call_type.rs\<close>, \<open>basic_account.rs\<close>, \<open>log_entry.rs\<close> and
  \<open>receipt.rs\<close> of \<open>ethcore/types/src\<close>.  The accrual of a byte string into a bloom filter belongs to the crate
  \<open>ethereum_types\<close> and is a parameter.
\<close>

section \<open>Definitions\<close>

type_synonym bloom = "2048 word"

definition CallType_append :: "CallType \<Rightarrow> unit rlp_comp" where
  "CallType_append ct =
     (let v = (case ct of NoCall \<Rightarrow> 0 | Call \<Rightarrow> 1 | CallCode \<Rightarrow> 2 | DelegateCall \<Rightarrow> 3 | StaticCall \<Rightarrow> 4)
      in u_append (v :: 32 word))"

definition CallType_decode :: "CallType view" where
  "CallType_decode = and_then (as_val u_decode) (\<lambda>v :: 32 word.
     if v = 0 then ok NoCall
     else if v = 1 then ok Call
     else if v = 2 then ok CallCode
     else if v = 3 then ok DelegateCall
     else if v = 4 then ok StaticCall
     else fail (Custom ''Invalid value of CallType item''))"

record BasicAccount =
  ba_nonce :: u256
  ba_balance :: u256
  ba_storage_root :: h256
  ba_code_hash :: h256

definition BasicAccount_append :: "BasicAccount \<Rightarrow> unit rlp_comp" where
  "BasicAccount_append a = impl_encodable
     [encodable_field uint_append (ba_nonce a), encodable_field uint_append (ba_balance a),
      encodable_field hash_append (ba_storage_root a), encodable_field hash_append (ba_code_hash a)]"

definition BasicAccount_decode :: "BasicAccount view" where
  "BasicAccount_decode =
     and_then (decodable_field uint_decode 0) (\<lambda>nonce.
     and_then (decodable_field uint_decode 1) (\<lambda>balance.
     and_then (decodable_field hash_decode 2) (\<lambda>storage_root.
     and_then (decodable_field hash_decode 3) (\<lambda>code_hash.
     ok \<lparr>ba_nonce = nonce, ba_balance = balance, ba_storage_root = storage_root, ba_code_hash = code_hash\<rparr>))))"

record LogEntry =
  le_address :: address
  le_topics :: "h256 list"
  le_data :: bytes

definition LogEntry_append :: "LogEntry \<Rightarrow> unit rlp_comp" where
  "LogEntry_append l = impl_encodable
     [encodable_field hash_append (le_address l), encodable_vec_field hash_append (le_topics l),
      encodable_field bytes_append (le_data l)]"

definition LogEntry_decode :: "LogEntry view" where
  "LogEntry_decode =
     and_then (decodable_field hash_decode 0) (\<lambda>address.
     and_then (decodable_vec_field hash_decode 1) (\<lambda>topics.
     and_then (decodable_field bytes_decode 2) (\<lambda>data.
     ok \<lparr>le_address = address, le_topics = topics, le_data = data\<rparr>)))"

text \<open>\<open>bloom_of\<close> is the bloom of a byte string, \<open>Bloom::from(BloomInput::Raw(..))\<close>, and \<open>accrue\<close> the union with it.\<close>

definition LogEntry_bloom :: "(bytes \<Rightarrow> bloom) \<Rightarrow> LogEntry \<Rightarrow> bloom" where
  "LogEntry_bloom bloom_of l =
     foldl (\<lambda>b t. or b (bloom_of (be_bytes 32 (unat t)))) (bloom_of (be_bytes 20 (unat (le_address l)))) (le_topics l)"

datatype TransactionOutcome = Unknown | StateRoot h256 | StatusCode u8

record Receipt =
  rc_gas_used :: u256
  rc_log_bloom :: bloom
  rc_logs :: "LogEntry list"
  rc_outcome :: TransactionOutcome

definition Receipt_new :: "(bytes \<Rightarrow> bloom) \<Rightarrow> TransactionOutcome \<Rightarrow> u256 \<Rightarrow> LogEntry list \<Rightarrow> Receipt" where
  "Receipt_new bloom_of outcome gas_used logs =
     \<lparr>rc_gas_used = gas_used, rc_log_bloom = foldl (\<lambda>b l. or b (LogEntry_bloom bloom_of l)) 0 logs,
      rc_logs = logs, rc_outcome = outcome\<rparr>"

definition Receipt_append :: "Receipt \<Rightarrow> unit rlp_comp" where
  "Receipt_append r =
     and_then
       (case rc_outcome r of
          Unknown \<Rightarrow> begin_list 3
        | StateRoot root \<Rightarrow> and_then (begin_list 4) (\<lambda>_. append_item (hash_append root))
        | StatusCode status_code \<Rightarrow> and_then (begin_list 4) (\<lambda>_. append_item (u8_append status_code)))
     (\<lambda>_. and_then (append_item (uint_append (rc_gas_used r)))
     (\<lambda>_. and_then (append_item (hash_append (rc_log_bloom r)))
     (\<lambda>_. append_list LogEntry_append (rc_logs r))))"

definition Receipt_outcome :: "TransactionOutcome view" where
  "Receipt_outcome =
     and_then (at 0) (\<lambda>first.
     and_then (if is_data first then and_then (lift (view_data first)) (\<lambda>d. ok (length d \<le> 1)) else ok False) (\<lambda>short.
     if short then and_then (lift (fst (as_val u8_decode first))) (\<lambda>code. ok (StatusCode code))
     else and_then (lift (fst (as_val hash_decode first))) (\<lambda>root. ok (StateRoot root))))"

definition Receipt_decode :: "Receipt view" where
  "Receipt_decode = and_then item_count (\<lambda>n.
     if n = 3 then
       and_then (val_at uint_decode 0) (\<lambda>gas_used.
       and_then (val_at hash_decode 1) (\<lambda>log_bloom.
       and_then (list_at LogEntry_decode 2) (\<lambda>logs.
       ok \<lparr>rc_gas_used = gas_used, rc_log_bloom = log_bloom, rc_logs = logs, rc_outcome = Unknown\<rparr>)))
     else
       and_then (val_at uint_decode 1) (\<lambda>gas_used.
       and_then (val_at hash_decode 2) (\<lambda>log_bloom.
       and_then (list_at LogEntry_decode 3) (\<lambda>logs.
       and_then Receipt_outcome (\<lambda>outcome.
       ok \<lparr>rc_gas_used = gas_used, rc_log_bloom = log_bloom, rc_logs = logs, rc_outcome = outcome\<rparr>)))))"

section \<open>Codecs\<close>

definition CallType_item :: "CallType \<Rightarrow> rlp_item" where
  "CallType_item ct = RData (case ct of NoCall \<Rightarrow> [] | Call \<Rightarrow> [1] | CallCode \<Rightarrow> [2] | DelegateCall \<Rightarrow> [3] | StaticCall \<Rightarrow> [4])"

lemma be_min_numerals: "be_min 1 = [1]" "be_min 2 = [2]" "be_min 3 = [3]" "be_min 4 = [4]"
  by (simp_all add: be_min_pos)

text \<open>Decoding an integer that stands for a tag.\<close>

lemma u32_tag:
  assumes "small (RData (be_min (unat (v :: 32 word))))" "f v = ok t"
  shows "fst (and_then (as_val u_decode) f (UntrustedRlp_new (enc (RData (be_min (unat v)))))) = Ok t"
  using u32_c.decodes [OF TrueI assms(1)] assms(2)
  by (cases "u_decode (UntrustedRlp_new (enc (RData (be_min (unat v))))) :: 32 word rlp_result \<times> UntrustedRlp")
    (simp add: as_val_def and_then_def ok_def)

interpretation CallType_c: codec CallType_append CallType_decode CallType_item "\<lambda>_. True"
proof
  fix ct assume s: "small (CallType_item ct)"
  define v :: "32 word" where "v = (case ct of NoCall \<Rightarrow> 0 | Call \<Rightarrow> 1 | CallCode \<Rightarrow> 2 | DelegateCall \<Rightarrow> 3 | StaticCall \<Rightarrow> 4)"
  have item: "CallType_item ct = RData (be_min (unat v))"
    by (cases ct) (simp_all add: CallType_item_def v_def be_min_numerals [simplified])
  show "puts (append_item (CallType_append ct)) (enc (CallType_item ct))"
    using u32_c.appends [OF TrueI] s unfolding CallType_append_def item Let_def v_def [symmetric] by blast
  show "fst (CallType_decode (UntrustedRlp_new (enc (CallType_item ct)))) = Ok ct"
    unfolding CallType_decode_def item
    by (rule u32_tag [OF s [unfolded item]]) (cases ct; simp add: v_def)
qed

definition BasicAccount_item :: "BasicAccount \<Rightarrow> rlp_item" where
  "BasicAccount_item a = RList
     [RData (be_min (unat (ba_nonce a))), RData (be_min (unat (ba_balance a))),
      RData (be_bytes 32 (unat (ba_storage_root a))), RData (be_bytes 32 (unat (ba_code_hash a)))]"

interpretation BasicAccount_c: codec BasicAccount_append BasicAccount_decode BasicAccount_item "\<lambda>_. True"
proof
  fix a assume s: "small (BasicAccount_item a)"
  note s = s [unfolded BasicAccount_item_def]
  note fs = small_list_all [OF s, simplified]
  show "puts (append_item (BasicAccount_append a)) (enc (BasicAccount_item a))"
    unfolding BasicAccount_append_def BasicAccount_item_def field_defs
    by (rule puts_struct(1), intro struct_appends codec_appends) (simp_all only: s fs)
  show "fst (BasicAccount_decode (UntrustedRlp_new (enc (BasicAccount_item a)))) = Ok a"
    unfolding BasicAccount_decode_def BasicAccount_item_def field_defs
    by (rule reads_decode, (rule reads_and_then, rule codec_reads, simp, (rule nth_picks)+, simp only: fs)+)
      (rule reads_okI, simp, rule s)
qed

definition LogEntry_item :: "LogEntry \<Rightarrow> rlp_item" where
  "LogEntry_item l = RList
     [RData (be_bytes 20 (unat (le_address l))), RList (map (\<lambda>t. RData (be_bytes 32 (unat t))) (le_topics l)), RData (le_data l)]"

interpretation LogEntry_c: codec LogEntry_append LogEntry_decode LogEntry_item "\<lambda>_. True"
proof
  fix a assume s: "small (LogEntry_item a)"
  note s = s [unfolded LogEntry_item_def]
  note fs = small_list_all [OF s, simplified]
  show "puts (append_item (LogEntry_append a)) (enc (LogEntry_item a))"
    unfolding LogEntry_append_def LogEntry_item_def field_defs
    by (rule puts_struct(1), intro struct_appends codec_appends) (simp_all only: s fs)
  show "fst (LogEntry_decode (UntrustedRlp_new (enc (LogEntry_item a)))) = Ok a"
    unfolding LogEntry_decode_def LogEntry_item_def field_defs
    by (rule reads_decode, (rule reads_and_then, rule codec_reads, simp, (rule nth_picks)+, simp only: fs)+)
      (rule reads_okI, simp, rule s)
qed

lemmas [codec_appends] = LogEntry_c.appends [OF TrueI] LogEntry_c.list_appends(1) [OF list_all_True]
lemmas [codec_reads] = LogEntry_c.reads_field [OF _ _ TrueI] LogEntry_c.reads_vec_field [OF _ _ list_all_True]

text \<open>A receipt is a list of three items, or of four with the outcome in front.\<close>

definition outcome_items :: "TransactionOutcome \<Rightarrow> rlp_item list" where
  "outcome_items oc = (case oc of
     Unknown \<Rightarrow> []
   | StateRoot root \<Rightarrow> [RData (be_bytes 32 (unat root))]
   | StatusCode code \<Rightarrow> [RData (be_min (unat code))])"

definition Receipt_item :: "Receipt \<Rightarrow> rlp_item" where
  "Receipt_item r = RList (outcome_items (rc_outcome r) @
     [RData (be_min (unat (rc_gas_used r))), RData (be_bytes 256 (unat (rc_log_bloom r))), RList (map LogEntry_item (rc_logs r))])"

lemma Receipt_outcome_reads:
  assumes "outcome_items oc @ ys = xs" "oc \<noteq> Unknown"
  shows "reads xs Receipt_outcome oc"
proof (cases oc)
  case (StateRoot root)
  let ?b = "be_bytes 32 (unat root)"
  have s: "small (RData ?b)" by (rule small_hash) simp
  have xs: "xs = RData ?b # ys" using assms StateRoot by (simp add: outcome_items_def)
  have l: "length (enc_data ?b) < usize_range" using small_usize [OF s] by simp
  show ?thesis
    unfolding Receipt_outcome_def
    by (rule reads_and_then [OF reads_at [of 0]])
      (use h256_c.decodes [OF TrueI s] view_data_enc [OF l] in
        \<open>simp_all add: xs as_val_def reads_and_then [OF reads_lift] reads_and_then [OF reads_ok] reads_ok StateRoot\<close>)
next
  case (StatusCode code)
  let ?b = "be_min (unat code)"
  have short: "length ?b \<le> 1" by (simp add: be_min_u8)
  have s: "small (RData ?b)" using short by (intro small_short) simp
  have xs: "xs = RData ?b # ys" using assms StatusCode by (simp add: outcome_items_def)
  have l: "length (enc_data ?b) < usize_range" using small_usize [OF s] by simp
  show ?thesis
    unfolding Receipt_outcome_def
    by (rule reads_and_then [OF reads_at [of 0]])
      (use u8_c.decodes [OF TrueI s] view_data_enc [OF l] short in
        \<open>simp_all add: xs as_val_def reads_and_then [OF reads_lift] reads_and_then [OF reads_ok] reads_ok StatusCode\<close>)
qed (use assms in simp)

lemma Receipt_append_struct:
  "Receipt_append r = impl_encodable
     ((case rc_outcome r of
         Unknown \<Rightarrow> []
       | StateRoot root \<Rightarrow> [append_item (hash_append root)]
       | StatusCode code \<Rightarrow> [append_item (u8_append code)])
      @ [append_item (uint_append (rc_gas_used r)), append_item (hash_append (rc_log_bloom r)), append_list LogEntry_append (rc_logs r)])"
  by (cases "rc_outcome r") (simp_all add: Receipt_append_def calls_defs)

interpretation Receipt_c: codec Receipt_append Receipt_decode Receipt_item "\<lambda>_. True"
proof
  fix r assume s: "small (Receipt_item r)"
  note s = s [unfolded Receipt_item_def]
  note fs = small_list_all [OF s, simplified]
  let ?xs = "outcome_items (rc_outcome r) @ [RData (be_min (unat (rc_gas_used r))), RData (be_bytes 256 (unat (rc_log_bloom r))),
    RList (map LogEntry_item (rc_logs r))]"
  have outcome: "list_all2 puts (case rc_outcome r of Unknown \<Rightarrow> [] | StateRoot root \<Rightarrow> [append_item (hash_append root)]
      | StatusCode code \<Rightarrow> [append_item (u8_append code)]) (map enc (outcome_items (rc_outcome r)))"
    using fs by (cases "rc_outcome r") (auto simp: outcome_items_def simp del: enc.simps intro!: codec_appends)
  have rest: "list_all2 puts [append_item (uint_append (rc_gas_used r)), append_item (hash_append (rc_log_bloom r)),
      append_list LogEntry_append (rc_logs r)] (map enc [RData (be_min (unat (rc_gas_used r))),
        RData (be_bytes 256 (unat (rc_log_bloom r))), RList (map LogEntry_item (rc_logs r))])"
    by (intro struct_appends codec_appends) (simp_all only: fs)
  show "puts (append_item (Receipt_append r)) (enc (Receipt_item r))"
    unfolding Receipt_append_struct Receipt_item_def
    by (rule puts_struct(1)) (simp_all only: map_append list_all2_appendI [OF outcome rest] s)
  have "reads ?xs Receipt_decode r"
  proof (cases "rc_outcome r = Unknown")
    case True
    then have xs: "outcome_items (rc_outcome r) = []" by (simp add: outcome_items_def)
    show ?thesis
      unfolding Receipt_decode_def xs append_Nil
      by (rule reads_and_then [OF reads_item_count], subst if_P, simp,
          (rule reads_and_then, rule codec_reads, simp, (rule nth_picks)+, simp only: fs)+)
        (rule reads_okI, simp add: True)
  next
    case False
    then obtain y where y: "outcome_items (rc_outcome r) = [y]" by (cases "rc_outcome r") (auto simp: outcome_items_def)
    have "reads (y # [RData (be_min (unat (rc_gas_used r))), RData (be_bytes 256 (unat (rc_log_bloom r))),
        RList (map LogEntry_item (rc_logs r))]) Receipt_outcome (rc_outcome r)"
      by (rule Receipt_outcome_reads [OF _ False]) (simp add: y)
    then show ?thesis
      unfolding Receipt_decode_def y append_Cons append_Nil
      by - (rule reads_and_then [OF reads_item_count], subst if_not_P, simp,
          (rule reads_and_then, rule codec_reads, simp, (rule nth_picks)+, simp only: fs)+,
          rule reads_and_then, assumption, rule reads_okI, simp)
  qed
  then show "fst (Receipt_decode (UntrustedRlp_new (enc (Receipt_item r)))) = Ok r"
    unfolding Receipt_item_def by (rule reads_decode) (rule s)
qed

section \<open>Properties\<close>

text \<open>
  C33: Receipts survive encoding: the encoding of a receipt with any outcome, gas, bloom and logs decodes to the same
  receipt.
\<close>

theorem receipt_roundtrip:
  assumes "small (Receipt_item r)"
  shows "\<exists>bs. encode (Receipt_append r) = Ok bs \<and> fst (as_val Receipt_decode (UntrustedRlp_new bs)) = Ok r"
  using Receipt_c.roundtrip [OF TrueI assms] by blast

definition sample_receipt :: Receipt where
  "sample_receipt = Receipt_new (\<lambda>bs. of_nat (be_nat bs)) (StatusCode 1) 21000 [\<lparr>le_address = 5, le_topics = [1, 2], le_data = [7]\<rparr>]"

theorem receipt_roundtrip_witness:
  "\<exists>bs. encode (Receipt_append sample_receipt) = Ok bs \<and> fst (as_val Receipt_decode (UntrustedRlp_new bs)) = Ok sample_receipt"
proof (rule receipt_roundtrip)
  show "small (Receipt_item sample_receipt)"
    by (rule small_bound) (simp add: sample_receipt_def Receipt_new_def Receipt_item_def outcome_items_def LogEntry_item_def be_min_pos)
qed

end
