(* ===== verification/Trace_Types.thy ===== *)
theory Trace_Types
  imports Chain_Types
begin

text \<open>
  The traces of executions and their encodings (\<open>trace.rs\<close>, \<open>error.rs\<close> and \<open>flat.rs\<close> of
  \<open>ethcore/src/trace/types\<close>).  The structures \<open>Call\<close>, \<open>Create\<close> and \<open>Suicide\<close> of the source carry the prefix \<open>Trace\<close>, because
  their names belong to constructors here.  The recursive structure \<open>VMTrace\<close> is left out.
\<close>

section \<open>Errors\<close>

datatype TraceError =
    TraceOutOfGas
  | TraceBadJumpDestination
  | TraceBadInstruction
  | TraceStackUnderflow
  | TraceOutOfStack
  | TraceBuiltIn
  | TraceInternal
  | TraceMutableCallInStaticContext
  | TraceWasm
  | TraceOutOfBounds
  | TraceReverted

fun TraceError_from :: "vm_error \<Rightarrow> TraceError" where
  "TraceError_from OutOfGas = TraceOutOfGas"
| "TraceError_from (BadJumpDestination _) = TraceBadJumpDestination"
| "TraceError_from (BadInstruction _) = TraceBadInstruction"
| "TraceError_from (StackUnderflow _ _ _) = TraceStackUnderflow"
| "TraceError_from (OutOfStack _ _ _) = TraceOutOfStack"
| "TraceError_from (BuiltIn _) = TraceBuiltIn"
| "TraceError_from (Wasm _) = TraceWasm"
| "TraceError_from (Internal _) = TraceInternal"
| "TraceError_from MutableCallInStaticContext = TraceMutableCallInStaticContext"
| "TraceError_from OutOfBounds = TraceOutOfBounds"
| "TraceError_from Reverted = TraceReverted"

fun TraceError_tag :: "TraceError \<Rightarrow> u8" where
  "TraceError_tag TraceOutOfGas = 0"
| "TraceError_tag TraceBadJumpDestination = 1"
| "TraceError_tag TraceBadInstruction = 2"
| "TraceError_tag TraceStackUnderflow = 3"
| "TraceError_tag TraceOutOfStack = 4"
| "TraceError_tag TraceInternal = 5"
| "TraceError_tag TraceBuiltIn = 6"
| "TraceError_tag TraceMutableCallInStaticContext = 7"
| "TraceError_tag TraceWasm = 8"
| "TraceError_tag TraceOutOfBounds = 9"
| "TraceError_tag TraceReverted = 10"

definition TraceError_append :: "TraceError \<Rightarrow> unit rlp_comp" where
  "TraceError_append e = append_internal (u8_append (TraceError_tag e))"

definition TraceError_decode :: "TraceError view" where
  "TraceError_decode = and_then (as_val u8_decode) (\<lambda>v.
     if v = 0 then ok TraceOutOfGas
     else if v = 1 then ok TraceBadJumpDestination
     else if v = 2 then ok TraceBadInstruction
     else if v = 3 then ok TraceStackUnderflow
     else if v = 4 then ok TraceOutOfStack
     else if v = 5 then ok TraceInternal
     else if v = 6 then ok TraceBuiltIn
     else if v = 7 then ok TraceMutableCallInStaticContext
     else if v = 8 then ok TraceWasm
     else if v = 9 then ok TraceOutOfBounds
     else if v = 10 then ok TraceReverted
     else fail (Custom ''Invalid error type''))"

section \<open>Actions and their results\<close>

record CallResult =
  cr_gas_used :: u256
  cr_output :: bytes

definition CallResult_append :: "CallResult \<Rightarrow> unit rlp_comp" where
  "CallResult_append v = impl_encodable
     [encodable_field uint_append (cr_gas_used v),
      encodable_field bytes_append (cr_output v)]"

definition CallResult_decode :: "CallResult view" where
  "CallResult_decode =
     and_then (decodable_field uint_decode 0) (\<lambda>gas_used.
     and_then (decodable_field bytes_decode 1) (\<lambda>output.
     ok \<lparr>cr_gas_used = gas_used, cr_output = output\<rparr>))"

record CreateResult =
  cre_gas_used :: u256
  cre_code :: bytes
  cre_address :: address

definition CreateResult_append :: "CreateResult \<Rightarrow> unit rlp_comp" where
  "CreateResult_append v = impl_encodable
     [encodable_field uint_append (cre_gas_used v),
      encodable_field bytes_append (cre_code v),
      encodable_field hash_append (cre_address v)]"

definition CreateResult_decode :: "CreateResult view" where
  "CreateResult_decode =
     and_then (decodable_field uint_decode 0) (\<lambda>gas_used.
     and_then (decodable_field bytes_decode 1) (\<lambda>code.
     and_then (decodable_field hash_decode 2) (\<lambda>address.
     ok \<lparr>cre_gas_used = gas_used, cre_code = code, cre_address = address\<rparr>)))"

definition CreateResult_bloom :: "(bytes \<Rightarrow> bloom) \<Rightarrow> CreateResult \<Rightarrow> bloom" where
  "CreateResult_bloom bloom_of r = bloom_of (be_bytes 20 (unat (cre_address r)))"

record TraceCall =
  tc_from :: address
  tc_to :: address
  tc_value :: u256
  tc_gas :: u256
  tc_input :: bytes
  tc_call_type :: CallType

definition TraceCall_append :: "TraceCall \<Rightarrow> unit rlp_comp" where
  "TraceCall_append v = impl_encodable
     [encodable_field hash_append (tc_from v),
      encodable_field hash_append (tc_to v),
      encodable_field uint_append (tc_value v),
      encodable_field uint_append (tc_gas v),
      encodable_field bytes_append (tc_input v),
      encodable_field CallType_append (tc_call_type v)]"

definition TraceCall_decode :: "TraceCall view" where
  "TraceCall_decode =
     and_then (decodable_field hash_decode 0) (\<lambda>from.
     and_then (decodable_field hash_decode 1) (\<lambda>to.
     and_then (decodable_field uint_decode 2) (\<lambda>value.
     and_then (decodable_field uint_decode 3) (\<lambda>gas.
     and_then (decodable_field bytes_decode 4) (\<lambda>input.
     and_then (decodable_field CallType_decode 5) (\<lambda>call_type.
     ok \<lparr>tc_from = from, tc_to = to, tc_value = value, tc_gas = gas, tc_input = input, tc_call_type = call_type\<rparr>))))))"

definition TraceCall_from :: "ActionParams \<Rightarrow> TraceCall" where
  "TraceCall_from p =
     (if ap_call_type p = DelegateCall then
        \<lparr>tc_from = ap_address p, tc_to = ap_code_address p, tc_value = action_value (ap_value p), tc_gas = ap_gas p,
         tc_input = (case ap_data p of Some d \<Rightarrow> d | None \<Rightarrow> []), tc_call_type = ap_call_type p\<rparr>
      else
        \<lparr>tc_from = ap_sender p, tc_to = ap_address p, tc_value = action_value (ap_value p), tc_gas = ap_gas p,
         tc_input = (case ap_data p of Some d \<Rightarrow> d | None \<Rightarrow> []), tc_call_type = ap_call_type p\<rparr>)"

definition TraceCall_bloom :: "(bytes \<Rightarrow> bloom) \<Rightarrow> TraceCall \<Rightarrow> bloom" where
  "TraceCall_bloom bloom_of c = or (or 0 (bloom_of (be_bytes 20 (unat (tc_from c))))) (bloom_of (be_bytes 20 (unat (tc_to c))))"

record TraceCreate =
  tcr_from :: address
  tcr_value :: u256
  tcr_gas :: u256
  tcr_init :: bytes

definition TraceCreate_append :: "TraceCreate \<Rightarrow> unit rlp_comp" where
  "TraceCreate_append v = impl_encodable
     [encodable_field hash_append (tcr_from v),
      encodable_field uint_append (tcr_value v),
      encodable_field uint_append (tcr_gas v),
      encodable_field bytes_append (tcr_init v)]"

definition TraceCreate_decode :: "TraceCreate view" where
  "TraceCreate_decode =
     and_then (decodable_field hash_decode 0) (\<lambda>from.
     and_then (decodable_field uint_decode 1) (\<lambda>value.
     and_then (decodable_field uint_decode 2) (\<lambda>gas.
     and_then (decodable_field bytes_decode 3) (\<lambda>init.
     ok \<lparr>tcr_from = from, tcr_value = value, tcr_gas = gas, tcr_init = init\<rparr>))))"

definition TraceCreate_from :: "ActionParams \<Rightarrow> TraceCreate" where
  "TraceCreate_from p =
     \<lparr>tcr_from = ap_sender p, tcr_value = action_value (ap_value p), tcr_gas = ap_gas p,
      tcr_init = (case ap_code p of Some c \<Rightarrow> c | None \<Rightarrow> [])\<rparr>"

definition TraceCreate_bloom :: "(bytes \<Rightarrow> bloom) \<Rightarrow> TraceCreate \<Rightarrow> bloom" where
  "TraceCreate_bloom bloom_of c = bloom_of (be_bytes 20 (unat (tcr_from c)))"

datatype RewardType = Reward_Block | Reward_Uncle

definition RewardType_append :: "RewardType \<Rightarrow> unit rlp_comp" where
  "RewardType_append t = u_append (case t of Reward_Block \<Rightarrow> 0 | Reward_Uncle \<Rightarrow> (1 :: 32 word))"

definition RewardType_decode :: "RewardType view" where
  "RewardType_decode = and_then (as_val u_decode) (\<lambda>v :: 32 word.
     if v = 0 then ok Reward_Block
     else if v = 1 then ok Reward_Uncle
     else fail (Custom ''Invalid value of RewardType item''))"

record Reward =
  rw_author :: address
  rw_value :: u256
  rw_reward_type :: RewardType

definition Reward_append :: "Reward \<Rightarrow> unit rlp_comp" where
  "Reward_append v = and_then (begin_list 3) (\<lambda>_.
     and_then (append_item (hash_append (rw_author v))) (\<lambda>_.
     and_then (append_item (uint_append (rw_value v))) (\<lambda>_.
     append_item (RewardType_append (rw_reward_type v)))))"

definition Reward_decode :: "Reward view" where
  "Reward_decode =
     and_then (val_at hash_decode 0) (\<lambda>author.
     and_then (val_at uint_decode 1) (\<lambda>value.
     and_then (val_at RewardType_decode 2) (\<lambda>reward_type.
     ok \<lparr>rw_author = author, rw_value = value, rw_reward_type = reward_type\<rparr>)))"

definition Reward_bloom :: "(bytes \<Rightarrow> bloom) \<Rightarrow> Reward \<Rightarrow> bloom" where
  "Reward_bloom bloom_of r = bloom_of (be_bytes 20 (unat (rw_author r)))"

record TraceSuicide =
  ts_address :: address
  ts_refund_address :: address
  ts_balance :: u256

definition TraceSuicide_append :: "TraceSuicide \<Rightarrow> unit rlp_comp" where
  "TraceSuicide_append v = impl_encodable
     [encodable_field hash_append (ts_address v),
      encodable_field hash_append (ts_refund_address v),
      encodable_field uint_append (ts_balance v)]"

definition TraceSuicide_decode :: "TraceSuicide view" where
  "TraceSuicide_decode =
     and_then (decodable_field hash_decode 0) (\<lambda>address.
     and_then (decodable_field hash_decode 1) (\<lambda>refund_address.
     and_then (decodable_field uint_decode 2) (\<lambda>balance.
     ok \<lparr>ts_address = address, ts_refund_address = refund_address, ts_balance = balance\<rparr>)))"

definition TraceSuicide_bloom :: "(bytes \<Rightarrow> bloom) \<Rightarrow> TraceSuicide \<Rightarrow> bloom" where
  "TraceSuicide_bloom bloom_of v =
     or (or 0 (bloom_of (be_bytes 20 (unat (ts_address v))))) (bloom_of (be_bytes 20 (unat (ts_refund_address v))))"

datatype TraceAction = Act_Call TraceCall | Act_Create TraceCreate | Act_Suicide TraceSuicide | Act_Reward Reward

definition TraceAction_append :: "TraceAction \<Rightarrow> unit rlp_comp" where
  "TraceAction_append a = and_then (begin_list 2) (\<lambda>_.
     case a of
       Act_Call c \<Rightarrow> and_then (append_item (u8_append 0)) (\<lambda>_. append_item (TraceCall_append c))
     | Act_Create c \<Rightarrow> and_then (append_item (u8_append 1)) (\<lambda>_. append_item (TraceCreate_append c))
     | Act_Suicide c \<Rightarrow> and_then (append_item (u8_append 2)) (\<lambda>_. append_item (TraceSuicide_append c))
     | Act_Reward c \<Rightarrow> and_then (append_item (u8_append 3)) (\<lambda>_. append_item (Reward_append c)))"

definition TraceAction_decode :: "TraceAction view" where
  "TraceAction_decode = and_then (val_at u8_decode 0) (\<lambda>action_type.
     if action_type = 0 then and_then (val_at TraceCall_decode 1) (\<lambda>c. ok (Act_Call c))
     else if action_type = 1 then and_then (val_at TraceCreate_decode 1) (\<lambda>c. ok (Act_Create c))
     else if action_type = 2 then and_then (val_at TraceSuicide_decode 1) (\<lambda>c. ok (Act_Suicide c))
     else if action_type = 3 then and_then (val_at Reward_decode 1) (\<lambda>c. ok (Act_Reward c))
     else fail (Custom ''Invalid action type.''))"

definition TraceAction_bloom :: "(bytes \<Rightarrow> bloom) \<Rightarrow> TraceAction \<Rightarrow> bloom" where
  "TraceAction_bloom bloom_of a =
     (case a of
        Act_Call c \<Rightarrow> TraceCall_bloom bloom_of c
      | Act_Create c \<Rightarrow> TraceCreate_bloom bloom_of c
      | Act_Suicide c \<Rightarrow> TraceSuicide_bloom bloom_of c
      | Act_Reward c \<Rightarrow> Reward_bloom bloom_of c)"

datatype Res = Res_Call CallResult | Res_Create CreateResult | Res_FailedCall TraceError | Res_FailedCreate TraceError | Res_None

definition Res_append :: "Res \<Rightarrow> unit rlp_comp" where
  "Res_append r =
     (case r of
        Res_Call c \<Rightarrow> and_then (begin_list 2) (\<lambda>_. and_then (append_item (u8_append 0)) (\<lambda>_. append_item (CallResult_append c)))
      | Res_Create c \<Rightarrow> and_then (begin_list 2) (\<lambda>_. and_then (append_item (u8_append 1)) (\<lambda>_. append_item (CreateResult_append c)))
      | Res_FailedCall e \<Rightarrow> and_then (begin_list 2) (\<lambda>_. and_then (append_item (u8_append 2)) (\<lambda>_. append_item (TraceError_append e)))
      | Res_FailedCreate e \<Rightarrow> and_then (begin_list 2) (\<lambda>_. and_then (append_item (u8_append 3)) (\<lambda>_. append_item (TraceError_append e)))
      | Res_None \<Rightarrow> and_then (begin_list 1) (\<lambda>_. append_item (u8_append 4)))"

definition Res_decode :: "Res view" where
  "Res_decode = and_then (val_at u8_decode 0) (\<lambda>action_type.
     if action_type = 0 then and_then (val_at CallResult_decode 1) (\<lambda>c. ok (Res_Call c))
     else if action_type = 1 then and_then (val_at CreateResult_decode 1) (\<lambda>c. ok (Res_Create c))
     else if action_type = 2 then and_then (val_at TraceError_decode 1) (\<lambda>e. ok (Res_FailedCall e))
     else if action_type = 3 then and_then (val_at TraceError_decode 1) (\<lambda>e. ok (Res_FailedCreate e))
     else if action_type = 4 then ok Res_None
     else fail (Custom ''Invalid result type.''))"

definition Res_bloom :: "(bytes \<Rightarrow> bloom) \<Rightarrow> Res \<Rightarrow> bloom" where
  "Res_bloom bloom_of r = (case r of Res_Create c \<Rightarrow> CreateResult_bloom bloom_of c | _ \<Rightarrow> 0)"

definition Res_succeeded :: "Res \<Rightarrow> bool" where
  "Res_succeeded r = (case r of Res_Call _ \<Rightarrow> True | Res_Create _ \<Rightarrow> True | _ \<Rightarrow> False)"

section \<open>Traces of the virtual machine\<close>

record MemoryDiff =
  md_offset :: nat
  md_data :: bytes

definition MemoryDiff_append :: "MemoryDiff \<Rightarrow> unit rlp_comp" where
  "MemoryDiff_append v = impl_encodable
     [encodable_field usize_append (md_offset v),
      encodable_field bytes_append (md_data v)]"

definition MemoryDiff_decode :: "MemoryDiff view" where
  "MemoryDiff_decode =
     and_then (decodable_field usize_decode 0) (\<lambda>offset.
     and_then (decodable_field bytes_decode 1) (\<lambda>data.
     ok \<lparr>md_offset = offset, md_data = data\<rparr>))"

record StorageDiff =
  sd_location :: u256
  sd_value :: u256

definition StorageDiff_append :: "StorageDiff \<Rightarrow> unit rlp_comp" where
  "StorageDiff_append v = impl_encodable
     [encodable_field uint_append (sd_location v),
      encodable_field uint_append (sd_value v)]"

definition StorageDiff_decode :: "StorageDiff view" where
  "StorageDiff_decode =
     and_then (decodable_field uint_decode 0) (\<lambda>location.
     and_then (decodable_field uint_decode 1) (\<lambda>value.
     ok \<lparr>sd_location = location, sd_value = value\<rparr>))"

record VMExecutedOperation =
  veo_gas_used :: u256
  veo_stack_push :: "u256 list"
  veo_mem_diff :: "MemoryDiff option"
  veo_store_diff :: "StorageDiff option"

definition VMExecutedOperation_append :: "VMExecutedOperation \<Rightarrow> unit rlp_comp" where
  "VMExecutedOperation_append v = impl_encodable
     [encodable_field uint_append (veo_gas_used v),
      encodable_vec_field uint_append (veo_stack_push v),
      encodable_field (option_append MemoryDiff_append) (veo_mem_diff v),
      encodable_field (option_append StorageDiff_append) (veo_store_diff v)]"

definition VMExecutedOperation_decode :: "VMExecutedOperation view" where
  "VMExecutedOperation_decode =
     and_then (decodable_field uint_decode 0) (\<lambda>gas_used.
     and_then (decodable_vec_field uint_decode 1) (\<lambda>stack_push.
     and_then (decodable_field (option_decode MemoryDiff_decode) 2) (\<lambda>mem_diff.
     and_then (decodable_field (option_decode StorageDiff_decode) 3) (\<lambda>store_diff.
     ok \<lparr>veo_gas_used = gas_used, veo_stack_push = stack_push, veo_mem_diff = mem_diff, veo_store_diff = store_diff\<rparr>))))"

record VMOperation =
  vo_pc :: nat
  vo_instruction :: u8
  vo_gas_cost :: u256
  vo_executed :: "VMExecutedOperation option"

definition VMOperation_append :: "VMOperation \<Rightarrow> unit rlp_comp" where
  "VMOperation_append v = impl_encodable
     [encodable_field usize_append (vo_pc v),
      encodable_field u8_append (vo_instruction v),
      encodable_field uint_append (vo_gas_cost v),
      encodable_field (option_append VMExecutedOperation_append) (vo_executed v)]"

definition VMOperation_decode :: "VMOperation view" where
  "VMOperation_decode =
     and_then (decodable_field usize_decode 0) (\<lambda>pc.
     and_then (decodable_field u8_decode 1) (\<lambda>instruction.
     and_then (decodable_field uint_decode 2) (\<lambda>gas_cost.
     and_then (decodable_field (option_decode VMExecutedOperation_decode) 3) (\<lambda>executed.
     ok \<lparr>vo_pc = pc, vo_instruction = instruction, vo_gas_cost = gas_cost, vo_executed = executed\<rparr>))))"

section \<open>Flat traces\<close>

record FlatTrace =
  ft_action :: TraceAction
  ft_result :: Res
  ft_subtraces :: nat
  ft_trace_address :: "nat list"

definition FlatTrace_bloom :: "(bytes \<Rightarrow> bloom) \<Rightarrow> FlatTrace \<Rightarrow> bloom" where
  "FlatTrace_bloom bloom_of t = or (TraceAction_bloom bloom_of (ft_action t)) (Res_bloom bloom_of (ft_result t))"

definition FlatTrace_append :: "FlatTrace \<Rightarrow> unit rlp_comp" where
  "FlatTrace_append t = and_then (begin_list 4) (\<lambda>_.
     and_then (append_item (TraceAction_append (ft_action t))) (\<lambda>_.
     and_then (append_item (Res_append (ft_result t))) (\<lambda>_.
     and_then (append_item (usize_append (ft_subtraces t))) (\<lambda>_.
     append_list usize_append (ft_trace_address t)))))"

definition FlatTrace_decode :: "FlatTrace view" where
  "FlatTrace_decode =
     and_then (list_at usize_decode 3) (\<lambda>v.
     and_then (val_at TraceAction_decode 0) (\<lambda>action.
     and_then (val_at Res_decode 1) (\<lambda>result.
     and_then (val_at usize_decode 2) (\<lambda>subtraces.
     ok \<lparr>ft_action = action, ft_result = result, ft_subtraces = subtraces, ft_trace_address = v\<rparr>))))"

text \<open>The wrappers around the traces of a transaction and of a block.\<close>

definition FlatTransactionTraces_append :: "FlatTrace list \<Rightarrow> unit rlp_comp" where
  "FlatTransactionTraces_append ts = encodable_vec_field FlatTrace_append ts"

definition FlatTransactionTraces_decode :: "FlatTrace list view" where
  "FlatTransactionTraces_decode = as_list FlatTrace_decode"

definition FlatTransactionTraces_bloom :: "(bytes \<Rightarrow> bloom) \<Rightarrow> FlatTrace list \<Rightarrow> bloom" where
  "FlatTransactionTraces_bloom bloom_of ts = foldl (\<lambda>b t. or b (FlatTrace_bloom bloom_of t)) 0 ts"

definition FlatBlockTraces_append :: "FlatTrace list list \<Rightarrow> unit rlp_comp" where
  "FlatBlockTraces_append bs = encodable_vec_field FlatTransactionTraces_append bs"

definition FlatBlockTraces_decode :: "FlatTrace list list view" where
  "FlatBlockTraces_decode = as_list FlatTransactionTraces_decode"

definition FlatBlockTraces_bloom :: "(bytes \<Rightarrow> bloom) \<Rightarrow> FlatTrace list list \<Rightarrow> bloom" where
  "FlatBlockTraces_bloom bloom_of bs = foldl (\<lambda>b t. or b (FlatTransactionTraces_bloom bloom_of t)) 0 bs"

section \<open>Codecs\<close>

lemmas [codec_appends] = CallType_c.appends [OF TrueI]
lemmas [codec_reads] = CallType_c.reads_field [OF _ _ TrueI]

lemma u8_tag:
  assumes "small (RData (be_min (unat v)))" "f v = ok t"
  shows "fst (and_then (as_val u8_decode) f (UntrustedRlp_new (enc (RData (be_min (unat v)))))) = Ok t"
  using u8_c.decodes [OF TrueI assms(1)] assms(2)
  by (cases "u8_decode (UntrustedRlp_new (enc (RData (be_min (unat v)))))") (simp add: as_val_def and_then_def ok_def)

definition TraceError_item :: "TraceError \<Rightarrow> rlp_item" where
  "TraceError_item e = RData (be_min (unat (TraceError_tag e)))"

interpretation TraceError_c: codec TraceError_append TraceError_decode TraceError_item "\<lambda>_. True"
proof
  fix e assume s: "small (TraceError_item e)"
  show "puts (append_item (TraceError_append e)) (enc (TraceError_item e))"
    using u8_c.appends [OF TrueI] s unfolding TraceError_append_def append_internal_def TraceError_item_def by blast
  show "fst (TraceError_decode (UntrustedRlp_new (enc (TraceError_item e)))) = Ok e"
    unfolding TraceError_decode_def TraceError_item_def
    by (rule u8_tag [OF s [unfolded TraceError_item_def]]) (cases e; simp)
qed

lemmas [codec_appends] = TraceError_c.appends [OF TrueI]
lemmas [codec_reads] = TraceError_c.reads_field [OF _ _ TrueI]

definition CallResult_item :: "CallResult \<Rightarrow> rlp_item" where
  "CallResult_item v = RList
     [RData (be_min (unat (cr_gas_used v))),
      RData (cr_output v)]"

interpretation CallResult_c: codec CallResult_append CallResult_decode CallResult_item "\<lambda>_. True"
proof
  fix v assume s: "small (CallResult_item v)"
  note s = s [unfolded CallResult_item_def]
  note fs = small_list_all [OF s, simplified]
  show "puts (append_item (CallResult_append v)) (enc (CallResult_item v))"
    unfolding CallResult_append_def CallResult_item_def field_defs
    by (rule puts_struct(1), intro struct_appends codec_appends) (simp_all only: s fs)
  show "fst (CallResult_decode (UntrustedRlp_new (enc (CallResult_item v)))) = Ok v"
    unfolding CallResult_decode_def CallResult_item_def field_defs
    by (rule reads_decode, (rule reads_and_then, rule codec_reads, simp, (rule nth_picks)+, (simp only: fs)+)+)
      (rule reads_okI, simp, rule s)
qed

lemmas [codec_appends] = CallResult_c.appends [OF TrueI] CallResult_c.list_appends(1) [OF list_all_True]
lemmas [codec_reads] = CallResult_c.reads_field [OF _ _ TrueI] CallResult_c.reads_vec_field [OF _ _ list_all_True]

definition CreateResult_item :: "CreateResult \<Rightarrow> rlp_item" where
  "CreateResult_item v = RList
     [RData (be_min (unat (cre_gas_used v))),
      RData (cre_code v),
      RData (be_bytes 20 (unat (cre_address v)))]"

interpretation CreateResult_c: codec CreateResult_append CreateResult_decode CreateResult_item "\<lambda>_. True"
proof
  fix v assume s: "small (CreateResult_item v)"
  note s = s [unfolded CreateResult_item_def]
  note fs = small_list_all [OF s, simplified]
  show "puts (append_item (CreateResult_append v)) (enc (CreateResult_item v))"
    unfolding CreateResult_append_def CreateResult_item_def field_defs
    by (rule puts_struct(1), intro struct_appends codec_appends) (simp_all only: s fs)
  show "fst (CreateResult_decode (UntrustedRlp_new (enc (CreateResult_item v)))) = Ok v"
    unfolding CreateResult_decode_def CreateResult_item_def field_defs
    by (rule reads_decode, (rule reads_and_then, rule codec_reads, simp, (rule nth_picks)+, (simp only: fs)+)+)
      (rule reads_okI, simp, rule s)
qed

lemmas [codec_appends] = CreateResult_c.appends [OF TrueI] CreateResult_c.list_appends(1) [OF list_all_True]
lemmas [codec_reads] = CreateResult_c.reads_field [OF _ _ TrueI] CreateResult_c.reads_vec_field [OF _ _ list_all_True]

definition TraceCall_item :: "TraceCall \<Rightarrow> rlp_item" where
  "TraceCall_item v = RList
     [RData (be_bytes 20 (unat (tc_from v))),
      RData (be_bytes 20 (unat (tc_to v))),
      RData (be_min (unat (tc_value v))),
      RData (be_min (unat (tc_gas v))),
      RData (tc_input v),
      CallType_item (tc_call_type v)]"

interpretation TraceCall_c: codec TraceCall_append TraceCall_decode TraceCall_item "\<lambda>_. True"
proof
  fix v assume s: "small (TraceCall_item v)"
  note s = s [unfolded TraceCall_item_def]
  note fs = small_list_all [OF s, simplified]
  show "puts (append_item (TraceCall_append v)) (enc (TraceCall_item v))"
    unfolding TraceCall_append_def TraceCall_item_def field_defs
    by (rule puts_struct(1), intro struct_appends codec_appends) (simp_all only: s fs)
  show "fst (TraceCall_decode (UntrustedRlp_new (enc (TraceCall_item v)))) = Ok v"
    unfolding TraceCall_decode_def TraceCall_item_def field_defs
    by (rule reads_decode, (rule reads_and_then, rule codec_reads, simp, (rule nth_picks)+, (simp only: fs)+)+)
      (rule reads_okI, simp, rule s)
qed

lemmas [codec_appends] = TraceCall_c.appends [OF TrueI] TraceCall_c.list_appends(1) [OF list_all_True]
lemmas [codec_reads] = TraceCall_c.reads_field [OF _ _ TrueI] TraceCall_c.reads_vec_field [OF _ _ list_all_True]

definition TraceCreate_item :: "TraceCreate \<Rightarrow> rlp_item" where
  "TraceCreate_item v = RList
     [RData (be_bytes 20 (unat (tcr_from v))),
      RData (be_min (unat (tcr_value v))),
      RData (be_min (unat (tcr_gas v))),
      RData (tcr_init v)]"

interpretation TraceCreate_c: codec TraceCreate_append TraceCreate_decode TraceCreate_item "\<lambda>_. True"
proof
  fix v assume s: "small (TraceCreate_item v)"
  note s = s [unfolded TraceCreate_item_def]
  note fs = small_list_all [OF s, simplified]
  show "puts (append_item (TraceCreate_append v)) (enc (TraceCreate_item v))"
    unfolding TraceCreate_append_def TraceCreate_item_def field_defs
    by (rule puts_struct(1), intro struct_appends codec_appends) (simp_all only: s fs)
  show "fst (TraceCreate_decode (UntrustedRlp_new (enc (TraceCreate_item v)))) = Ok v"
    unfolding TraceCreate_decode_def TraceCreate_item_def field_defs
    by (rule reads_decode, (rule reads_and_then, rule codec_reads, simp, (rule nth_picks)+, (simp only: fs)+)+)
      (rule reads_okI, simp, rule s)
qed

lemmas [codec_appends] = TraceCreate_c.appends [OF TrueI] TraceCreate_c.list_appends(1) [OF list_all_True]
lemmas [codec_reads] = TraceCreate_c.reads_field [OF _ _ TrueI] TraceCreate_c.reads_vec_field [OF _ _ list_all_True]

definition RewardType_item :: "RewardType \<Rightarrow> rlp_item" where
  "RewardType_item t = RData (be_min (unat (case t of Reward_Block \<Rightarrow> 0 | Reward_Uncle \<Rightarrow> (1 :: 32 word))))"

interpretation RewardType_c: codec RewardType_append RewardType_decode RewardType_item "\<lambda>_. True"
proof
  fix t assume s: "small (RewardType_item t)"
  show "puts (append_item (RewardType_append t)) (enc (RewardType_item t))"
    using u32_c.appends [OF TrueI] s unfolding RewardType_append_def RewardType_item_def by blast
  show "fst (RewardType_decode (UntrustedRlp_new (enc (RewardType_item t)))) = Ok t"
    unfolding RewardType_decode_def RewardType_item_def
    by (rule u32_tag [OF s [unfolded RewardType_item_def]]) (cases t; simp)
qed

lemmas [codec_appends] = RewardType_c.appends [OF TrueI]
lemmas [codec_reads] = RewardType_c.reads_field [OF _ _ TrueI]

definition Reward_item :: "Reward \<Rightarrow> rlp_item" where
  "Reward_item v = RList
     [RData (be_bytes 20 (unat (rw_author v))),
      RData (be_min (unat (rw_value v))),
      RewardType_item (rw_reward_type v)]"

lemma Reward_append_struct:
  "Reward_append v = impl_encodable
     [append_item (hash_append (rw_author v)), append_item (uint_append (rw_value v)), append_item (RewardType_append (rw_reward_type v))]"
  by (simp add: Reward_append_def calls_defs)

interpretation Reward_c: codec Reward_append Reward_decode Reward_item "\<lambda>_. True"
proof
  fix v assume s: "small (Reward_item v)"
  note s = s [unfolded Reward_item_def]
  note fs = small_list_all [OF s, simplified]
  show "puts (append_item (Reward_append v)) (enc (Reward_item v))"
    unfolding Reward_append_struct Reward_item_def field_defs
    by (rule puts_struct(1), intro struct_appends codec_appends) (simp_all only: s fs)
  show "fst (Reward_decode (UntrustedRlp_new (enc (Reward_item v)))) = Ok v"
    unfolding Reward_decode_def Reward_item_def field_defs
    by (rule reads_decode, (rule reads_and_then, rule codec_reads, simp, (rule nth_picks)+, (simp only: fs)+)+)
      (rule reads_okI, simp, rule s)
qed

lemmas [codec_appends] = Reward_c.appends [OF TrueI] Reward_c.list_appends(1) [OF list_all_True]
lemmas [codec_reads] = Reward_c.reads_field [OF _ _ TrueI] Reward_c.reads_vec_field [OF _ _ list_all_True]

definition TraceSuicide_item :: "TraceSuicide \<Rightarrow> rlp_item" where
  "TraceSuicide_item v = RList
     [RData (be_bytes 20 (unat (ts_address v))),
      RData (be_bytes 20 (unat (ts_refund_address v))),
      RData (be_min (unat (ts_balance v)))]"

interpretation TraceSuicide_c: codec TraceSuicide_append TraceSuicide_decode TraceSuicide_item "\<lambda>_. True"
proof
  fix v assume s: "small (TraceSuicide_item v)"
  note s = s [unfolded TraceSuicide_item_def]
  note fs = small_list_all [OF s, simplified]
  show "puts (append_item (TraceSuicide_append v)) (enc (TraceSuicide_item v))"
    unfolding TraceSuicide_append_def TraceSuicide_item_def field_defs
    by (rule puts_struct(1), intro struct_appends codec_appends) (simp_all only: s fs)
  show "fst (TraceSuicide_decode (UntrustedRlp_new (enc (TraceSuicide_item v)))) = Ok v"
    unfolding TraceSuicide_decode_def TraceSuicide_item_def field_defs
    by (rule reads_decode, (rule reads_and_then, rule codec_reads, simp, (rule nth_picks)+, (simp only: fs)+)+)
      (rule reads_okI, simp, rule s)
qed

lemmas [codec_appends] = TraceSuicide_c.appends [OF TrueI] TraceSuicide_c.list_appends(1) [OF list_all_True]
lemmas [codec_reads] = TraceSuicide_c.reads_field [OF _ _ TrueI] TraceSuicide_c.reads_vec_field [OF _ _ list_all_True]

fun TraceAction_item :: "TraceAction \<Rightarrow> rlp_item" where
  "TraceAction_item (Act_Call c) = RList [RData (be_min (unat (0 :: u8))), TraceCall_item c]"
| "TraceAction_item (Act_Create c) = RList [RData (be_min (unat (1 :: u8))), TraceCreate_item c]"
| "TraceAction_item (Act_Suicide c) = RList [RData (be_min (unat (2 :: u8))), TraceSuicide_item c]"
| "TraceAction_item (Act_Reward c) = RList [RData (be_min (unat (3 :: u8))), Reward_item c]"

text \<open>A list of a tag and a value.\<close>

lemma puts_tagged:
  assumes "small (RList [RData (be_min (unat k)), x])" "small x \<Longrightarrow> puts m (enc x)"
  shows "puts (append_item (and_then (begin_list 2) (\<lambda>_. and_then (append_item (u8_append k)) (\<lambda>_. m)))) (enc (RList [RData (be_min (unat k)), x]))"
proof -
  have fs: "small (RData (be_min (unat k)))" "small x" using small_list_all [OF assms(1)] by simp_all
  have "puts (append_item (impl_encodable [append_item (u8_append k), m])) (enc (RList [RData (be_min (unat k)), x]))"
    by (rule puts_struct(1), intro struct_appends codec_appends) (simp_all only: assms fs)
  then show ?thesis by (simp add: calls_defs)
qed

lemma tagged_decodes:
  assumes "small (RList [RData (be_min (unat k)), x])" "f k = and_then (val_at d 1) (\<lambda>c. ok (g c))"
    and "small x \<Longrightarrow> fst (d (UntrustedRlp_new (enc x))) = Ok c"
  shows "fst (and_then (val_at u8_decode 0) f (UntrustedRlp_new (enc (RList [RData (be_min (unat k)), x])))) = Ok (g c)"
proof (rule reads_decode [OF _ assms(1)], rule reads_and_then)
  have fs: "small (RData (be_min (unat k)))" "small x" using small_list_all [OF assms(1)] by simp_all
  show "reads [RData (be_min (unat k)), x] (val_at u8_decode 0) k"
    by (rule codec_reads, simp, (rule nth_picks)+, rule fs)
  show "reads [RData (be_min (unat k)), x] (f k) (g c)"
    unfolding assms(2) by (rule reads_and_then [OF reads_val_at [where v = c] reads_ok]) (use assms(3) fs in simp_all)
qed

interpretation TraceAction_c: codec TraceAction_append TraceAction_decode TraceAction_item "\<lambda>_. True"
proof
  fix a assume s: "small (TraceAction_item a)"
  show "puts (append_item (TraceAction_append a)) (enc (TraceAction_item a))"
    using s unfolding TraceAction_append_def
    by (cases a; simp only: TraceAction.case TraceAction_item.simps) (rule puts_tagged, assumption, erule codec_appends)+
  show "fst (TraceAction_decode (UntrustedRlp_new (enc (TraceAction_item a)))) = Ok a"
    using s unfolding TraceAction_decode_def
    by (cases a; simp only: TraceAction_item.simps)
      (erule tagged_decodes, simp del: One_nat_def,
        erule TraceCall_c.decodes [OF TrueI] TraceCreate_c.decodes [OF TrueI] TraceSuicide_c.decodes [OF TrueI] Reward_c.decodes [OF TrueI])+
qed

lemmas [codec_appends] = TraceAction_c.appends [OF TrueI]
lemmas [codec_reads] = TraceAction_c.reads_field [OF _ _ TrueI]

fun Res_item :: "Res \<Rightarrow> rlp_item" where
  "Res_item (Res_Call c) = RList [RData (be_min (unat (0 :: u8))), CallResult_item c]"
| "Res_item (Res_Create c) = RList [RData (be_min (unat (1 :: u8))), CreateResult_item c]"
| "Res_item (Res_FailedCall e) = RList [RData (be_min (unat (2 :: u8))), TraceError_item e]"
| "Res_item (Res_FailedCreate e) = RList [RData (be_min (unat (3 :: u8))), TraceError_item e]"
| "Res_item Res_None = RList [RData (be_min (unat (4 :: u8)))]"

interpretation Res_c: codec Res_append Res_decode Res_item "\<lambda>_. True"
proof
  fix r assume s: "small (Res_item r)"
  show "puts (append_item (Res_append r)) (enc (Res_item r))"
  proof (cases "r = Res_None")
    case True
    note s = s [unfolded True Res_item.simps]
    have "puts (append_item (impl_encodable [append_item (u8_append 4)])) (enc (RList [RData (be_min (unat (4 :: u8)))]))"
      by (rule puts_struct(1), intro struct_appends codec_appends) (use s small_list_all [OF s] in simp_all)
    then show ?thesis by (simp add: True Res_append_def calls_defs)
  next
    case False
    with s show ?thesis
      unfolding Res_append_def
      by (cases r; simp only: Res.case Res_item.simps simp_thms) (rule puts_tagged, assumption, erule codec_appends)+
  qed
  show "fst (Res_decode (UntrustedRlp_new (enc (Res_item r)))) = Ok r"
  proof (cases "r = Res_None")
    case True
    note s = s [unfolded True Res_item.simps]
    have "reads [RData (be_min (unat (4 :: u8)))] Res_decode Res_None"
      unfolding Res_decode_def
      by (rule reads_and_then, rule u8_c.reads_field [where v = 4])
        (use small_list_all [OF s] in \<open>simp_all add: reads_ok\<close>)
    from reads_decode [OF this s] show ?thesis by (simp add: True)
  next
    case False
    with s show ?thesis
      unfolding Res_decode_def
      by (cases r; simp only: Res_item.simps simp_thms)
        (erule tagged_decodes, simp del: One_nat_def,
          erule CallResult_c.decodes [OF TrueI] CreateResult_c.decodes [OF TrueI] TraceError_c.decodes [OF TrueI])+
  qed
qed

lemmas [codec_appends] = Res_c.appends [OF TrueI]
lemmas [codec_reads] = Res_c.reads_field [OF _ _ TrueI]

definition MemoryDiff_valid :: "MemoryDiff \<Rightarrow> bool" where
  "MemoryDiff_valid v \<longleftrightarrow> md_offset v < usize_range"

definition MemoryDiff_item :: "MemoryDiff \<Rightarrow> rlp_item" where
  "MemoryDiff_item v = RList
     [RData (be_min (md_offset v)),
      RData (md_data v)]"

interpretation MemoryDiff_c: codec MemoryDiff_append MemoryDiff_decode MemoryDiff_item MemoryDiff_valid
proof
  fix v assume v: "MemoryDiff_valid v" and s: "small (MemoryDiff_item v)"
  note vs = v [unfolded MemoryDiff_valid_def]
  note s = s [unfolded MemoryDiff_item_def]
  note fs = small_list_all [OF s, simplified]
  show "puts (append_item (MemoryDiff_append v)) (enc (MemoryDiff_item v))"
    unfolding MemoryDiff_append_def MemoryDiff_item_def field_defs
    by (rule puts_struct(1), intro struct_appends codec_appends) (simp_all only: s fs vs)
  show "fst (MemoryDiff_decode (UntrustedRlp_new (enc (MemoryDiff_item v)))) = Ok v"
    unfolding MemoryDiff_decode_def MemoryDiff_item_def field_defs
    by (rule reads_decode, (rule reads_and_then, rule codec_reads, simp, (rule nth_picks)+, (simp only: fs vs)+)+)
      (rule reads_okI, simp, rule s)
qed

lemmas [codec_appends] = MemoryDiff_c.appends MemoryDiff_c.list_appends(1)
lemmas [codec_reads] = MemoryDiff_c.reads_field MemoryDiff_c.reads_vec_field

definition StorageDiff_item :: "StorageDiff \<Rightarrow> rlp_item" where
  "StorageDiff_item v = RList
     [RData (be_min (unat (sd_location v))),
      RData (be_min (unat (sd_value v)))]"

interpretation StorageDiff_c: codec StorageDiff_append StorageDiff_decode StorageDiff_item "\<lambda>_. True"
proof
  fix v assume s: "small (StorageDiff_item v)"
  note s = s [unfolded StorageDiff_item_def]
  note fs = small_list_all [OF s, simplified]
  show "puts (append_item (StorageDiff_append v)) (enc (StorageDiff_item v))"
    unfolding StorageDiff_append_def StorageDiff_item_def field_defs
    by (rule puts_struct(1), intro struct_appends codec_appends) (simp_all only: s fs)
  show "fst (StorageDiff_decode (UntrustedRlp_new (enc (StorageDiff_item v)))) = Ok v"
    unfolding StorageDiff_decode_def StorageDiff_item_def field_defs
    by (rule reads_decode, (rule reads_and_then, rule codec_reads, simp, (rule nth_picks)+, (simp only: fs)+)+)
      (rule reads_okI, simp, rule s)
qed

lemmas [codec_appends] = StorageDiff_c.appends [OF TrueI] StorageDiff_c.list_appends(1) [OF list_all_True]
lemmas [codec_reads] = StorageDiff_c.reads_field [OF _ _ TrueI] StorageDiff_c.reads_vec_field [OF _ _ list_all_True]

interpretation MemoryDiff_option: codec "option_append MemoryDiff_append" "option_decode MemoryDiff_decode"
    "\<lambda>v. RList (case v of None \<Rightarrow> [] | Some v \<Rightarrow> [MemoryDiff_item v])" "pred_option MemoryDiff_valid"
  by (rule MemoryDiff_c.option_codec)

interpretation StorageDiff_option: codec "option_append StorageDiff_append" "option_decode StorageDiff_decode"
    "\<lambda>v. RList (case v of None \<Rightarrow> [] | Some v \<Rightarrow> [StorageDiff_item v])" "pred_option (\<lambda>_. True)"
  by (rule StorageDiff_c.option_codec)

lemma pred_option_True: "pred_option (\<lambda>_. True) v"
  by (cases v) simp_all

lemmas [codec_appends] = MemoryDiff_option.appends StorageDiff_option.appends [OF pred_option_True]
lemmas [codec_reads] = MemoryDiff_option.reads_field StorageDiff_option.reads_field [OF _ _ pred_option_True]

definition VMExecutedOperation_valid :: "VMExecutedOperation \<Rightarrow> bool" where
  "VMExecutedOperation_valid v \<longleftrightarrow> pred_option MemoryDiff_valid (veo_mem_diff v)"

definition VMExecutedOperation_item :: "VMExecutedOperation \<Rightarrow> rlp_item" where
  "VMExecutedOperation_item v = RList
     [RData (be_min (unat (veo_gas_used v))),
      RList (map (\<lambda>v. RData (be_min (unat v))) (veo_stack_push v)),
      RList (case veo_mem_diff v of None \<Rightarrow> [] | Some v \<Rightarrow> [MemoryDiff_item (v)]),
      RList (case veo_store_diff v of None \<Rightarrow> [] | Some v \<Rightarrow> [StorageDiff_item (v)])]"

interpretation VMExecutedOperation_c: codec VMExecutedOperation_append VMExecutedOperation_decode VMExecutedOperation_item VMExecutedOperation_valid
proof
  fix v assume v: "VMExecutedOperation_valid v" and s: "small (VMExecutedOperation_item v)"
  note vs = v [unfolded VMExecutedOperation_valid_def]
  note s = s [unfolded VMExecutedOperation_item_def]
  note fs = small_list_all [OF s, simplified]
  show "puts (append_item (VMExecutedOperation_append v)) (enc (VMExecutedOperation_item v))"
    unfolding VMExecutedOperation_append_def VMExecutedOperation_item_def field_defs
    by (rule puts_struct(1), intro struct_appends codec_appends) (simp_all only: s fs vs)
  show "fst (VMExecutedOperation_decode (UntrustedRlp_new (enc (VMExecutedOperation_item v)))) = Ok v"
    unfolding VMExecutedOperation_decode_def VMExecutedOperation_item_def field_defs
    by (rule reads_decode, (rule reads_and_then, rule codec_reads, simp, (rule nth_picks)+, (simp only: fs vs)+)+)
      (rule reads_okI, simp, rule s)
qed

lemmas [codec_appends] = VMExecutedOperation_c.appends VMExecutedOperation_c.list_appends(1)
lemmas [codec_reads] = VMExecutedOperation_c.reads_field VMExecutedOperation_c.reads_vec_field

interpretation VMExecutedOperation_option: codec "option_append VMExecutedOperation_append" "option_decode VMExecutedOperation_decode"
    "\<lambda>v. RList (case v of None \<Rightarrow> [] | Some v \<Rightarrow> [VMExecutedOperation_item v])" "pred_option VMExecutedOperation_valid"
  by (rule VMExecutedOperation_c.option_codec)

lemmas [codec_appends] = VMExecutedOperation_option.appends
lemmas [codec_reads] = VMExecutedOperation_option.reads_field

definition VMOperation_valid :: "VMOperation \<Rightarrow> bool" where
  "VMOperation_valid v \<longleftrightarrow> vo_pc v < usize_range \<and> pred_option VMExecutedOperation_valid (vo_executed v)"

definition VMOperation_item :: "VMOperation \<Rightarrow> rlp_item" where
  "VMOperation_item v = RList
     [RData (be_min (vo_pc v)),
      RData (be_min (unat (vo_instruction v))),
      RData (be_min (unat (vo_gas_cost v))),
      RList (case vo_executed v of None \<Rightarrow> [] | Some v \<Rightarrow> [VMExecutedOperation_item (v)])]"

interpretation VMOperation_c: codec VMOperation_append VMOperation_decode VMOperation_item VMOperation_valid
proof
  fix v assume v: "VMOperation_valid v" and s: "small (VMOperation_item v)"
  note vs = v [unfolded VMOperation_valid_def]
  note s = s [unfolded VMOperation_item_def]
  note fs = small_list_all [OF s, simplified]
  show "puts (append_item (VMOperation_append v)) (enc (VMOperation_item v))"
    unfolding VMOperation_append_def VMOperation_item_def field_defs
    by (rule puts_struct(1), intro struct_appends codec_appends) (simp_all only: s fs vs)
  show "fst (VMOperation_decode (UntrustedRlp_new (enc (VMOperation_item v)))) = Ok v"
    unfolding VMOperation_decode_def VMOperation_item_def field_defs
    by (rule reads_decode, (rule reads_and_then, rule codec_reads, simp, (rule nth_picks)+, (simp only: fs vs)+)+)
      (rule reads_okI, simp, rule s)
qed

lemmas [codec_appends] = VMOperation_c.appends VMOperation_c.list_appends(1)
lemmas [codec_reads] = VMOperation_c.reads_field VMOperation_c.reads_vec_field

definition FlatTrace_valid :: "FlatTrace \<Rightarrow> bool" where
  "FlatTrace_valid v \<longleftrightarrow> ft_subtraces v < usize_range \<and> list_all (\<lambda>n. n < usize_range) (ft_trace_address v)"

definition FlatTrace_item :: "FlatTrace \<Rightarrow> rlp_item" where
  "FlatTrace_item v = RList
     [TraceAction_item (ft_action v), Res_item (ft_result v), RData (be_min (ft_subtraces v)),
      RList (map (\<lambda>n. RData (be_min n)) (ft_trace_address v))]"

lemma FlatTrace_append_struct:
  "FlatTrace_append t = impl_encodable
     [append_item (TraceAction_append (ft_action t)), append_item (Res_append (ft_result t)),
      append_item (usize_append (ft_subtraces t)), append_list usize_append (ft_trace_address t)]"
  by (simp add: FlatTrace_append_def calls_defs)

interpretation FlatTrace_c: codec FlatTrace_append FlatTrace_decode FlatTrace_item FlatTrace_valid
proof
  fix v assume v: "FlatTrace_valid v" and s: "small (FlatTrace_item v)"
  note vs = v [unfolded FlatTrace_valid_def]
  note s = s [unfolded FlatTrace_item_def]
  note fs = small_list_all [OF s, simplified]
  show "puts (append_item (FlatTrace_append v)) (enc (FlatTrace_item v))"
    unfolding FlatTrace_append_struct FlatTrace_item_def field_defs
    by (rule puts_struct(1), intro struct_appends codec_appends) (simp_all only: s fs vs)
  show "fst (FlatTrace_decode (UntrustedRlp_new (enc (FlatTrace_item v)))) = Ok v"
    unfolding FlatTrace_decode_def FlatTrace_item_def field_defs
    by (rule reads_decode, (rule reads_and_then, rule codec_reads, simp, (rule nth_picks)+, (simp only: fs vs)+)+)
      (rule reads_okI, simp, rule s)
qed

lemmas [codec_appends] = FlatTrace_c.appends FlatTrace_c.list_appends(1)
lemmas [codec_reads] = FlatTrace_c.reads_field FlatTrace_c.reads_vec_field


interpretation FlatTransactionTraces_c: codec FlatTransactionTraces_append FlatTransactionTraces_decode
    "\<lambda>ts. RList (map FlatTrace_item ts)" "list_all FlatTrace_valid"
  unfolding FlatTransactionTraces_append_def FlatTransactionTraces_decode_def encodable_vec_field_def by (rule FlatTrace_c.list_codec)

interpretation FlatBlockTraces_c: codec FlatBlockTraces_append FlatBlockTraces_decode
    "\<lambda>bs. RList (map (\<lambda>ts. RList (map FlatTrace_item ts)) bs)" "list_all (list_all FlatTrace_valid)"
  unfolding FlatBlockTraces_append_def FlatBlockTraces_decode_def encodable_vec_field_def by (rule FlatTransactionTraces_c.list_codec)

section \<open>Properties\<close>

text \<open>
  C34: The traces of a block survive encoding: actions, results with their errors, counts and positions, nested in the
  lists of the transactions of the block, are read back from the bytes that were written.
\<close>

theorem block_traces_roundtrip:
  assumes "list_all (list_all FlatTrace_valid) bt" "small (RList (map (\<lambda>ts. RList (map FlatTrace_item ts)) bt))"
  shows "\<exists>bs. encode (FlatBlockTraces_append bt) = Ok bs \<and> fst (as_val FlatBlockTraces_decode (UntrustedRlp_new bs)) = Ok bt"
  using FlatBlockTraces_c.roundtrip [OF assms] by blast

definition sample_traces :: "FlatTrace list list" where
  "sample_traces = [[\<lparr>ft_action = Act_Call (TraceCall_from default_params), ft_result = Res_FailedCall (TraceError_from OutOfGas),
     ft_subtraces = 0, ft_trace_address = [1, 2]\<rparr>]]"

theorem block_traces_roundtrip_witness:
  "\<exists>bs. encode (FlatBlockTraces_append sample_traces) = Ok bs \<and> fst (as_val FlatBlockTraces_decode (UntrustedRlp_new bs)) = Ok sample_traces"
proof (rule block_traces_roundtrip)
  show "list_all (list_all FlatTrace_valid) sample_traces" by (simp add: sample_traces_def FlatTrace_valid_def)
  show "small (RList (map (\<lambda>ts. RList (map FlatTrace_item ts)) sample_traces))"
    by (rule small_bound) (simp add: sample_traces_def FlatTrace_item_def TraceCall_from_def default_params_def TraceCall_item_def
        CallType_item_def TraceError_item_def be_min_pos)
qed

end
