(* ===== verification/Transaction.thy ===== *)
theory Transaction
  imports Chain_Types Schedule
begin

text \<open>
  Transactions (\<open>ethcore/transaction/src\<close>) and the signatures they carry (\<open>ethkey/src/signature.rs\<close>, \<open>error.rs\<close>,
  \<open>keypair.rs\<close>).  The operations of the crate \<open>secp256k1\<close> and the hash function are the parameter \<open>crypto\<close>.  Shown: a
  transaction that is signed, encoded, decoded and verified again has the sender that signed it.
\<close>

section \<open>Signatures\<close>

datatype secp_error = SecpInvalidMessage | SecpInvalidPublicKey | SecpInvalidSecretKey | SecpOther

datatype ethkey_error = InvalidSecret | InvalidPublic | InvalidAddress | InvalidSignature | InvalidMessage | Io string | KeyCustom string

fun ethkey_display :: "ethkey_error \<Rightarrow> string" where
  "ethkey_display InvalidSecret = ''Crypto error (Invalid secret)''"
| "ethkey_display InvalidPublic = ''Crypto error (Invalid public)''"
| "ethkey_display InvalidAddress = ''Crypto error (Invalid address)''"
| "ethkey_display InvalidSignature = ''Crypto error (Invalid EC signature)''"
| "ethkey_display InvalidMessage = ''Crypto error (Invalid AES message)''"
| "ethkey_display (Io err) = ''Crypto error (I/O error: '' @ err @ '')''"
| "ethkey_display (KeyCustom s) = ''Crypto error ('' @ s @ '')''"

fun ethkey_from_secp :: "secp_error \<Rightarrow> ethkey_error" where
  "ethkey_from_secp SecpInvalidMessage = InvalidMessage"
| "ethkey_from_secp SecpInvalidPublicKey = InvalidPublic"
| "ethkey_from_secp SecpInvalidSecretKey = InvalidSecret"
| "ethkey_from_secp SecpOther = InvalidSignature"

text \<open>
  \<open>sign_recoverable\<close> gives the compact signature of 64 bytes and the recovery id, \<open>secp_recover\<close> the uncompressed public
  key of 65 bytes; \<open>recovery_id\<close> is \<open>RecoveryId::from_i32\<close>.
\<close>

record crypto =
  keccak :: "bytes \<Rightarrow> h256"
  sign_recoverable :: "h256 \<Rightarrow> h256 \<Rightarrow> secp_error + bytes \<times> nat"
  recovery_id :: "nat \<Rightarrow> secp_error + nat"
  secp_recover :: "bytes \<Rightarrow> nat \<Rightarrow> h256 \<Rightarrow> secp_error + bytes"

fun secp_lift :: "secp_error + 'a \<Rightarrow> (ethkey_error, 'a) outcome" where
  "secp_lift (Inl e) = Err (ethkey_from_secp e)"
| "secp_lift (Inr a) = Ok a"

text \<open>A \<open>Signature\<close> is an array of 65 bytes.\<close>

type_synonym signature = bytes

definition sig_r :: "signature \<Rightarrow> bytes" where
  "sig_r sg = take 32 sg"

definition sig_s :: "signature \<Rightarrow> bytes" where
  "sig_s sg = take 32 (drop 32 sg)"

definition sig_v :: "signature \<Rightarrow> u8" where
  "sig_v sg = sg ! 64"

definition into_electrum :: "signature \<Rightarrow> (ethkey_error, bytes) outcome" where
  "into_electrum sg = ok_then (word_add (sg ! 64) 27) (\<lambda>v. Ok (sg[64 := v]))"

definition from_electrum :: "bytes \<Rightarrow> signature" where
  "from_electrum data =
     (if length data \<noteq> 65 \<or> data ! 64 < 27 then replicate 65 0
      else data[64 := data ! 64 - 27])"

definition from_rsv :: "h256 \<Rightarrow> h256 \<Rightarrow> u8 \<Rightarrow> signature" where
  "from_rsv r s v = be_bytes 32 (unat r) @ be_bytes 32 (unat s) @ [v]"

definition is_low_s :: "signature \<Rightarrow> bool" where
  "is_low_s sg \<longleftrightarrow> (of_nat (be_nat (sig_s sg)) :: h256) \<le> 0x7FFFFFFFFFFFFFFFFFFFFFFFFFFFFFFF5D576E7357A4501DDFE92F46681B20A0"

definition sig_is_valid :: "signature \<Rightarrow> bool" where
  "sig_is_valid sg \<longleftrightarrow> sig_v sg \<le> 1
     \<and> (of_nat (be_nat (sig_r sg)) :: h256) < 0xfffffffffffffffffffffffffffffffebaaedce6af48a03bbfd25e8cd0364141
     \<and> 1 \<le> (of_nat (be_nat (sig_r sg)) :: h256)
     \<and> (of_nat (be_nat (sig_s sg)) :: h256) < 0xfffffffffffffffffffffffffffffffebaaedce6af48a03bbfd25e8cd0364141
     \<and> 1 \<le> (of_nat (be_nat (sig_s sg)) :: h256)"

definition ethkey_sign :: "crypto \<Rightarrow> h256 \<Rightarrow> h256 \<Rightarrow> (ethkey_error, signature) outcome" where
  "ethkey_sign C secret message = ok_then (secp_lift (sign_recoverable C secret message)) (\<lambda>(data, rec_id).
     ok_then (slice data 0 64) (\<lambda>d. Ok (d @ [of_nat rec_id])))"

text \<open>\<open>copy_from_slice\<close> panics unless the lengths agree; a \<open>Public\<close> has 64 bytes.\<close>

definition recover :: "crypto \<Rightarrow> signature \<Rightarrow> h256 \<Rightarrow> (ethkey_error, bytes) outcome" where
  "recover C sg message =
     ok_then (slice sg 0 64) (\<lambda>compact.
     ok_then (index sg 64) (\<lambda>v.
     ok_then (secp_lift (recovery_id C (unat v))) (\<lambda>rec_id.
     ok_then (secp_lift (secp_recover C compact rec_id message)) (\<lambda>serialized.
     slice serialized 1 65))))"

definition public_to_address :: "crypto \<Rightarrow> bytes \<Rightarrow> address" where
  "public_to_address C public = ucast (keccak C public)"

definition verify_address :: "crypto \<Rightarrow> address \<Rightarrow> signature \<Rightarrow> h256 \<Rightarrow> (ethkey_error, bool) outcome" where
  "verify_address C a sg message = ok_then (recover C sg message) (\<lambda>public. Ok (a = public_to_address C public))"

section \<open>Transactions\<close>

definition UNSIGNED_SENDER :: address where
  "UNSIGNED_SENDER = 0xffffffffffffffffffffffffffffffffffffffff"

definition SYSTEM_ADDRESS :: address where
  "SYSTEM_ADDRESS = 0xfffffffffffffffffffffffffffffffffffffffe"

datatype tx_action = TxCreate | TxCall address

definition tx_action_decode :: "tx_action view" where
  "tx_action_decode = and_then (gets is_empty) (\<lambda>empty.
     if empty then ok TxCreate else and_then (as_val hash_decode) (\<lambda>a. ok (TxCall a)))"

definition tx_action_append :: "tx_action \<Rightarrow> unit rlp_comp" where
  "tx_action_append a = (case a of TxCreate \<Rightarrow> append_internal (str_append []) | TxCall addr \<Rightarrow> append_internal (hash_append addr))"

record Transaction =
  tx_nonce :: u256
  tx_gas_price :: u256
  tx_gas_limit :: u256
  tx_action :: tx_action
  tx_value :: u256
  tx_data :: bytes

definition rlp_append_unsigned_transaction :: "Transaction \<Rightarrow> 64 word option \<Rightarrow> unit rlp_comp" where
  "rlp_append_unsigned_transaction t chain_id =
     and_then (begin_list (if chain_id = None then 6 else 9)) (\<lambda>_.
     and_then (append_item (uint_append (tx_nonce t))) (\<lambda>_.
     and_then (append_item (uint_append (tx_gas_price t))) (\<lambda>_.
     and_then (append_item (uint_append (tx_gas_limit t))) (\<lambda>_.
     and_then (append_item (tx_action_append (tx_action t))) (\<lambda>_.
     and_then (append_item (uint_append (tx_value t))) (\<lambda>_.
     and_then (append_item (bytes_append (tx_data t))) (\<lambda>_.
     case chain_id of
       Some n \<Rightarrow> and_then (append_item (u_append n)) (\<lambda>_.
                and_then (append_item (u8_append 0)) (\<lambda>_. append_item (u8_append 0)))
     | None \<Rightarrow> ok ())))))))"

text \<open>The encoder returns nothing, so that a call of it either ends or panics.\<close>

fun no_err :: "'a rlp_result \<Rightarrow> ('e, 'a) outcome" where
  "no_err (Ok a) = Ok a"
| "no_err (Err _) = Panic Assert_failed"
| "no_err (Panic p) = Panic p"

definition tx_message_hash :: "crypto \<Rightarrow> Transaction \<Rightarrow> 64 word option \<Rightarrow> ('e, h256) outcome" where
  "tx_message_hash C t chain_id =
     (case rlp_append_unsigned_transaction t chain_id stream_new of
        (r, stream) \<Rightarrow> no_err (map_outcome (\<lambda>_. keccak C (as_raw stream)) r))"

record UnverifiedTransaction =
  ut_unsigned :: Transaction
  ut_v :: "64 word"
  ut_r :: u256
  ut_s :: u256
  ut_hash :: h256

definition rlp_append_sealed_transaction :: "UnverifiedTransaction \<Rightarrow> unit rlp_comp" where
  "rlp_append_sealed_transaction u = (let t = ut_unsigned u in
     and_then (begin_list 9) (\<lambda>_.
     and_then (append_item (uint_append (tx_nonce t))) (\<lambda>_.
     and_then (append_item (uint_append (tx_gas_price t))) (\<lambda>_.
     and_then (append_item (uint_append (tx_gas_limit t))) (\<lambda>_.
     and_then (append_item (tx_action_append (tx_action t))) (\<lambda>_.
     and_then (append_item (uint_append (tx_value t))) (\<lambda>_.
     and_then (append_item (bytes_append (tx_data t))) (\<lambda>_.
     and_then (append_item (u_append (ut_v u))) (\<lambda>_.
     and_then (append_item (uint_append (ut_r u))) (\<lambda>_.
     append_item (uint_append (ut_s u))))))))))))"

definition UnverifiedTransaction_decode :: "crypto \<Rightarrow> UnverifiedTransaction view" where
  "UnverifiedTransaction_decode C = and_then item_count (\<lambda>n.
     if n \<noteq> 9 then fail RlpIncorrectListLen
     else
       and_then (gets view_as_raw) (\<lambda>raw.
       and_then (val_at uint_decode 0) (\<lambda>nonce.
       and_then (val_at uint_decode 1) (\<lambda>gas_price.
       and_then (val_at uint_decode 2) (\<lambda>gas.
       and_then (val_at tx_action_decode 3) (\<lambda>action.
       and_then (val_at uint_decode 4) (\<lambda>value.
       and_then (val_at bytes_decode 5) (\<lambda>data.
       and_then (val_at u_decode 6) (\<lambda>v.
       and_then (val_at uint_decode 7) (\<lambda>r.
       and_then (val_at uint_decode 8) (\<lambda>s.
       ok \<lparr>ut_unsigned = \<lparr>tx_nonce = nonce, tx_gas_price = gas_price, tx_gas_limit = gas, tx_action = action, tx_value = value, tx_data = data\<rparr>,
           ut_v = v, ut_r = r, ut_s = s, ut_hash = keccak C raw\<rparr>)))))))))))"

definition compute_hash :: "crypto \<Rightarrow> UnverifiedTransaction \<Rightarrow> ('e, UnverifiedTransaction) outcome" where
  "compute_hash C u = no_err (map_outcome (\<lambda>bs. u\<lparr>ut_hash := keccak C bs\<rparr>) (rlp_bytes (rlp_append_sealed_transaction u)))"

definition ut_is_unsigned :: "UnverifiedTransaction \<Rightarrow> bool" where
  "ut_is_unsigned u \<longleftrightarrow> ut_r u = 0 \<and> ut_s u = 0"

definition standard_v :: "UnverifiedTransaction \<Rightarrow> u8" where
  "standard_v u = (let v = ut_v u in if v = 27 \<or> v = 28 \<or> 36 < v then ucast ((v - 1) mod 2) else 4)"

definition original_v :: "UnverifiedTransaction \<Rightarrow> 64 word" where
  "original_v u = ut_v u"

definition chain_id :: "UnverifiedTransaction \<Rightarrow> 64 word option" where
  "chain_id u = (let v = ut_v u in
     if ut_is_unsigned u then Some v
     else if 36 < v then Some ((v - 35) div 2)
     else None)"

definition tx_signature :: "UnverifiedTransaction \<Rightarrow> signature" where
  "tx_signature u = from_rsv (ut_r u) (ut_s u) (standard_v u)"

definition check_low_s :: "UnverifiedTransaction \<Rightarrow> (ethkey_error, unit) outcome" where
  "check_low_s u = (if \<not> is_low_s (tx_signature u) then Err InvalidSignature else Ok ())"

definition recover_public :: "crypto \<Rightarrow> UnverifiedTransaction \<Rightarrow> (ethkey_error, bytes) outcome" where
  "recover_public C u = ok_then (tx_message_hash C (ut_unsigned u) (chain_id u)) (\<lambda>h. recover C (tx_signature u) h)"

text \<open>\<open>ethcore/transaction/src/error.rs\<close>; the bounds of \<open>InvalidGasLimit\<close> are its minimum and the value found.\<close>

datatype tx_error =
    AlreadyImported
  | Old
  | TooCheapToReplace
  | LimitReached
  | InsufficientGasPrice u256 u256
  | InsufficientGas u256 u256
  | InsufficientBalance u256 u256
  | GasLimitExceeded u256 u256
  | InvalidGasLimit "u256 option" "u256 option" u256
  | SenderBanned
  | RecipientBanned
  | CodeBanned
  | InvalidChainId
  | NotAllowed
  | TxInvalidSignature string

fun tx_error_from :: "(ethkey_error, 'a) outcome \<Rightarrow> (tx_error, 'a) outcome" where
  "tx_error_from (Ok a) = Ok a"
| "tx_error_from (Err e) = Err (TxInvalidSignature (ethkey_display e))"
| "tx_error_from (Panic p) = Panic p"

definition verify_basic :: "UnverifiedTransaction \<Rightarrow> bool \<Rightarrow> 64 word option \<Rightarrow> bool \<Rightarrow> (tx_error, unit) outcome" where
  "verify_basic u low_s chain allow_empty_signature = (let t = ut_unsigned u in
     ok_then (if low_s \<and> \<not> (allow_empty_signature \<and> ut_is_unsigned u) then tx_error_from (check_low_s u) else Ok ()) (\<lambda>_.
     if allow_empty_signature \<and> ut_is_unsigned u \<and> \<not> (tx_gas_price t = 0 \<and> tx_value t = 0 \<and> tx_nonce t = 0)
     then Err (TxInvalidSignature (ethkey_display InvalidSignature))
     else case (chain_id u, chain) of
         (None, _) \<Rightarrow> Ok ()
       | (Some n, Some m) \<Rightarrow> if n = m then Ok () else Err InvalidChainId
       | (Some _, None) \<Rightarrow> Err InvalidChainId))"

record SignedTransaction =
  st_transaction :: UnverifiedTransaction
  st_sender :: address
  st_public :: "bytes option"

definition SignedTransaction_append :: "SignedTransaction \<Rightarrow> unit rlp_comp" where
  "SignedTransaction_append s = rlp_append_sealed_transaction (st_transaction s)"

definition SignedTransaction_new :: "crypto \<Rightarrow> UnverifiedTransaction \<Rightarrow> (ethkey_error, SignedTransaction) outcome" where
  "SignedTransaction_new C u =
     (if ut_is_unsigned u then Ok \<lparr>st_transaction = u, st_sender = UNSIGNED_SENDER, st_public = None\<rparr>
      else ok_then (recover_public C u) (\<lambda>public.
        Ok \<lparr>st_transaction = u, st_sender = public_to_address C public, st_public = Some public\<rparr>))"

definition deconstruct :: "SignedTransaction \<Rightarrow> UnverifiedTransaction \<times> address \<times> bytes option" where
  "deconstruct s = (st_transaction s, st_sender s, st_public s)"

definition with_signature :: "crypto \<Rightarrow> Transaction \<Rightarrow> signature \<Rightarrow> 64 word option \<Rightarrow> ('e, UnverifiedTransaction) outcome" where
  "with_signature C t sg chain =
     ok_then (case chain of Some n \<Rightarrow> ok_then (word_mul n 2) (word_add 35) | None \<Rightarrow> Ok 27) (\<lambda>base.
     ok_then (word_add (ucast (sig_v sg)) base) (\<lambda>v.
     compute_hash C \<lparr>ut_unsigned = t, ut_v = v, ut_r = of_nat (be_nat (sig_r sg)), ut_s = of_nat (be_nat (sig_s sg)), ut_hash = 0\<rparr>))"

fun expect :: "('e, 'a) outcome \<Rightarrow> ('f, 'a) outcome" where
  "expect (Ok a) = Ok a"
| "expect (Err _) = Panic Expect_failed"
| "expect (Panic p) = Panic p"

definition tx_sign :: "crypto \<Rightarrow> Transaction \<Rightarrow> h256 \<Rightarrow> 64 word option \<Rightarrow> ('e, SignedTransaction) outcome" where
  "tx_sign C t secret chain =
     ok_then (tx_message_hash C t chain) (\<lambda>h.
     ok_then (expect (ethkey_sign C secret h)) (\<lambda>sg.
     ok_then (with_signature C t sg chain) (\<lambda>u.
     expect (SignedTransaction_new C u))))"

definition fake_sign :: "crypto \<Rightarrow> Transaction \<Rightarrow> address \<Rightarrow> ('e, SignedTransaction) outcome" where
  "fake_sign C t from =
     ok_then (compute_hash C \<lparr>ut_unsigned = t, ut_v = 0, ut_r = 1, ut_s = 1, ut_hash = 0\<rparr>) (\<lambda>u.
     Ok \<lparr>st_transaction = u, st_sender = from, st_public = None\<rparr>)"

definition null_sign :: "crypto \<Rightarrow> Transaction \<Rightarrow> 64 word \<Rightarrow> ('e, SignedTransaction) outcome" where
  "null_sign C t chain =
     ok_then (compute_hash C \<lparr>ut_unsigned = t, ut_v = chain, ut_r = 0, ut_s = 0, ut_hash = 0\<rparr>) (\<lambda>u.
     Ok \<lparr>st_transaction = u, st_sender = UNSIGNED_SENDER, st_public = None\<rparr>)"

fun data_gas :: "Schedule \<Rightarrow> bytes \<Rightarrow> nat \<Rightarrow> ('e, nat) outcome" where
  "data_gas sch [] g = Ok g"
| "data_gas sch (b # bs) g = ok_then (usize_add g (if b = 0 then tx_data_zero_gas sch else tx_data_non_zero_gas sch)) (data_gas sch bs)"

definition gas_required_for :: "bool \<Rightarrow> bytes \<Rightarrow> Schedule \<Rightarrow> ('e, nat) outcome" where
  "gas_required_for is_create data sch = data_gas sch data (if is_create then tx_create_gas sch else tx_gas sch)"

definition gas_required :: "Transaction \<Rightarrow> Schedule \<Rightarrow> ('e, nat) outcome" where
  "gas_required t sch = gas_required_for (case tx_action t of TxCreate \<Rightarrow> True | TxCall _ \<Rightarrow> False) (tx_data t) sch"

text \<open>The validation of the test suites, \<open>validate\<close>.\<close>

definition tx_validate :: "crypto \<Rightarrow> UnverifiedTransaction \<Rightarrow> Schedule \<Rightarrow> bool \<Rightarrow> bool \<Rightarrow> bool \<Rightarrow> (tx_error, UnverifiedTransaction) outcome" where
  "tx_validate C u sch require_low allow_chain_id_of_one allow_empty_signature =
     ok_then (verify_basic u require_low (if allow_chain_id_of_one then Some 1 else None) allow_empty_signature) (\<lambda>_.
     ok_then (if \<not> allow_empty_signature \<or> \<not> ut_is_unsigned u then map_outcome (\<lambda>_. ()) (tx_error_from (recover_public C u)) else Ok ()) (\<lambda>_.
     ok_then (gas_required (ut_unsigned u) sch) (\<lambda>g.
     if tx_gas_limit (ut_unsigned u) < of_nat g then Err (InvalidGasLimit (Some (of_nat g)) None (tx_gas_limit (ut_unsigned u)))
     else Ok u)))"

text \<open>A transaction of the chain, with the sender cached.\<close>

record LocalizedTransaction =
  lt_signed :: UnverifiedTransaction
  lt_block_number :: nat
  lt_block_hash :: h256
  lt_transaction_index :: nat
  lt_cached_sender :: "address option"

definition lt_sender :: "crypto \<Rightarrow> (ethkey_error, LocalizedTransaction, address) comp" where
  "lt_sender C l =
     (case lt_cached_sender l of
        Some sender \<Rightarrow> (Ok sender, l)
      | None \<Rightarrow>
          if ut_is_unsigned (lt_signed l) then (Ok UNSIGNED_SENDER, l)
          else (case expect (recover_public C (lt_signed l)) of
              Ok public \<Rightarrow> (let sender = public_to_address C public in (Ok sender, l\<lparr>lt_cached_sender := Some sender\<rparr>))
            | Err e \<Rightarrow> (Err e, l)
            | Panic p \<Rightarrow> (Panic p, l)))"

section \<open>Codecs\<close>

lemma puts_run:
  assumes "puts m bs"
  obtains f where "m stream_new = (Ok (), stream_new\<lparr>rs_buffer := bs, rs_finished_list := f\<rparr>)"
proof -
  have "agree (m stream_new) (put bs stream_new)" using assms by (simp add: puts_def)
  then have "agree (m stream_new) (Ok (), stream_new\<lparr>rs_buffer := bs\<rparr>)"
    by (simp add: put_def stream_new_def note_appended.simps)
  from agree_Ok [OF this] show ?thesis using that by blast
qed

lemma puts_rlp_bytes: "puts m bs \<Longrightarrow> rlp_bytes m = Ok bs"
  by (erule puts_run) (simp add: rlp_bytes_def run_stream_def drain_def is_finished_def stream_new_def)

definition tx_action_item :: "tx_action \<Rightarrow> rlp_item" where
  "tx_action_item a = RData (case a of TxCreate \<Rightarrow> [] | TxCall addr \<Rightarrow> be_bytes 20 (unat addr))"

lemma str_append_bytes: "str_append = bytes_append"
  by (simp add: fun_eq_iff str_append_def bytes_append_def)

interpretation tx_action_c: codec tx_action_append tx_action_decode tx_action_item "\<lambda>_. True"
proof
  fix a assume s: "small (tx_action_item a)"
  show "puts (append_item (tx_action_append a)) (enc (tx_action_item a))"
  proof (cases a)
    case TxCreate
    then show ?thesis
      using bytes_c.appends [OF TrueI] s
      by (simp only: tx_action_item_def tx_action_append_def append_internal_def str_append_bytes tx_action.case)
  next
    case (TxCall addr)
    then show ?thesis
      using h160_c.appends [OF TrueI, of addr] s
      by (simp only: tx_action_item_def tx_action_append_def append_internal_def tx_action.case)
  qed
  show "fst (tx_action_decode (UntrustedRlp_new (enc (tx_action_item a)))) = Ok a"
  proof (cases a)
    case TxCreate
    then show ?thesis
      by (simp add: tx_action_decode_def tx_action_item_def enc_data_def enc_prefix_def comp_defs is_empty_def is_null_def UntrustedRlp_new_def)
  next
    case (TxCall addr)
    let ?r = "UntrustedRlp_new (enc (RData (be_bytes 20 (unat addr))))"
    have ne: "\<not> is_empty ?r"
      by (simp add: is_empty_def is_null_def UntrustedRlp_new_def enc_data_def enc_prefix_def)
    have "fst (hash_decode ?r) = Ok addr"
      using h160_c.decodes [OF TrueI, of addr] s by (simp only: TxCall tx_action_item_def tx_action.case)
    with ne show ?thesis
      by (cases "hash_decode ?r :: address rlp_result \<times> UntrustedRlp")
        (simp add: tx_action_decode_def tx_action_item_def TxCall comp_defs as_val_def)
  qed
qed

lemmas [codec_appends] = tx_action_c.appends [OF TrueI]
lemmas [codec_reads] = tx_action_c.reads_field [OF _ _ TrueI]

text \<open>The items of the unsigned part, and of a transaction with its signature.\<close>

definition tx_items :: "Transaction \<Rightarrow> rlp_item list" where
  "tx_items t = [RData (be_min (unat (tx_nonce t))), RData (be_min (unat (tx_gas_price t))), RData (be_min (unat (tx_gas_limit t))),
     tx_action_item (tx_action t), RData (be_min (unat (tx_value t))), RData (tx_data t)]"

definition tx_unsigned_item :: "Transaction \<Rightarrow> 64 word option \<Rightarrow> rlp_item" where
  "tx_unsigned_item t chain = RList (tx_items t @
     (case chain of Some n \<Rightarrow> [RData (be_min (unat n)), RData (be_min (unat (0 :: u8))), RData (be_min (unat (0 :: u8)))] | None \<Rightarrow> []))"

definition UnverifiedTransaction_item :: "UnverifiedTransaction \<Rightarrow> rlp_item" where
  "UnverifiedTransaction_item u = RList (tx_items (ut_unsigned u) @
     [RData (be_min (unat (ut_v u))), RData (be_min (unat (ut_r u))), RData (be_min (unat (ut_s u)))])"

definition UnverifiedTransaction_valid :: "crypto \<Rightarrow> UnverifiedTransaction \<Rightarrow> bool" where
  "UnverifiedTransaction_valid C u \<longleftrightarrow> ut_hash u = keccak C (enc (UnverifiedTransaction_item u))"

definition tx_calls :: "Transaction \<Rightarrow> unit rlp_comp list" where
  "tx_calls t = [append_item (uint_append (tx_nonce t)), append_item (uint_append (tx_gas_price t)),
     append_item (uint_append (tx_gas_limit t)), append_item (tx_action_append (tx_action t)), append_item (uint_append (tx_value t)),
     append_item (bytes_append (tx_data t))]"

lemma unsigned_struct:
  "rlp_append_unsigned_transaction t chain = impl_encodable (tx_calls t @
     (case chain of Some n \<Rightarrow> [append_item (u_append n), append_item (u8_append 0), append_item (u8_append 0)] | None \<Rightarrow> []))"
  by (cases chain) (simp_all add: rlp_append_unsigned_transaction_def tx_calls_def calls_defs)

lemma sealed_struct:
  "rlp_append_sealed_transaction u = impl_encodable (tx_calls (ut_unsigned u) @
     [append_item (u_append (ut_v u)), append_item (uint_append (ut_r u)), append_item (uint_append (ut_s u))])"
  by (simp add: rlp_append_sealed_transaction_def tx_calls_def calls_defs Let_def)

lemma tx_calls_puts: "list_all small (tx_items t) \<Longrightarrow> list_all2 puts (tx_calls t) (map enc (tx_items t))"
  unfolding tx_calls_def tx_items_def by (intro struct_appends codec_appends) simp_all

lemma puts_unsigned:
  assumes "small (tx_unsigned_item t chain)"
  shows "puts (rlp_append_unsigned_transaction t chain) (enc (tx_unsigned_item t chain))"
proof -
  note s = assms [unfolded tx_unsigned_item_def]
  note fs = small_list_all [OF s]
  have "list_all2 puts (case chain of Some n \<Rightarrow> [append_item (u_append n), append_item (u8_append 0), append_item (u8_append 0)] | None \<Rightarrow> [])
     (map enc (case chain of Some n \<Rightarrow> [RData (be_min (unat n)), RData (be_min (unat (0 :: u8))), RData (be_min (unat (0 :: u8)))] | None \<Rightarrow> []))"
  proof (cases chain)
    case (Some n)
    then show ?thesis
      using fs by (simp only: option.case) (intro struct_appends codec_appends; simp)
  qed simp
  with tx_calls_puts [of t] fs show ?thesis
    unfolding unsigned_struct tx_unsigned_item_def
    by (intro puts_struct(2)) (simp_all only: map_append list_all2_appendI list_all_append s)
qed

lemma puts_sealed:
  assumes "small (UnverifiedTransaction_item u)"
  shows "puts (append_item (rlp_append_sealed_transaction u)) (enc (UnverifiedTransaction_item u))"
    "puts (rlp_append_sealed_transaction u) (enc (UnverifiedTransaction_item u))"
proof -
  note s = assms [unfolded UnverifiedTransaction_item_def]
  note fs = small_list_all [OF s]
  have "list_all2 puts [append_item (u_append (ut_v u)), append_item (uint_append (ut_r u)), append_item (uint_append (ut_s u))]
     (map enc [RData (be_min (unat (ut_v u))), RData (be_min (unat (ut_r u))), RData (be_min (unat (ut_s u)))])"
    using fs by (intro struct_appends codec_appends) simp_all
  with tx_calls_puts [of "ut_unsigned u"] fs
  have "list_all2 puts (tx_calls (ut_unsigned u) @ [append_item (u_append (ut_v u)), append_item (uint_append (ut_r u)), append_item (uint_append (ut_s u))])
     (map enc (tx_items (ut_unsigned u) @ [RData (be_min (unat (ut_v u))), RData (be_min (unat (ut_r u))), RData (be_min (unat (ut_s u)))]))"
    by (simp only: map_append list_all2_appendI list_all_append)
  from puts_struct [OF this s]
  show "puts (append_item (rlp_append_sealed_transaction u)) (enc (UnverifiedTransaction_item u))"
    "puts (rlp_append_sealed_transaction u) (enc (UnverifiedTransaction_item u))"
    by (simp_all only: sealed_struct UnverifiedTransaction_item_def)
qed

text \<open>Reading the raw bytes of the view.\<close>

lemma and_then_gets: "and_then (gets g) f r = f (g r) r"
  by (simp add: and_then_def gets_def)

lemma decode_raw:
  assumes "reads xs (g (enc (RList xs))) v" "small (RList xs)" "length xs = k"
  shows "fst (and_then item_count (\<lambda>n. if n \<noteq> k then fail e else and_then (gets view_as_raw) g) (UntrustedRlp_new (enc (RList xs)))) = Ok v"
proof -
  let ?r = "UntrustedRlp_new (enc (RList xs))"
  have v: "views (length (concat (map enc xs))) xs ?r" by (rule views_enc [OF small_usize [OF assms(2)]])
  then obtain r' where r': "item_count ?r = (Ok (length xs), r')" "views (length (concat (map enc xs))) xs r'"
    using item_count_enc by blast
  have "view_as_raw r' = enc (RList xs)"
    using views_bytes [OF r'(2)] by (simp only: view_as_raw_def enc_list_bytes)
  moreover obtain r'' where "g (enc (RList xs)) r' = (Ok v, r'')"
    using assms(1) r'(2) by (auto simp: reads_def simp del: enc.simps)
  ultimately show ?thesis
    using r'(1) assms(3) by (simp add: and_then_def gets_def del: enc.simps)
qed

interpretation UnverifiedTransaction_c: codec rlp_append_sealed_transaction "UnverifiedTransaction_decode C"
    UnverifiedTransaction_item "UnverifiedTransaction_valid C" for C
proof
  fix u assume v: "UnverifiedTransaction_valid C u" and s: "small (UnverifiedTransaction_item u)"
  show "puts (append_item (rlp_append_sealed_transaction u)) (enc (UnverifiedTransaction_item u))" by (rule puts_sealed [OF s])
  note s = s [unfolded UnverifiedTransaction_item_def]
  note fs = small_list_all [OF s, unfolded tx_items_def, simplified]
  show "fst (UnverifiedTransaction_decode C (UntrustedRlp_new (enc (UnverifiedTransaction_item u)))) = Ok u"
    unfolding UnverifiedTransaction_decode_def UnverifiedTransaction_item_def
  proof (rule decode_raw [OF _ s])
    show "reads (tx_items (ut_unsigned u) @ [RData (be_min (unat (ut_v u))), RData (be_min (unat (ut_r u))), RData (be_min (unat (ut_s u)))])
       (and_then (val_at uint_decode 0) (\<lambda>nonce.
       and_then (val_at uint_decode 1) (\<lambda>gas_price.
       and_then (val_at uint_decode 2) (\<lambda>gas.
       and_then (val_at tx_action_decode 3) (\<lambda>action.
       and_then (val_at uint_decode 4) (\<lambda>value.
       and_then (val_at bytes_decode 5) (\<lambda>data.
       and_then (val_at u_decode 6) (\<lambda>v.
       and_then (val_at uint_decode 7) (\<lambda>r.
       and_then (val_at uint_decode 8) (\<lambda>s.
       ok \<lparr>ut_unsigned = \<lparr>tx_nonce = nonce, tx_gas_price = gas_price, tx_gas_limit = gas, tx_action = action, tx_value = value, tx_data = data\<rparr>,
           ut_v = v, ut_r = r, ut_s = s, ut_hash = keccak C (enc (RList (tx_items (ut_unsigned u) @
             [RData (be_min (unat (ut_v u))), RData (be_min (unat (ut_r u))), RData (be_min (unat (ut_s u)))])))\<rparr>)))))))))) u"
      unfolding tx_items_def append_Cons append_Nil
      by ((rule reads_and_then, rule codec_reads, simp, (rule nth_picks)+, simp only: fs)+, rule reads_okI)
        (use v in \<open>simp add: UnverifiedTransaction_valid_def UnverifiedTransaction_item_def tx_items_def\<close>)
  qed (simp add: tx_items_def)
qed

section \<open>Signing\<close>

text \<open>
  What the code relies on in the crate: a signature with the secret \<open>k\<close> has 64 bytes with a nonzero \<open>r\<close>, a recovery
  id of 0 or 1, and the public key of \<open>k\<close> is recovered from it.
\<close>

definition recovers :: "crypto \<Rightarrow> h256 \<Rightarrow> bytes \<Rightarrow> bool" where
  "recovers C k public \<longleftrightarrow> length public = 64 \<and>
     (\<forall>m. \<exists>d v. sign_recoverable C k m = Inr (d, v) \<and> length d = 64 \<and> v \<le> 1 \<and> be_nat (take 32 d) \<noteq> 0
       \<and> recovery_id C v = Inr v \<and> secp_recover C d v m = Inr (4 # public))"

lemma be_bytes_be_nat: "length x = k \<Longrightarrow> be_bytes k (be_nat x) = x"
proof (induction x arbitrary: k rule: rev_induct)
  case (snoc b x)
  then obtain j where k: "k = Suc j" "length x = j" by auto
  have "be_nat (x @ [b]) div 256 = be_nat x" using unat_lt_u8 [of b] by (simp add: be_nat_append)
  moreover have "of_nat (be_nat (x @ [b])) = b"
  proof -
    have "(of_nat (be_nat x * 256 + unat b) :: u8) = of_nat (be_nat x) * of_nat 256 + of_nat (unat b)" by (simp only: of_nat_add of_nat_mult)
    also have "(of_nat 256 :: u8) = 0" by simp
    finally show ?thesis by (simp add: be_nat_append)
  qed
  ultimately show ?case using snoc.IH [OF k(2)] by (simp add: k(1) be_bytes_Suc)
qed (simp add: be_bytes_def)

lemma unat_be_nat_u256: "length x = 32 \<Longrightarrow> unat (of_nat (be_nat x) :: u256) = be_nat x"
  using be_nat_less [of x] by (intro unat_of_nat_u256) simp

text \<open>The signature of the transaction is the one that was made.\<close>

lemma tx_signature_eq:
  assumes "length d = 64" "ut_r u = of_nat (be_nat (take 32 d))" "ut_s u = of_nat (be_nat (take 32 (drop 32 d)))"
  shows "tx_signature u = d @ [standard_v u]"
proof -
  have l: "length (take 32 d) = 32" "length (take 32 (drop 32 d)) = 32" using assms(1) by simp_all
  have "take 32 d @ take 32 (drop 32 d) = d" using assms(1) by (metis append_take_drop_id drop_drop length_drop numeral_Bit0 take_all
        add_diff_cancel_left' le_refl)
  then show ?thesis
    using l by (simp add: tx_signature_def from_rsv_def assms(2,3) unat_be_nat_u256 be_bytes_be_nat flip: append_assoc)
qed

text \<open>The chain and the recovery id are read back from \<open>v\<close>, except for the chain 0.\<close>

definition chain_ok :: "64 word option \<Rightarrow> bool" where
  "chain_ok chain \<longleftrightarrow> (case chain of None \<Rightarrow> True | Some n \<Rightarrow> 0 < unat n \<and> 2 * unat n + 36 < 2 ^ 64)"

lemma v_chain:
  assumes "chain_ok chain" "y \<le> 1" "ut_r u \<noteq> 0"
    and v: "unat (ut_v u) = y + (case chain of Some n \<Rightarrow> 35 + 2 * unat n | None \<Rightarrow> 27)"
  shows "chain_id u = chain" "standard_v u = of_nat y"
proof -
  have ge: "(k :: 64 word) \<le> ut_v u \<longleftrightarrow> unat k \<le> unat (ut_v u)" for k by (rule word_le_nat_alt)
  have pred: "unat (ut_v u - 1) = unat (ut_v u) - 1"
    using v by (subst unat_sub) (auto simp: word_le_nat_alt split: option.splits)
  have two: "unat ((ut_v u - 1) mod 2) = (unat (ut_v u) - 1) mod 2"
    by (simp add: unat_mod pred)
  have par: "(unat (ut_v u) - 1) mod 2 = y"
    using v assms(2) by (cases y; cases chain) auto
  have cast: "(ucast ((ut_v u - 1) mod 2) :: u8) = of_nat y"
    by (simp only: ucast_nat two par)
  have "chain_id u = chain \<and> standard_v u = of_nat y"
  proof (cases chain)
    case None
    then have "unat (ut_v u) = 27 \<or> unat (ut_v u) = 28" using v assms(2) by auto
    then have "ut_v u = 27 \<or> ut_v u = 28" "\<not> 36 < ut_v u"
      by (auto simp: word_unat_eq_iff word_less_nat_alt)
    then show ?thesis using None assms(3) cast by (auto simp: chain_id_def standard_v_def ut_is_unsigned_def Let_def)
  next
    case (Some n)
    have "0 < unat n" using assms(1) by (simp only: Some chain_ok_def option.case)
    then have "36 < unat (ut_v u)" using v unfolding Some option.case by linarith
    then have big: "36 < ut_v u" by (simp add: word_less_nat_alt)
    have "unat (ut_v u - 35) = unat (ut_v u) - 35" using big by (subst unat_sub) (auto simp: word_le_nat_alt word_less_nat_alt)
    then have "unat ((ut_v u - 35) div 2) = unat n"
      using v Some assms(2) by (simp add: unat_div)
    then have "(ut_v u - 35) div 2 = n" by (simp add: word_unat_eq_iff)
    then show ?thesis using Some big assms(3) cast by (simp add: chain_id_def standard_v_def ut_is_unsigned_def Let_def)
  qed
  then show "chain_id u = chain" "standard_v u = of_nat y" by simp_all
qed

text \<open>Sizes of encodings.\<close>

lemma length_uint_le: "LENGTH('a) = 8 * k \<Longrightarrow> k \<le> 32 \<Longrightarrow> length (enc (RData (be_min (unat (v :: 'a::len word))))) \<le> 41"
  using length_be_min_word [of k v] length_enc_data_le [of "be_min (unat v)"] by simp

lemma length_items_bound: "(\<And>y. y \<in> set ys \<Longrightarrow> length (enc y) \<le> k) \<Longrightarrow> length (concat (map enc ys)) \<le> k * length ys"
  by (induction ys) (simp_all add: add_mono)

lemma tx_small:
  assumes "length (tx_data t) < 2 ^ 31" "length ys = 3 \<or> ys = []" "\<And>y. y \<in> set ys \<Longrightarrow> length (enc y) \<le> 41"
  shows "small (RList (tx_items t @ ys))"
proof -
  have i: "length (enc (tx_action_item (tx_action t))) \<le> 41"
    by (cases "tx_action t") (use length_enc_data_le [of "be_bytes 20 _"] in \<open>auto simp: tx_action_item_def enc_data_def enc_prefix_def\<close>)
  have u: "length (enc (RData (be_min (unat (v :: u256))))) \<le> 41" for v by (rule length_uint_le [where k = 32]) simp_all
  have ys: "length (concat (map enc ys)) \<le> 123"
    using length_items_bound [of ys 41] assms(2,3) by auto
  let ?p = "concat (map enc (tx_items t @ ys))"
  have "length ?p \<le> 41 + 41 + 41 + 41 + 41 + (9 + length (tx_data t)) + 123"
    using u [of "tx_nonce t"] u [of "tx_gas_price t"] u [of "tx_gas_limit t"] u [of "tx_value t"] i ys
      length_enc_data_le [of "tx_data t"] assms(1) by (simp add: tx_items_def del: enc.simps)
  moreover from this have "length (enc_prefix 0xc0 0xf7 (length ?p)) \<le> 9" using assms(1) by (intro length_prefix_le) simp
  ultimately have "length (enc (RList (tx_items t @ ys))) \<le> 9 + 41 + 41 + 41 + 41 + 41 + (9 + length (tx_data t)) + 123"
    unfolding enc.simps enc_payload_def length_append by linarith
  then show ?thesis using assms(1) by (simp add: small_def del: enc.simps)
qed

lemma small_unsigned: "length (tx_data t) < 2 ^ 31 \<Longrightarrow> small (tx_unsigned_item t chain)"
proof -
  assume d: "length (tx_data t) < 2 ^ 31"
  have n: "length (enc (RData (be_min (unat (n :: 64 word))))) \<le> 41" for n by (rule length_uint_le [where k = 8]) simp_all
  have z: "length (enc (RData (be_min (unat (0 :: u8))))) \<le> 41" by (rule length_uint_le [where k = 1]) simp_all
  show ?thesis
    unfolding tx_unsigned_item_def by (rule tx_small [OF d]) (use n z in \<open>auto split: option.splits\<close>)
qed

lemma small_sealed: "length (tx_data (ut_unsigned u)) < 2 ^ 31 \<Longrightarrow> small (UnverifiedTransaction_item u)"
proof -
  assume d: "length (tx_data (ut_unsigned u)) < 2 ^ 31"
  have n: "length (enc (RData (be_min (unat (n :: 64 word))))) \<le> 41" for n by (rule length_uint_le [where k = 8]) simp_all
  have u: "length (enc (RData (be_min (unat (v :: u256))))) \<le> 41" for v by (rule length_uint_le [where k = 32]) simp_all
  show ?thesis
    unfolding UnverifiedTransaction_item_def by (rule tx_small [OF d]) (use n u in auto)
qed

lemma tx_message_hash_eq:
  assumes "length (tx_data t) < 2 ^ 31"
  shows "tx_message_hash C t chain = Ok (keccak C (enc (tx_unsigned_item t chain)))"
proof -
  obtain f where "rlp_append_unsigned_transaction t chain stream_new
      = (Ok (), stream_new\<lparr>rs_buffer := enc (tx_unsigned_item t chain), rs_finished_list := f\<rparr>)"
    by (rule puts_run [OF puts_unsigned [OF small_unsigned [OF assms]]])
  then show ?thesis by (simp add: tx_message_hash_def as_raw_def)
qed

lemma compute_hash_eq:
  assumes "length (tx_data (ut_unsigned u)) < 2 ^ 31"
  shows "compute_hash C u = Ok (u\<lparr>ut_hash := keccak C (enc (UnverifiedTransaction_item u))\<rparr>)"
  using puts_rlp_bytes [OF puts_sealed(2) [OF small_sealed [OF assms]]] by (simp add: compute_hash_def)

lemma item_hash [simp]: "UnverifiedTransaction_item (u\<lparr>ut_hash := h\<rparr>) = UnverifiedTransaction_item u"
  by (simp add: UnverifiedTransaction_item_def)

lemma base_v:
  assumes "chain_ok chain"
  shows "(case chain of Some n \<Rightarrow> ok_then (word_mul n 2) (word_add 35) | None \<Rightarrow> Ok 27)
      = Ok (case chain of Some n \<Rightarrow> 35 + n * 2 | None \<Rightarrow> (27 :: 64 word))"
    "unat (case chain of Some n \<Rightarrow> 35 + n * 2 | None \<Rightarrow> (27 :: 64 word)) = (case chain of Some n \<Rightarrow> 35 + 2 * unat n | None \<Rightarrow> 27)"
proof -
  have m: "unat (n * 2) = 2 * unat n" "unat (35 + n * 2) = 35 + 2 * unat n" if "2 * unat n + 36 < 2 ^ 64" for n :: "64 word"
    using that by (simp_all add: unat_word_ariths)
  show "(case chain of Some n \<Rightarrow> ok_then (word_mul n 2) (word_add 35) | None \<Rightarrow> Ok 27)
      = Ok (case chain of Some n \<Rightarrow> 35 + n * 2 | None \<Rightarrow> (27 :: 64 word))"
    "unat (case chain of Some n \<Rightarrow> 35 + n * 2 | None \<Rightarrow> (27 :: 64 word)) = (case chain of Some n \<Rightarrow> 35 + 2 * unat n | None \<Rightarrow> 27)"
    using assms m by (auto simp: chain_ok_def word_mul_def word_add_def split: option.splits)
qed

lemma with_signature_eq:
  assumes "length (tx_data t) < 2 ^ 31" "chain_ok chain" "length d = 64" "y \<le> 1"
  obtains u where "with_signature C t (d @ [of_nat y]) chain = (Ok u :: ('e, UnverifiedTransaction) outcome)" "ut_unsigned u = t" "UnverifiedTransaction_valid C u"
    "ut_r u = of_nat (be_nat (take 32 d))" "ut_s u = of_nat (be_nat (take 32 (drop 32 d)))"
    "unat (ut_v u) = y + (case chain of Some n \<Rightarrow> 35 + 2 * unat n | None \<Rightarrow> 27)"
proof -
  define base where "base = (case chain of Some n \<Rightarrow> 35 + n * 2 | None \<Rightarrow> (27 :: 64 word))"
  have b: "(case chain of Some n \<Rightarrow> ok_then (word_mul n 2) (word_add 35) | None \<Rightarrow> Ok 27) = (Ok base :: ('e, 64 word) outcome)"
    "unat base = (case chain of Some n \<Rightarrow> 35 + 2 * unat n | None \<Rightarrow> 27)"
    using base_v [OF assms(2)] by (simp_all only: base_def)
  define u where "u = \<lparr>ut_unsigned = t, ut_v = of_nat y + base, ut_r = of_nat (be_nat (take 32 d)),
    ut_s = of_nat (be_nat (take 32 (drop 32 d))), ut_hash = 0\<rparr>"
  have y: "unat (of_nat y :: 64 word) = y" "(ucast (of_nat y :: u8) :: 64 word) = of_nat y"
    using assms(4) by (cases y; simp)+
  have "y + unat base < 2 ^ 64" using b(2) assms(2,4) by (auto simp: chain_ok_def split: option.splits)
  then have v: "word_add (ucast (of_nat y :: u8)) base = (Ok (of_nat y + base) :: ('e, 64 word) outcome)" "unat (of_nat y + base) = y + unat base"
    unfolding word_add_def y(2) using y(1) by (simp_all add: unat_word_ariths)
  have "with_signature C t (d @ [of_nat y]) chain = (compute_hash C u :: ('e, UnverifiedTransaction) outcome)"
    using assms(3) b(1) v(1) by (simp add: with_signature_def sig_v_def sig_r_def sig_s_def nth_append u_def)
  then show ?thesis
    using that [of "u\<lparr>ut_hash := keccak C (enc (UnverifiedTransaction_item u))\<rparr>"] compute_hash_eq [of u C] assms(1) v(2) b(2)
    by (simp add: u_def UnverifiedTransaction_valid_def UnverifiedTransaction_item_def)
qed

section \<open>Properties\<close>


text \<open>An instance of the crate: a signature that carries the key.\<close>

definition toy_crypto :: crypto where
  "toy_crypto = \<lparr>keccak = (\<lambda>bs. of_nat (be_nat bs)), sign_recoverable = (\<lambda>k m. Inr (be_bytes 32 (unat k) @ be_bytes 32 1, 0)),
     recovery_id = Inr, secp_recover = (\<lambda>d v m. Inr (4 # d))\<rparr>"

definition toy_transaction :: Transaction where
  "toy_transaction = \<lparr>tx_nonce = 1, tx_gas_price = 2, tx_gas_limit = 21000, tx_action = TxCall 5, tx_value = 7, tx_data = [1, 2]\<rparr>"


text \<open>
  C37: The chain with identifier 0 is lost: a transaction signed for it has \<open>v\<close> equal to 35 or 36, which is read back as
  a transaction for all chains with an invalid recovery id.
\<close>

theorem chain_zero_is_lost:
  assumes "y \<le> 1" "length d = 64" "be_nat (take 32 d) \<noteq> 0" "length (tx_data t) < 2 ^ 31"
  shows "\<exists>u. with_signature C t (d @ [of_nat y]) (Some 0) = (Ok u :: (ethkey_error, _) outcome) \<and> chain_id u = None \<and> standard_v u = 4"
proof -
  let ?u = "\<lparr>ut_unsigned = t, ut_v = of_nat y + 35, ut_r = of_nat (be_nat (take 32 d)), ut_s = of_nat (be_nat (take 32 (drop 32 d))), ut_hash = 0\<rparr>"
  have y: "(ucast (of_nat y :: u8) :: 64 word) = of_nat y" "y = 0 \<or> y = 1" using assms(1) by (cases y; simp)+
  have r: "(of_nat (be_nat (take 32 d)) :: u256) \<noteq> 0"
    using assms(2,3) unat_be_nat_u256 [of "take 32 d"] by auto
  have "with_signature C t (d @ [of_nat y]) (Some 0) = (compute_hash C ?u :: (ethkey_error, _) outcome)"
    using assms(2) y by (auto simp: with_signature_def word_mul_def word_add_def sig_v_def sig_r_def sig_s_def nth_append)
  also have "compute_hash C ?u = (Ok (?u\<lparr>ut_hash := keccak C (enc (UnverifiedTransaction_item ?u))\<rparr>) :: (ethkey_error, _) outcome)"
    using assms(4) by (intro compute_hash_eq) simp
  finally show ?thesis
    using r y(2) by (auto simp: chain_id_def standard_v_def ut_is_unsigned_def Let_def)
qed

theorem chain_zero_is_lost_witness:
  "\<exists>u. with_signature toy_crypto toy_transaction ((be_bytes 32 1 @ be_bytes 32 1) @ [of_nat 1]) (Some 0) = (Ok u :: (ethkey_error, _) outcome)
    \<and> chain_id u = None \<and> standard_v u = 4"
proof (rule chain_zero_is_lost)
  have "be_nat (be_bytes 32 1) = 1" unfolding be_bytes_def be_nat_digits by simp
  then show "be_nat (take 32 (be_bytes 32 1 @ be_bytes 32 1)) \<noteq> 0" by simp
qed (simp_all add: toy_transaction_def)

end
