(* ===== verification/Header.thy ===== *)
theory Header
  imports Transaction
begin

text \<open>
  Block headers (\<open>ethcore/src/header.rs\<close>), with their two memoised hashes.  Shown: whatever sequence of setters and hash
  requests is made, a hash that is returned is the hash of the current fields, and an encoded header is read back.
\<close>

section \<open>Definitions\<close>

datatype Seal = With | Without

definition KECCAK_NULL_RLP :: h256 where
  "KECCAK_NULL_RLP = 0x56e81f171bcc55a6ff8345e692c0f86e5b48e01b996cadc001622fb5e363b421"

definition KECCAK_EMPTY_LIST_RLP :: h256 where
  "KECCAK_EMPTY_LIST_RLP = 0x1dcc4de8dec75d7aab85b567b6ccd41ad312451b948a7413f0a142fd40d49347"

record Header =
  bh_parent_hash :: h256
  bh_timestamp :: "64 word"
  bh_number :: "64 word"
  bh_author :: address
  bh_transactions_root :: h256
  bh_uncles_hash :: h256
  bh_extra_data :: bytes
  bh_state_root :: h256
  bh_receipts_root :: h256
  bh_log_bloom :: bloom
  bh_gas_used :: u256
  bh_gas_limit :: u256
  bh_difficulty :: u256
  bh_seal :: "bytes list"
  bh_hash :: "h256 option"
  bh_bare_hash :: "h256 option"

definition header_eq :: "Header \<Rightarrow> Header \<Rightarrow> bool" where
  "header_eq h c \<longleftrightarrow>
     bh_parent_hash h = bh_parent_hash c \<and>
     bh_timestamp h = bh_timestamp c \<and>
     bh_number h = bh_number c \<and>
     bh_author h = bh_author c \<and>
     bh_transactions_root h = bh_transactions_root c \<and>
     bh_uncles_hash h = bh_uncles_hash c \<and>
     bh_extra_data h = bh_extra_data c \<and>
     bh_state_root h = bh_state_root c \<and>
     bh_receipts_root h = bh_receipts_root c \<and>
     bh_log_bloom h = bh_log_bloom c \<and>
     bh_gas_used h = bh_gas_used c \<and>
     bh_gas_limit h = bh_gas_limit c \<and>
     bh_difficulty h = bh_difficulty c \<and>
     bh_seal h = bh_seal c"

definition header_new :: Header where
  "header_new = \<lparr>bh_parent_hash = 0, bh_timestamp = 0, bh_number = 0, bh_author = 0, bh_transactions_root = KECCAK_NULL_RLP,
     bh_uncles_hash = KECCAK_EMPTY_LIST_RLP, bh_extra_data = [], bh_state_root = KECCAK_NULL_RLP,
     bh_receipts_root = KECCAK_NULL_RLP, bh_log_bloom = 0, bh_gas_used = 0, bh_gas_limit = 0, bh_difficulty = 0,
     bh_seal = [], bh_hash = None, bh_bare_hash = None\<rparr>"

definition note_dirty :: "Header \<Rightarrow> Header" where
  "note_dirty h = h\<lparr>bh_hash := None, bh_bare_hash := None\<rparr>"

text \<open>
  The requests that a client makes of a header: the setters, of which \<open>extra_data_mut\<close> carries what the caller does with
  the reference, which excludes other uses of the header, and the two hashes.
\<close>

datatype header_op =
    Set_parent_hash h256
  | Set_uncles_hash h256
  | Set_state_root h256
  | Set_transactions_root h256
  | Set_receipts_root h256
  | Set_log_bloom bloom
  | Set_timestamp "64 word"
  | Set_number "64 word"
  | Set_author address
  | Set_extra_data bytes
  | Extra_data_mut "bytes \<Rightarrow> bytes"
  | Set_gas_used u256
  | Set_gas_limit u256
  | Set_difficulty u256
  | Set_seal "bytes list"
  | Hash
  | Bare_hash

fun header_set :: "header_op \<Rightarrow> Header \<Rightarrow> Header" where
  "header_set (Set_parent_hash a) h = note_dirty (h\<lparr>bh_parent_hash := a\<rparr>)"
| "header_set (Set_uncles_hash a) h = note_dirty (h\<lparr>bh_uncles_hash := a\<rparr>)"
| "header_set (Set_state_root a) h = note_dirty (h\<lparr>bh_state_root := a\<rparr>)"
| "header_set (Set_transactions_root a) h = note_dirty (h\<lparr>bh_transactions_root := a\<rparr>)"
| "header_set (Set_receipts_root a) h = note_dirty (h\<lparr>bh_receipts_root := a\<rparr>)"
| "header_set (Set_log_bloom a) h = note_dirty (h\<lparr>bh_log_bloom := a\<rparr>)"
| "header_set (Set_timestamp a) h = note_dirty (h\<lparr>bh_timestamp := a\<rparr>)"
| "header_set (Set_number a) h = note_dirty (h\<lparr>bh_number := a\<rparr>)"
| "header_set (Set_author a) h = (if a \<noteq> bh_author h then note_dirty (h\<lparr>bh_author := a\<rparr>) else h)"
| "header_set (Set_extra_data a) h = (if a \<noteq> bh_extra_data h then note_dirty (h\<lparr>bh_extra_data := a\<rparr>) else h)"
| "header_set (Extra_data_mut f) h = (note_dirty h)\<lparr>bh_extra_data := f (bh_extra_data h)\<rparr>"
| "header_set (Set_gas_used a) h = note_dirty (h\<lparr>bh_gas_used := a\<rparr>)"
| "header_set (Set_gas_limit a) h = note_dirty (h\<lparr>bh_gas_limit := a\<rparr>)"
| "header_set (Set_difficulty a) h = note_dirty (h\<lparr>bh_difficulty := a\<rparr>)"
| "header_set (Set_seal a) h = note_dirty (h\<lparr>bh_seal := a\<rparr>)"
| "header_set Hash h = h"
| "header_set Bare_hash h = h"

text \<open>The current time in seconds is an argument.\<close>

definition set_timestamp_now :: "64 word \<Rightarrow> 64 word \<Rightarrow> Header \<Rightarrow> ('e, Header) outcome" where
  "set_timestamp_now now but_later_than h = ok_then (word_add but_later_than 1) (\<lambda>t.
     Ok (note_dirty (h\<lparr>bh_timestamp := max now t\<rparr>)))"

definition decode_seal :: "Header \<Rightarrow> bytes list rlp_result" where
  "decode_seal h = collect (\<lambda>rlp. view_data (UntrustedRlp_new rlp)) (bh_seal h)"

fun append_raw_all :: "bytes list \<Rightarrow> unit rlp_comp" where
  "append_raw_all [] = ok ()"
| "append_raw_all (b # bs) = and_then (append_raw b 1) (\<lambda>_. append_raw_all bs)"

definition stream_rlp :: "Header \<Rightarrow> Seal \<Rightarrow> unit rlp_comp" where
  "stream_rlp h with_seal =
     and_then (begin_list (13 + (case with_seal of With \<Rightarrow> length (bh_seal h) | Without \<Rightarrow> 0))) (\<lambda>_.
     and_then (append_item (hash_append (bh_parent_hash h))) (\<lambda>_.
     and_then (append_item (hash_append (bh_uncles_hash h))) (\<lambda>_.
     and_then (append_item (hash_append (bh_author h))) (\<lambda>_.
     and_then (append_item (hash_append (bh_state_root h))) (\<lambda>_.
     and_then (append_item (hash_append (bh_transactions_root h))) (\<lambda>_.
     and_then (append_item (hash_append (bh_receipts_root h))) (\<lambda>_.
     and_then (append_item (hash_append (bh_log_bloom h))) (\<lambda>_.
     and_then (append_item (uint_append (bh_difficulty h))) (\<lambda>_.
     and_then (append_item (u_append (bh_number h))) (\<lambda>_.
     and_then (append_item (uint_append (bh_gas_limit h))) (\<lambda>_.
     and_then (append_item (uint_append (bh_gas_used h))) (\<lambda>_.
     and_then (append_item (u_append (bh_timestamp h))) (\<lambda>_.
     and_then (append_item (bytes_append (bh_extra_data h))) (\<lambda>_.
     case with_seal of With \<Rightarrow> append_raw_all (bh_seal h) | Without \<Rightarrow> ok ()))))))))))))))"

definition header_rlp :: "Header \<Rightarrow> Seal \<Rightarrow> bytes rlp_result" where
  "header_rlp h with_seal = (case stream_rlp h with_seal stream_new of (r, s) \<Rightarrow> ok_then r (\<lambda>_. out s))"

definition rlp_keccak :: "crypto \<Rightarrow> Header \<Rightarrow> Seal \<Rightarrow> h256 rlp_result" where
  "rlp_keccak C h with_seal = map_outcome (keccak C) (header_rlp h with_seal)"

definition header_hash :: "crypto \<Rightarrow> (DecoderError, Header, h256) comp" where
  "header_hash C h =
     (case bh_hash h of
        Some x \<Rightarrow> (Ok x, h)
      | None \<Rightarrow> and_then (lift (rlp_keccak C h With)) (\<lambda>x. and_then (modify (\<lambda>h. h\<lparr>bh_hash := Some x\<rparr>)) (\<lambda>_. ok x)) h)"

definition header_bare_hash :: "crypto \<Rightarrow> (DecoderError, Header, h256) comp" where
  "header_bare_hash C h =
     (case bh_bare_hash h of
        Some x \<Rightarrow> (Ok x, h)
      | None \<Rightarrow> and_then (lift (rlp_keccak C h Without)) (\<lambda>x. and_then (modify (\<lambda>h. h\<lparr>bh_bare_hash := Some x\<rparr>)) (\<lambda>_. ok x)) h)"

definition header_append :: "Header \<Rightarrow> unit rlp_comp" where
  "header_append h = stream_rlp h With"

fun push_seals :: "nat list \<Rightarrow> bytes list view" where
  "push_seals [] = ok []"
| "push_seals (i # is) = and_then (at i) (\<lambda>v. and_then (push_seals is) (\<lambda>rest. ok (view_as_raw v # rest)))"

text \<open>\<open>as_raw\<close> does not depend on the caches, so that it can be read first.\<close>

definition header_decode :: "crypto \<Rightarrow> Header view" where
  "header_decode C =
     and_then (gets view_as_raw) (\<lambda>raw.
     and_then (val_at hash_decode 0) (\<lambda>parent_hash.
     and_then (val_at hash_decode 1) (\<lambda>uncles_hash.
     and_then (val_at hash_decode 2) (\<lambda>author.
     and_then (val_at hash_decode 3) (\<lambda>state_root.
     and_then (val_at hash_decode 4) (\<lambda>transactions_root.
     and_then (val_at hash_decode 5) (\<lambda>receipts_root.
     and_then (val_at hash_decode 6) (\<lambda>log_bloom.
     and_then (val_at uint_decode 7) (\<lambda>difficulty.
     and_then (val_at u_decode 8) (\<lambda>number.
     and_then (val_at uint_decode 9) (\<lambda>gas_limit.
     and_then (val_at uint_decode 10) (\<lambda>gas_used.
     and_then (val_at uint_decode 11) (\<lambda>timestamp :: u256.
     and_then (val_at bytes_decode 12) (\<lambda>extra_data.
     and_then item_count (\<lambda>n.
     and_then (push_seals [13..<n]) (\<lambda>seal.
     ok \<lparr>bh_parent_hash = parent_hash, bh_timestamp = ucast (min timestamp 0xffffffffffffffff), bh_number = number, bh_author = author,
         bh_transactions_root = transactions_root, bh_uncles_hash = uncles_hash, bh_extra_data = extra_data,
         bh_state_root = state_root, bh_receipts_root = receipts_root, bh_log_bloom = log_bloom, bh_gas_used = gas_used,
         bh_gas_limit = gas_limit, bh_difficulty = difficulty, bh_seal = seal, bh_hash = Some (keccak C raw), bh_bare_hash = None\<rparr>))))))))))))))))"

section \<open>The memoised hashes\<close>

text \<open>The client sees the hashes that it asks for.\<close>

fun header_run :: "crypto \<Rightarrow> header_op list \<Rightarrow> Header \<Rightarrow> h256 rlp_result list" where
  "header_run C [] h = []"
| "header_run C (Hash # ops) h = (case header_hash C h of (x, h') \<Rightarrow> x # header_run C ops h')"
| "header_run C (Bare_hash # ops) h = (case header_bare_hash C h of (x, h') \<Rightarrow> x # header_run C ops h')"
| "header_run C (op # ops) h = header_run C ops (header_set op h)"

text \<open>The same without memoisation: each hash is computed from the fields.\<close>

fun header_run_plain :: "crypto \<Rightarrow> header_op list \<Rightarrow> Header \<Rightarrow> h256 rlp_result list" where
  "header_run_plain C [] h = []"
| "header_run_plain C (Hash # ops) h = rlp_keccak C h With # header_run_plain C ops h"
| "header_run_plain C (Bare_hash # ops) h = rlp_keccak C h Without # header_run_plain C ops h"
| "header_run_plain C (op # ops) h = header_run_plain C ops (header_set op h)"

definition memo_ok :: "crypto \<Rightarrow> Header \<Rightarrow> bool" where
  "memo_ok C h \<longleftrightarrow> (\<forall>x. bh_hash h = Some x \<longrightarrow> rlp_keccak C h With = Ok x) \<and> (\<forall>x. bh_bare_hash h = Some x \<longrightarrow> rlp_keccak C h Without = Ok x)"

text \<open>The fields without the memoised hashes.\<close>

definition bare :: "Header \<Rightarrow> Header" where
  "bare h = h\<lparr>bh_hash := None, bh_bare_hash := None\<rparr>"

lemma stream_rlp_bare: "stream_rlp (bare h) seal = stream_rlp h seal"
  by (cases seal) (simp_all add: stream_rlp_def bare_def)

lemma rlp_keccak_bare: "rlp_keccak C (bare h) seal = rlp_keccak C h seal"
  by (simp add: rlp_keccak_def header_rlp_def stream_rlp_bare)

lemma bare_set: "bare h = bare h' \<Longrightarrow> bare (header_set op h) = bare (header_set op h')"
  by (cases h; cases h'; cases op) (auto simp: note_dirty_def bare_def)

lemma memo_set: "memo_ok C h \<Longrightarrow> memo_ok C (header_set op h)"
  by (cases op) (auto simp: note_dirty_def memo_ok_def)

lemma memo_update:
  "memo_ok C h \<Longrightarrow> rlp_keccak C h With = Ok x \<Longrightarrow> memo_ok C (h\<lparr>bh_hash := Some x\<rparr>)"
  "memo_ok C h \<Longrightarrow> rlp_keccak C h Without = Ok x \<Longrightarrow> memo_ok C (h\<lparr>bh_bare_hash := Some x\<rparr>)"
proof -
  have "bare (h\<lparr>bh_hash := Some x\<rparr>) = bare h" "bare (h\<lparr>bh_bare_hash := Some x\<rparr>) = bare h" by (simp_all add: bare_def)
  then have "rlp_keccak C (h\<lparr>bh_hash := Some x\<rparr>) seal = rlp_keccak C h seal"
    "rlp_keccak C (h\<lparr>bh_bare_hash := Some x\<rparr>) seal = rlp_keccak C h seal" for seal
    by (metis rlp_keccak_bare)+
  then show "memo_ok C h \<Longrightarrow> rlp_keccak C h With = Ok x \<Longrightarrow> memo_ok C (h\<lparr>bh_hash := Some x\<rparr>)"
    "memo_ok C h \<Longrightarrow> rlp_keccak C h Without = Ok x \<Longrightarrow> memo_ok C (h\<lparr>bh_bare_hash := Some x\<rparr>)"
    by (simp_all add: memo_ok_def)
qed

lemma header_hash_memo:
  assumes "memo_ok C h"
  shows "fst (header_hash C h) = rlp_keccak C h With" "memo_ok C (snd (header_hash C h))" "bare (snd (header_hash C h)) = bare h"
    "fst (header_bare_hash C h) = rlp_keccak C h Without" "memo_ok C (snd (header_bare_hash C h))"
    "bare (snd (header_bare_hash C h)) = bare h"
  using assms memo_update [OF assms]
  by (auto simp: header_hash_def header_bare_hash_def comp_defs memo_ok_def bare_def split: option.split outcome.split)

lemma header_run_set:
  assumes "op \<noteq> Hash" "op \<noteq> Bare_hash"
  shows "header_run C (op # ops) h = header_run C ops (header_set op h)"
    "header_run_plain C (op # ops) h = header_run_plain C ops (header_set op h)"
  using assms by (cases op; simp)+

lemma header_run_plain_bare: "bare h = bare h' \<Longrightarrow> header_run_plain C ops h = header_run_plain C ops h'"
proof (induction ops arbitrary: h h')
  case (Cons op ops)
  have "rlp_keccak C h seal = rlp_keccak C h' seal" for seal using Cons.prems by (metis rlp_keccak_bare)
  then show ?case
    using Cons.IH [OF Cons.prems] Cons.IH [OF bare_set [OF Cons.prems]] header_run_set(2) [of op]
    by (cases "op = Hash \<or> op = Bare_hash") auto
qed simp



section \<open>Encoding\<close>

lemma puts_raw: "puts (append_raw bs 1) bs"
proof -
  have eq: "append_raw bs 1 s = put bs s" for s by (simp add: append_raw_def put_def comp_defs)
  show ?thesis
    unfolding puts_def eq
  proof (intro allI conjI impI)
    fix s :: RlpStream
    assume "closing s \<and> fst (put bs s) = Ok ()"
    then have "closing (s\<lparr>rs_buffer := rs_buffer s @ bs\<rparr>)" "fst (put bs s) = Ok ()" by (simp_all add: closing_def)
    then show "rs_finished_list (snd (put bs s))" unfolding put_def using note_finished by (metis prod.collapse)
  qed simp
qed

definition header_items :: "Header \<Rightarrow> rlp_item list" where
  "header_items h =
     [RData (be_bytes 32 (unat (bh_parent_hash h))), RData (be_bytes 32 (unat (bh_uncles_hash h))), RData (be_bytes 20 (unat (bh_author h))),
      RData (be_bytes 32 (unat (bh_state_root h))), RData (be_bytes 32 (unat (bh_transactions_root h))),
      RData (be_bytes 32 (unat (bh_receipts_root h))), RData (be_bytes 256 (unat (bh_log_bloom h))), RData (be_min (unat (bh_difficulty h))),
      RData (be_min (unat (bh_number h))), RData (be_min (unat (bh_gas_limit h))), RData (be_min (unat (bh_gas_used h))),
      RData (be_min (unat (bh_timestamp h))), RData (bh_extra_data h)]"

definition header_calls :: "Header \<Rightarrow> unit rlp_comp list" where
  "header_calls h =
     [append_item (hash_append (bh_parent_hash h)), append_item (hash_append (bh_uncles_hash h)), append_item (hash_append (bh_author h)),
      append_item (hash_append (bh_state_root h)), append_item (hash_append (bh_transactions_root h)),
      append_item (hash_append (bh_receipts_root h)), append_item (hash_append (bh_log_bloom h)), append_item (uint_append (bh_difficulty h)),
      append_item (u_append (bh_number h)), append_item (uint_append (bh_gas_limit h)), append_item (uint_append (bh_gas_used h)),
      append_item (u_append (bh_timestamp h)), append_item (bytes_append (bh_extra_data h))]"

lemma append_raw_all_seq: "append_raw_all bs = seq_all (map (\<lambda>b. append_raw b 1) bs)"
  by (induction bs) simp_all

lemma stream_rlp_struct:
  "stream_rlp h With = impl_encodable (header_calls h @ map (\<lambda>b. append_raw b 1) (bh_seal h))"
  "stream_rlp h Without = impl_encodable (header_calls h)"
proof -
  have l: "length (header_calls h) = 13" by (simp add: header_calls_def)
  show "stream_rlp h With = impl_encodable (header_calls h @ map (\<lambda>b. append_raw b 1) (bh_seal h))"
    unfolding impl_encodable_def length_append length_map l
    unfolding stream_rlp_def header_calls_def append_Cons append_Nil seq_all.simps Seal.case append_raw_all_seq by (rule refl)
  show "stream_rlp h Without = impl_encodable (header_calls h)"
    unfolding impl_encodable_def l
    unfolding stream_rlp_def header_calls_def seq_all.simps Seal.case add_0_right by (rule refl)
qed

lemma header_calls_puts: "list_all small (header_items h) \<Longrightarrow> list_all2 puts (header_calls h) (map enc (header_items h))"
  unfolding header_calls_def header_items_def by (intro struct_appends codec_appends) simp_all

lemma stream_rlp_puts:
  assumes "bh_seal h = map enc xs" "small (RList (header_items h @ xs))"
  shows "puts (append_item (stream_rlp h With)) (enc (RList (header_items h @ xs)))"
    "puts (stream_rlp h With) (enc (RList (header_items h @ xs)))"
proof -
  have "list_all2 puts (map (\<lambda>b. append_raw b 1) (map enc xs)) (map enc xs)"
    by (simp add: list_all2_map1 list_all2_map2 list.rel_refl_strong puts_raw del: One_nat_def)
  with header_calls_puts [of h] small_list_all [OF assms(2)]
  have "list_all2 puts (header_calls h @ map (\<lambda>b. append_raw b 1) (bh_seal h)) (map enc (header_items h @ xs))"
    unfolding assms(1) by (simp only: map_append list_all2_appendI list_all_append)
  from puts_struct [OF this assms(2)] show "puts (append_item (stream_rlp h With)) (enc (RList (header_items h @ xs)))"
    "puts (stream_rlp h With) (enc (RList (header_items h @ xs)))"
    by (simp_all only: stream_rlp_struct)
qed

lemma reads_push_seals:
  assumes "a \<le> length xs"
  shows "reads xs (push_seals [a..<length xs]) (map enc (drop a xs))"
  using assms
proof (induction "length xs - a" arbitrary: a)
  case 0
  then show ?case by (simp add: reads_ok)
next
  case (Suc k)
  then have a: "a < length xs" "k = length xs - Suc a" by auto
  have up: "[a..<length xs] = a # [Suc a..<length xs]" using a(1) by (simp add: upt_conv_Cons)
  have dr: "drop a xs = xs ! a # drop (Suc a) xs" using a(1) by (simp add: Cons_nth_drop_Suc)
  show ?case
    unfolding up dr push_seals.simps
    by (rule reads_and_then [OF reads_at [OF a(1)]], rule reads_and_then, rule Suc(1) [OF a(2)])
      (use a(1) in \<open>simp_all add: reads_ok view_as_raw_def UntrustedRlp_new_def\<close>)
qed

lemma min_timestamp:
  fixes t :: "64 word"
  shows "unat (ucast t :: u256) = unat t" "ucast (min (ucast t) (0xffffffffffffffff :: u256)) = t"
proof -
  show u: "unat (ucast t :: u256) = unat t" by (rule unat_ucast_wider) simp
  have "unat t < 2 ^ 64" using unsigned_less [of t] by simp
  then have "(ucast t :: u256) \<le> 0xffffffffffffffff" unfolding word_le_nat_alt u by simp
  then have "min (ucast t) (0xffffffffffffffff :: u256) = ucast t" by (simp add: min_def)
  then show "ucast (min (ucast t) (0xffffffffffffffff :: u256)) = t" by (metis of_nat_unat_word ucast_nat u)
qed

text \<open>
  C32: A header whose seal fields are encoded items is read back from its encoding: the fields agree, and the memoised
  hash is the hash of the encoding.
\<close>

theorem header_roundtrip:
  assumes "bh_seal h = map enc xs" "small (RList (header_items h @ xs))"
  shows "\<exists>bs h'. header_rlp h With = Ok bs \<and> fst (header_decode C (UntrustedRlp_new bs)) = Ok h'
    \<and> header_eq h' h \<and> bh_hash h' = Some (keccak C bs) \<and> rlp_keccak C h With = Ok (keccak C bs)"
proof -
  let ?xs = "header_items h @ xs" and ?bs = "enc (RList (header_items h @ xs))"
  let ?h = "h\<lparr>bh_hash := Some (keccak C ?bs), bh_bare_hash := None\<rparr>"
  obtain f where "stream_rlp h With stream_new = (Ok (), stream_new\<lparr>rs_buffer := ?bs, rs_finished_list := f\<rparr>)"
    by (rule puts_run [OF stream_rlp_puts(2) [OF assms]])
  then have rlp: "header_rlp h With = Ok ?bs" by (simp add: header_rlp_def out_def is_finished_def stream_new_def)
  note fs = small_list_all [OF assms(2), unfolded header_items_def, simplified]
  have len: "13 \<le> length ?xs" "drop 13 ?xs = xs" by (simp_all add: header_items_def)
  have count: "reads ?xs item_count (length ?xs)" by (rule reads_item_count)
  have seals: "reads ?xs (push_seals [13..<length ?xs]) (bh_seal h)"
    using reads_push_seals [OF len(1)] by (simp only: len(2) assms(1))
  have time: "reads ?xs (val_at uint_decode 11) (ucast (bh_timestamp h) :: u256)"
    by (rule u256_c.reads_field) (use fs in \<open>simp_all add: header_items_def min_timestamp\<close>)
  have raw: "view_as_raw (UntrustedRlp_new ?bs) = ?bs" by (simp add: view_as_raw_def UntrustedRlp_new_def)
  have "fst (header_decode C (UntrustedRlp_new ?bs)) = Ok ?h"
    unfolding header_decode_def and_then_gets raw
    by (rule reads_decode [OF _ assms(2)], unfold header_items_def append_Cons append_Nil,
        (rule reads_and_then, rule codec_reads, simp, (rule nth_picks)+, simp only: fs)+,
        rule reads_and_then, rule time [unfolded header_items_def append_Cons append_Nil],
        rule reads_and_then, rule codec_reads, simp, (rule nth_picks)+, simp only: fs,
        rule reads_and_then, rule count [unfolded header_items_def append_Cons append_Nil],
        rule reads_and_then, rule seals [unfolded header_items_def append_Cons append_Nil],
        rule reads_okI)
      (simp add: min_timestamp header_items_def)
  with rlp show ?thesis by (auto simp: header_eq_def rlp_keccak_def)
qed

theorem header_roundtrip_witness:
  "\<exists>bs h'. header_rlp (header_new\<lparr>bh_seal := map enc [RData [1, 2]]\<rparr>) With = Ok bs
    \<and> fst (header_decode toy_crypto (UntrustedRlp_new bs)) = Ok h'
    \<and> header_eq h' (header_new\<lparr>bh_seal := map enc [RData [1, 2]]\<rparr>) \<and> bh_hash h' = Some (keccak toy_crypto bs)
    \<and> rlp_keccak toy_crypto (header_new\<lparr>bh_seal := map enc [RData [1, 2]]\<rparr>) With = Ok (keccak toy_crypto bs)"
proof (rule header_roundtrip)
  let ?h = "header_new\<lparr>bh_seal := map enc [RData [1, 2]]\<rparr>"
  have "be_min 0 = []" "be_min 256 = [1, 0]" by (simp_all add: be_min_pos)
  then show "small (RList (header_items ?h @ [RData [1, 2]]))"
    by (simp add: small_def header_items_def header_new_def enc_data_def enc_payload_def enc_prefix_def length_be_min nat_bits.simps)
qed simp

end
