(* ===== verification/State_Account.thy ===== *)
theory State_Account
  imports Header Memory_Cache "HOL-Library.AList"
begin

text \<open>
  Accounts of the state: \<open>ethcore/src/state/account.rs\<close>.  An account keeps the changes to its storage and code until
  they are committed, and caches what it has read.  The cache of storage is one of the crate \<open>lru-cache\<close>, whose
  operations are the record of \<open>Memory_Cache\<close>, here with the iteration over the entries; \<open>keccak\<close> and the
  databases are parameters.  A hash map is an association list with distinct keys.  Methods with a shared receiver that
  write into a \<open>RefCell\<close> return the account they leave behind.
\<close>

section \<open>Definitions\<close>

record ('l, 'k, 'v) lru_iter_ops = "('l, 'k, 'v) lru_ops" +
  lru_into_iter :: "'l \<Rightarrow> ('k \<times> 'v) list"

type_synonym 'l storage_lru = "('l, h256, h256) lru_iter_ops"

definition STORAGE_CACHE_ITEMS :: nat where
  "STORAGE_CACHE_ITEMS = 8192"

datatype Filth = Clean_code | Dirty_code

record 'l Account =
  ac_balance :: u256
  ac_nonce :: u256
  ac_storage_root :: h256
  ac_storage_cache :: 'l
  ac_storage_changes :: "(h256 \<times> h256) list"
  ac_code_hash :: h256
  ac_code_size :: "nat option"
  ac_code_cache :: bytes
  ac_code_filth :: Filth
  ac_address_hash :: "h256 option"

definition empty_storage_cache :: "'l storage_lru \<Rightarrow> 'l" where
  "empty_storage_cache L = lru_new L STORAGE_CACHE_ITEMS"

definition account_from :: "'l storage_lru \<Rightarrow> BasicAccount \<Rightarrow> 'l Account" where
  "account_from L basic =
     \<lparr>ac_balance = ba_balance basic, ac_nonce = ba_nonce basic, ac_storage_root = ba_storage_root basic,
      ac_storage_cache = empty_storage_cache L, ac_storage_changes = [], ac_code_hash = ba_code_hash basic,
      ac_code_size = None, ac_code_cache = [], ac_code_filth = Clean_code, ac_address_hash = None\<rparr>"

definition account_new_basic :: "'l storage_lru \<Rightarrow> u256 \<Rightarrow> u256 \<Rightarrow> 'l Account" where
  "account_new_basic L balance nonce =
     \<lparr>ac_balance = balance, ac_nonce = nonce, ac_storage_root = KECCAK_NULL_RLP,
      ac_storage_cache = empty_storage_cache L, ac_storage_changes = [], ac_code_hash = KECCAK_EMPTY,
      ac_code_size = Some 0, ac_code_cache = [], ac_code_filth = Clean_code, ac_address_hash = None\<rparr>"

text \<open>\<open>rlp::decode\<close> unwraps the result: malformed bytes in the trie are a panic.\<close>

definition account_from_rlp :: "'l storage_lru \<Rightarrow> bytes \<Rightarrow> 'l Account rlp_result" where
  "account_from_rlp L rlp = map_outcome (account_from L) (fst (Rlp_as_val BasicAccount_decode (UntrustedRlp_new rlp)))"

definition account_new_contract :: "'l storage_lru \<Rightarrow> u256 \<Rightarrow> u256 \<Rightarrow> 'l Account" where
  "account_new_contract L balance nonce =
     \<lparr>ac_balance = balance, ac_nonce = nonce, ac_storage_root = KECCAK_NULL_RLP,
      ac_storage_cache = empty_storage_cache L, ac_storage_changes = [], ac_code_hash = KECCAK_EMPTY,
      ac_code_size = None, ac_code_cache = [], ac_code_filth = Clean_code, ac_address_hash = None\<rparr>"

definition account_init_code :: "(bytes \<Rightarrow> h256) \<Rightarrow> bytes \<Rightarrow> 'l Account \<Rightarrow> 'l Account" where
  "account_init_code kec code ac = ac\<lparr>ac_code_hash := kec code, ac_code_cache := code,
     ac_code_size := Some (length code), ac_code_filth := Dirty_code\<rparr>"

definition account_reset_code :: "(bytes \<Rightarrow> h256) \<Rightarrow> bytes \<Rightarrow> 'l Account \<Rightarrow> 'l Account" where
  "account_reset_code kec code ac = account_init_code kec code ac"

definition account_set_storage :: "h256 \<Rightarrow> h256 \<Rightarrow> 'l Account \<Rightarrow> 'l Account" where
  "account_set_storage key v ac = ac\<lparr>ac_storage_changes := AList.update key v (ac_storage_changes ac)\<rparr>"

definition cached_storage_at :: "'l storage_lru \<Rightarrow> h256 \<Rightarrow> 'l Account \<Rightarrow> h256 option \<times> 'l Account" where
  "cached_storage_at L key ac = (case map_of (ac_storage_changes ac) key of
     Some v \<Rightarrow> (Some v, ac)
   | None \<Rightarrow> (fst (lru_get_mut L key (ac_storage_cache ac)),
              ac\<lparr>ac_storage_cache := snd (lru_get_mut L key (ac_storage_cache ac))\<rparr>))"

text \<open>
  \<open>db\<close> is the storage trie: for a root and a key, the bytes stored there, or the error of opening or reading the trie.
\<close>

type_synonym 'e storage_db = "h256 \<Rightarrow> h256 \<Rightarrow> 'e + bytes option"

definition account_storage_at :: "'l storage_lru \<Rightarrow> 'e storage_db \<Rightarrow> h256 \<Rightarrow> ('e, 'l Account, h256) comp" where
  "account_storage_at L db key ac = (case cached_storage_at L key ac of
     (Some v, ac1) \<Rightarrow> (Ok v, ac1)
   | (None, ac1) \<Rightarrow> (case db (ac_storage_root ac1) key of
       Inl e \<Rightarrow> (Err e, ac1)
     | Inr item \<Rightarrow>
         (case (case item of None \<Rightarrow> Ok 0
                | Some bs \<Rightarrow> no_err (fst (Rlp_as_val uint_decode (UntrustedRlp_new bs)))) of
            Ok v \<Rightarrow> (Ok v, ac1\<lparr>ac_storage_cache := snd (lru_insert L key v (ac_storage_cache ac1))\<rparr>)
          | Err e \<Rightarrow> (Err e, ac1)
          | Panic p \<Rightarrow> (Panic p, ac1))))"

definition account_address_hash :: "(bytes \<Rightarrow> h256) \<Rightarrow> address \<Rightarrow> 'l Account \<Rightarrow> h256 \<times> 'l Account" where
  "account_address_hash kec address ac = (case ac_address_hash ac of
     Some h \<Rightarrow> (h, ac)
   | None \<Rightarrow> (let h = kec (be_bytes 20 (unat address)) in (h, ac\<lparr>ac_address_hash := Some h\<rparr>)))"

definition account_code :: "'l Account \<Rightarrow> bytes option" where
  "account_code ac = (if ac_code_hash ac \<noteq> KECCAK_EMPTY \<and> ac_code_cache ac = [] then None else Some (ac_code_cache ac))"

definition account_is_cached :: "'l Account \<Rightarrow> bool" where
  "account_is_cached ac \<longleftrightarrow> ac_code_cache ac \<noteq> [] \<or> ac_code_cache ac = [] \<and> ac_code_hash ac = KECCAK_EMPTY"

definition account_cache_code :: "(h256 \<Rightarrow> bytes option) \<Rightarrow> 'l Account \<Rightarrow> bytes option \<times> 'l Account" where
  "account_cache_code db ac =
     (if account_is_cached ac then (Some (ac_code_cache ac), ac)
      else case db (ac_code_hash ac) of
        Some x \<Rightarrow> (Some x, ac\<lparr>ac_code_size := Some (length x), ac_code_cache := x\<rparr>)
      | None \<Rightarrow> (None, ac))"

definition cache_given_code :: "bytes \<Rightarrow> 'l Account \<Rightarrow> 'l Account" where
  "cache_given_code code ac = ac\<lparr>ac_code_size := Some (length code), ac_code_cache := code\<rparr>"

definition cache_code_size :: "(h256 \<Rightarrow> bytes option) \<Rightarrow> 'l Account \<Rightarrow> bool \<times> 'l Account" where
  "cache_code_size db ac =
     (if ac_code_size ac \<noteq> None then (True, ac)
      else if ac_code_hash ac \<noteq> KECCAK_EMPTY then (case db (ac_code_hash ac) of
          Some x \<Rightarrow> (True, ac\<lparr>ac_code_size := Some (length x)\<rparr>)
        | None \<Rightarrow> (False, ac))
      else (False, ac))"

definition storage_is_clean :: "'l Account \<Rightarrow> bool" where
  "storage_is_clean ac \<longleftrightarrow> ac_storage_changes ac = []"

definition account_is_null :: "'l Account \<Rightarrow> bool" where
  "account_is_null ac \<longleftrightarrow> ac_balance ac = 0 \<and> ac_nonce ac = 0 \<and> ac_code_hash ac = KECCAK_EMPTY"

definition account_is_empty :: "'l Account \<Rightarrow> ('e, bool) outcome" where
  "account_is_empty ac =
     (if storage_is_clean ac then Ok (account_is_null ac \<and> ac_storage_root ac = KECCAK_NULL_RLP) else Panic Assert_failed)"

definition account_is_basic :: "'l Account \<Rightarrow> bool" where
  "account_is_basic ac \<longleftrightarrow> ac_code_hash ac = KECCAK_EMPTY"

definition account_storage_root :: "'l Account \<Rightarrow> h256 option" where
  "account_storage_root ac = (if storage_is_clean ac then Some (ac_storage_root ac) else None)"

text \<open>The arithmetic of \<open>U256\<close> panics when it overflows.\<close>

definition account_inc_nonce :: "'l Account \<Rightarrow> ('e, 'l Account) outcome" where
  "account_inc_nonce ac = map_outcome (\<lambda>n. ac\<lparr>ac_nonce := n\<rparr>) (word_add (ac_nonce ac) 1)"

definition account_add_balance :: "u256 \<Rightarrow> 'l Account \<Rightarrow> ('e, 'l Account) outcome" where
  "account_add_balance x ac = map_outcome (\<lambda>b. ac\<lparr>ac_balance := b\<rparr>) (word_add (ac_balance ac) x)"

definition account_sub_balance :: "u256 \<Rightarrow> 'l Account \<Rightarrow> ('e, 'l Account) outcome" where
  "account_sub_balance x ac =
     (if x \<le> ac_balance ac then map_outcome (\<lambda>b. ac\<lparr>ac_balance := b\<rparr>) (word_sub (ac_balance ac) x) else Panic Assert_failed)"

definition account_rlp :: "'l Account \<Rightarrow> bytes rlp_result" where
  "account_rlp ac = ok_then (new_list 4) (\<lambda>s.
     ok_then (fst (and_then (append_item (uint_append (ac_nonce ac))) (\<lambda>_.
       and_then (append_item (uint_append (ac_balance ac))) (\<lambda>_.
       and_then (append_item (hash_append (ac_storage_root ac))) (\<lambda>_.
       and_then (append_item (hash_append (ac_code_hash ac))) (\<lambda>_. gets out)))) s)) id)"

definition clone_basic :: "'l storage_lru \<Rightarrow> 'l Account \<Rightarrow> 'l Account" where
  "clone_basic L ac = ac\<lparr>ac_storage_cache := empty_storage_cache L, ac_storage_changes := []\<rparr>"

definition account_clone_dirty :: "'l storage_lru \<Rightarrow> 'l Account \<Rightarrow> 'l Account" where
  "account_clone_dirty L ac = (clone_basic L ac)\<lparr>ac_storage_changes := ac_storage_changes ac, ac_code_cache := ac_code_cache ac\<rparr>"

definition account_clone_all :: "'l storage_lru \<Rightarrow> 'l Account \<Rightarrow> 'l Account" where
  "account_clone_all L ac = (account_clone_dirty L ac)\<lparr>ac_storage_cache := ac_storage_cache ac\<rparr>"

definition account_overwrite_with :: "'l storage_lru \<Rightarrow> 'l Account \<Rightarrow> 'l Account \<Rightarrow> 'l Account" where
  "account_overwrite_with L other ac = ac\<lparr>ac_balance := ac_balance other, ac_nonce := ac_nonce other,
     ac_storage_root := ac_storage_root other, ac_code_hash := ac_code_hash other, ac_code_filth := ac_code_filth other,
     ac_code_cache := ac_code_cache other, ac_code_size := ac_code_size other, ac_address_hash := ac_address_hash other,
     ac_storage_cache := fold (\<lambda>(k, v) c. snd (lru_insert L k v c)) (lru_into_iter L (ac_storage_cache other)) (ac_storage_cache ac),
     ac_storage_changes := ac_storage_changes other\<rparr>"

end
