(* ===== verification/State_Cache.thy ===== *)
theory State_Cache
  imports State_Account
begin

text \<open>
  The state of the accounts with its cache and its checkpoints: \<open>ethcore/src/state/mod.rs\<close> and \<open>substate.rs\<close>.  The
  backend (the trait of \<open>backend.rs\<close>), the tries and the account databases are the operations of a record.  Shown: reverting
  to a checkpoint restores every account, unless an account was killed in between, in which case it is lost.
\<close>

section \<open>Definitions\<close>

text \<open>
  The trait \<open>Backend\<close> with what the state reads through \<open>as_hashdb\<close>.  The closure that \<open>get_cached\<close> runs may change the
  account in the shared cache: \<open>be_get_cached\<close> is the account it gets and \<open>be_put_cached\<close> stores the account it leaves.
  \<open>be_trie_open\<close> is the error of opening the trie of a root, \<open>be_trie\<close> reads an account, \<open>be_storage\<close> the storage of the
  account with an address hash, and \<open>be_code\<close> a code from the database of that account.
\<close>

record ('b, 'l, 'e) backend =
  be_lru :: "'l storage_lru"
  be_keccak :: "bytes \<Rightarrow> h256"
  be_get_cached_account :: "'b \<Rightarrow> address \<Rightarrow> 'l Account option option"
  be_get_cached :: "'b \<Rightarrow> address \<Rightarrow> 'l Account option option"
  be_put_cached :: "address \<Rightarrow> 'l Account \<Rightarrow> 'b \<Rightarrow> 'b"
  be_get_cached_code :: "'b \<Rightarrow> h256 \<Rightarrow> bytes option"
  be_cache_code :: "h256 \<Rightarrow> bytes \<Rightarrow> 'b \<Rightarrow> 'b"
  be_is_known_null :: "'b \<Rightarrow> address \<Rightarrow> bool"
  be_trie_open :: "'b \<Rightarrow> h256 \<Rightarrow> 'e option"
  be_trie :: "'b \<Rightarrow> h256 \<Rightarrow> address \<Rightarrow> 'e + bytes option"
  be_storage :: "'b \<Rightarrow> h256 \<Rightarrow> 'e storage_db"
  be_code :: "'b \<Rightarrow> h256 \<Rightarrow> h256 \<Rightarrow> bytes option"

datatype AccountState = CleanFresh | CleanCached | Dirty | Committed

record 'l AccountEntry =
  ae_account :: "'l Account option"
  ae_old_balance :: "u256 option"
  ae_state :: AccountState

definition entry_is_dirty :: "'l AccountEntry \<Rightarrow> bool" where
  "entry_is_dirty e \<longleftrightarrow> ae_state e = Dirty"

definition exists_and_is_null :: "'l AccountEntry \<Rightarrow> bool" where
  "exists_and_is_null e = (case ae_account e of None \<Rightarrow> False | Some ac \<Rightarrow> account_is_null ac)"

definition entry_clone_dirty :: "'l storage_lru \<Rightarrow> 'l AccountEntry \<Rightarrow> 'l AccountEntry" where
  "entry_clone_dirty L e = e\<lparr>ae_account := map_option (account_clone_dirty L) (ae_account e)\<rparr>"

definition clone_if_dirty :: "'l storage_lru \<Rightarrow> 'l AccountEntry \<Rightarrow> 'l AccountEntry option" where
  "clone_if_dirty L e = (if entry_is_dirty e then Some (entry_clone_dirty L e) else None)"

definition new_dirty :: "'l Account option \<Rightarrow> 'l AccountEntry" where
  "new_dirty account = \<lparr>ae_account = account, ae_old_balance = map_option ac_balance account, ae_state = Dirty\<rparr>"

definition new_clean :: "'l Account option \<Rightarrow> 'l AccountEntry" where
  "new_clean account = \<lparr>ae_account = account, ae_old_balance = map_option ac_balance account, ae_state = CleanFresh\<rparr>"

definition new_clean_cached :: "'l Account option \<Rightarrow> 'l AccountEntry" where
  "new_clean_cached account = \<lparr>ae_account = account, ae_old_balance = map_option ac_balance account, ae_state = CleanCached\<rparr>"

definition entry_overwrite_with :: "'l storage_lru \<Rightarrow> 'l AccountEntry \<Rightarrow> 'l AccountEntry \<Rightarrow> 'l AccountEntry" where
  "entry_overwrite_with L other e =
     (let e1 = e\<lparr>ae_state := ae_state other\<rparr> in
      case ae_account other of
        Some acc \<Rightarrow> (case ae_account e1 of
            Some ours \<Rightarrow> e1\<lparr>ae_account := Some (account_overwrite_with L acc ours)\<rparr>
          | None \<Rightarrow> e1)
      | None \<Rightarrow> e1\<lparr>ae_account := None\<rparr>)"

text \<open>The checkpoints are listed with the innermost one first.\<close>

record ('b, 'l) State =
  sa_db :: 'b
  sa_root :: h256
  sa_cache :: "(address \<times> 'l AccountEntry) list"
  sa_checkpoints :: "(address \<times> 'l AccountEntry option) list list"
  sa_account_start_nonce :: u256

datatype RequireCache = RequireNone | RequireCodeSize | RequireCode

datatype CleanupMode = ForceCreate | NoEmpty | TrackTouched "address set"

type_synonym ('b, 'l, 'e, 'a) state_comp = "('e, ('b, 'l) State, 'a) comp"

text \<open>\<open>from_existing\<close>: the argument \<open>contains\<close> tells whether the database has the root.\<close>

definition from_existing :: "('b \<Rightarrow> h256 \<Rightarrow> bool) \<Rightarrow> (h256 \<Rightarrow> 'e) \<Rightarrow> 'b \<Rightarrow> h256 \<Rightarrow> u256 \<Rightarrow> ('e, ('b, 'l) State) outcome" where
  "from_existing contains InvalidStateRoot db root start =
     (if contains db root
      then Ok \<lparr>sa_db = db, sa_root = root, sa_cache = [], sa_checkpoints = [], sa_account_start_nonce = start\<rparr>
      else Err (InvalidStateRoot root))"

definition or_insert :: "'k \<Rightarrow> 'v \<Rightarrow> ('k \<times> 'v) list \<Rightarrow> ('k \<times> 'v) list" where
  "or_insert k v m = (case map_of m k of None \<Rightarrow> AList.update k v m | Some _ \<Rightarrow> m)"

definition checkpoint :: "('b, 'l) State \<Rightarrow> ('b, 'l) State" where
  "checkpoint s = s\<lparr>sa_checkpoints := [] # sa_checkpoints s\<rparr>"

definition discard_checkpoint :: "('b, 'l) State \<Rightarrow> ('b, 'l) State" where
  "discard_checkpoint s = (case sa_checkpoints s of
     cp # prev # cps \<Rightarrow> s\<lparr>sa_checkpoints := (if prev = [] then cp else fold (\<lambda>(k, v). or_insert k v) cp prev) # cps\<rparr>
   | [_] \<Rightarrow> s\<lparr>sa_checkpoints := []\<rparr>
   | [] \<Rightarrow> s)"

definition restore_entry ::
  "'l storage_lru \<Rightarrow> address \<Rightarrow> 'l AccountEntry option \<Rightarrow> (address \<times> 'l AccountEntry) list \<Rightarrow> (address \<times> 'l AccountEntry) list" where
  "restore_entry L k v cache = (case v of
     Some v \<Rightarrow> (case map_of cache k of
         Some e \<Rightarrow> AList.update k (entry_overwrite_with L v e) cache
       | None \<Rightarrow> AList.update k v cache)
   | None \<Rightarrow> (case map_of cache k of
         Some e \<Rightarrow> if entry_is_dirty e then AList.delete k cache else cache
       | None \<Rightarrow> cache))"

definition revert_to_checkpoint :: "'l storage_lru \<Rightarrow> ('b, 'l) State \<Rightarrow> ('b, 'l) State" where
  "revert_to_checkpoint L s = (case sa_checkpoints s of
     cp # cps \<Rightarrow> s\<lparr>sa_checkpoints := cps, sa_cache := fold (\<lambda>(k, v). restore_entry L k v) cp (sa_cache s)\<rparr>
   | [] \<Rightarrow> s)"

definition insert_cache :: "address \<Rightarrow> 'l AccountEntry \<Rightarrow> ('b, 'l) State \<Rightarrow> ('b, 'l) State" where
  "insert_cache a account s =
     (let old_value = map_of (sa_cache s) a;
          s1 = s\<lparr>sa_cache := AList.update a account (sa_cache s)\<rparr>
      in if entry_is_dirty account then (case sa_checkpoints s of
             cp # cps \<Rightarrow> s1\<lparr>sa_checkpoints := or_insert a old_value cp # cps\<rparr>
           | [] \<Rightarrow> s1)
         else s1)"

definition note_cache :: "'l storage_lru \<Rightarrow> address \<Rightarrow> ('b, 'l) State \<Rightarrow> ('b, 'l) State" where
  "note_cache L a s = (case sa_checkpoints s of
     cp # cps \<Rightarrow> s\<lparr>sa_checkpoints := or_insert a (map_option (entry_clone_dirty L) (map_of (sa_cache s) a)) cp # cps\<rparr>
   | [] \<Rightarrow> s)"

definition state_new_contract :: "('b, 'l, 'e) backend \<Rightarrow> address \<Rightarrow> u256 \<Rightarrow> u256 \<Rightarrow> ('b, 'l, 'e, unit) state_comp" where
  "state_new_contract W contract balance nonce_offset =
     and_then (\<lambda>s. (word_add (sa_account_start_nonce s) nonce_offset, s)) (\<lambda>nonce.
     modify (insert_cache contract (new_dirty (Some (account_new_contract (be_lru W) balance nonce)))))"

definition kill_account :: "address \<Rightarrow> ('b, 'l) State \<Rightarrow> ('b, 'l) State" where
  "kill_account a s = insert_cache a (new_dirty None) s"

text \<open>\<open>db.get_with(a, Account::from_rlp)\<close> of the trie of the state.\<close>

definition load_account :: "('b, 'l, 'e) backend \<Rightarrow> 'b \<Rightarrow> h256 \<Rightarrow> address \<Rightarrow> ('e, 'l Account option) outcome" where
  "load_account W b root a = (case be_trie W b root a of
     Inl e \<Rightarrow> Err e
   | Inr None \<Rightarrow> Ok None
   | Inr (Some bs) \<Rightarrow> map_outcome Some (no_err (account_from_rlp (be_lru W) bs)))"

text \<open>\<open>readonly(..)?\<close> followed by the lookup.\<close>

definition open_and_load :: "('b, 'l, 'e) backend \<Rightarrow> 'b \<Rightarrow> h256 \<Rightarrow> address \<Rightarrow> ('e, 'l Account option) outcome" where
  "open_and_load W b root a = (case be_trie_open W b root of Some e \<Rightarrow> Err e | None \<Rightarrow> load_account W b root a)"

definition update_account_cache ::
  "('b, 'l, 'e) backend \<Rightarrow> RequireCache \<Rightarrow> h256 \<Rightarrow> 'l Account \<times> 'b \<Rightarrow> 'l Account \<times> 'b" where
  "update_account_cache W require addr_hash x = (case x of (ac, b) \<Rightarrow>
     if require = RequireNone \<or> account_is_cached ac then (ac, b)
     else case be_get_cached_code W b (ac_code_hash ac) of
       Some code \<Rightarrow> (cache_given_code code ac, b)
     | None \<Rightarrow> (case require of
         RequireNone \<Rightarrow> (ac, b)
       | RequireCode \<Rightarrow> (case account_cache_code (be_code W b addr_hash) ac of
             (Some code, ac1) \<Rightarrow> (ac1, be_cache_code W (ac_code_hash ac) code b)
           | (None, ac1) \<Rightarrow> (ac1, b))
       | RequireCodeSize \<Rightarrow> (snd (cache_code_size (be_code W b addr_hash) ac), b)))"

text \<open>The account database is opened for the hash of the address before the code is looked up.\<close>

definition with_code :: "('b, 'l, 'e) backend \<Rightarrow> RequireCache \<Rightarrow> address \<Rightarrow> 'l Account \<Rightarrow> 'b \<Rightarrow> 'l Account \<times> 'b" where
  "with_code W require a ac b = (case account_address_hash (be_keccak W) a ac of
     (h, ac1) \<Rightarrow> update_account_cache W require h (ac1, b))"

definition ensure_cached ::
  "('b, 'l, 'e) backend \<Rightarrow> address \<Rightarrow> RequireCache \<Rightarrow> bool \<Rightarrow> ('l Account option \<Rightarrow> 'u) \<Rightarrow> ('b, 'l, 'e, 'u) state_comp" where
  "ensure_cached W a require check_null f s = (case map_of (sa_cache s) a of
     Some e \<Rightarrow> (case ae_account e of
         Some ac \<Rightarrow> (case with_code W require a ac (sa_db s) of (ac1, b1) \<Rightarrow>
           (Ok (f (Some ac1)), s\<lparr>sa_db := b1, sa_cache := AList.update a (e\<lparr>ae_account := Some ac1\<rparr>) (sa_cache s)\<rparr>))
       | None \<Rightarrow> (Ok (f None), s))
   | None \<Rightarrow> (case be_get_cached W (sa_db s) a of
       Some (Some ac) \<Rightarrow> (case with_code W require a ac (sa_db s) of (ac1, b1) \<Rightarrow>
         (Ok (f (Some ac1)), s\<lparr>sa_db := be_put_cached W a ac1 b1\<rparr>))
     | Some None \<Rightarrow> (Ok (f None), s)
     | None \<Rightarrow>
         if check_null \<and> be_is_known_null W (sa_db s) a then (Ok (f None), s)
         else (case open_and_load W (sa_db s) (sa_root s) a of
             Ok (Some ac) \<Rightarrow> (case with_code W require a ac (sa_db s) of (ac1, b1) \<Rightarrow>
               (Ok (f (Some ac1)), insert_cache a (new_clean (Some ac1)) (s\<lparr>sa_db := b1\<rparr>)))
           | Ok None \<Rightarrow> (Ok (f None), insert_cache a (new_clean None) s)
           | Err e \<Rightarrow> (Err e, s)
           | Panic p \<Rightarrow> (Panic p, s))))"

definition state_exists :: "('b, 'l, 'e) backend \<Rightarrow> address \<Rightarrow> ('b, 'l, 'e, bool) state_comp" where
  "state_exists W a = ensure_cached W a RequireNone False (\<lambda>ac. ac \<noteq> None)"

definition exists_and_not_null :: "('b, 'l, 'e) backend \<Rightarrow> address \<Rightarrow> ('b, 'l, 'e, bool) state_comp" where
  "exists_and_not_null W a = ensure_cached W a RequireNone False
     (\<lambda>ac. case ac of None \<Rightarrow> False | Some ac \<Rightarrow> \<not> account_is_null ac)"

definition exists_and_has_code_or_nonce :: "('b, 'l, 'e) backend \<Rightarrow> address \<Rightarrow> ('b, 'l, 'e, bool) state_comp" where
  "exists_and_has_code_or_nonce W a = and_then (gets sa_account_start_nonce) (\<lambda>start.
     ensure_cached W a RequireCodeSize False
       (\<lambda>ac. case ac of None \<Rightarrow> False | Some ac \<Rightarrow> ac_code_hash ac \<noteq> KECCAK_EMPTY \<or> ac_nonce ac \<noteq> start))"

definition state_balance :: "('b, 'l, 'e) backend \<Rightarrow> address \<Rightarrow> ('b, 'l, 'e, u256) state_comp" where
  "state_balance W a = ensure_cached W a RequireNone True (\<lambda>ac. case ac of None \<Rightarrow> 0 | Some ac \<Rightarrow> ac_balance ac)"

definition state_nonce :: "('b, 'l, 'e) backend \<Rightarrow> address \<Rightarrow> ('b, 'l, 'e, u256) state_comp" where
  "state_nonce W a = and_then (gets sa_account_start_nonce) (\<lambda>start.
     ensure_cached W a RequireNone True (\<lambda>ac. case ac of None \<Rightarrow> start | Some ac \<Rightarrow> ac_nonce ac))"

definition state_storage_root :: "('b, 'l, 'e) backend \<Rightarrow> address \<Rightarrow> ('b, 'l, 'e, h256 option) state_comp" where
  "state_storage_root W a = ensure_cached W a RequireNone True (\<lambda>ac. Option.bind ac account_storage_root)"

definition state_code :: "('b, 'l, 'e) backend \<Rightarrow> address \<Rightarrow> ('b, 'l, 'e, bytes option) state_comp" where
  "state_code W a = ensure_cached W a RequireCode True (\<lambda>ac. Option.bind ac account_code)"

definition state_code_hash :: "('b, 'l, 'e) backend \<Rightarrow> address \<Rightarrow> ('b, 'l, 'e, h256) state_comp" where
  "state_code_hash W a = ensure_cached W a RequireNone True (\<lambda>ac. case ac of None \<Rightarrow> KECCAK_EMPTY | Some ac \<Rightarrow> ac_code_hash ac)"

definition state_code_size :: "('b, 'l, 'e) backend \<Rightarrow> address \<Rightarrow> ('b, 'l, 'e, nat option) state_comp" where
  "state_code_size W a = ensure_cached W a RequireCodeSize True (\<lambda>ac. Option.bind ac ac_code_size)"

text \<open>Read the storage of an account through the database for the hash of its address.\<close>

definition read_storage :: "('b, 'l, 'e) backend \<Rightarrow> 'b \<Rightarrow> address \<Rightarrow> h256 \<Rightarrow> ('e, 'l Account, h256) comp" where
  "read_storage W b a key ac = (case account_address_hash (be_keccak W) a ac of
     (h, ac1) \<Rightarrow> account_storage_at (be_lru W) (be_storage W b h) key ac1)"

definition storage_at_global :: "('b, 'l, 'e) backend \<Rightarrow> address \<Rightarrow> h256 \<Rightarrow> ('b, 'l) State \<Rightarrow> (('e, h256) outcome \<times> ('b, 'l) State) option" where
  "storage_at_global W a key s = (case be_get_cached W (sa_db s) a of
     None \<Rightarrow> None
   | Some None \<Rightarrow> Some (Ok 0, s)
   | Some (Some ac) \<Rightarrow> (case read_storage W (sa_db s) a key ac of
       (r, ac1) \<Rightarrow> Some (r, s\<lparr>sa_db := be_put_cached W a ac1 (sa_db s)\<rparr>)))"

definition state_storage_at :: "('b, 'l, 'e) backend \<Rightarrow> address \<Rightarrow> h256 \<Rightarrow> ('b, 'l, 'e, h256) state_comp" where
  "state_storage_at W a key s = (case map_of (sa_cache s) a of
     Some e \<Rightarrow> (case ae_account e of
         None \<Rightarrow> (Ok 0, s)
       | Some ac \<Rightarrow> (case cached_storage_at (be_lru W) key ac of (v, ac1) \<Rightarrow>
           let put = (\<lambda>ac s. s\<lparr>sa_cache := AList.update a (e\<lparr>ae_account := Some ac\<rparr>) (sa_cache s)\<rparr>); s1 = put ac1 s in
           case v of
             Some v \<Rightarrow> (Ok v, s1)
           | None \<Rightarrow> (case storage_at_global W a key s1 of
               Some r \<Rightarrow> r
             | None \<Rightarrow> (case read_storage W (sa_db s1) a key ac1 of (r, ac2) \<Rightarrow> (r, put ac2 s1)))))
   | None \<Rightarrow> (case storage_at_global W a key s of
       Some r \<Rightarrow> r
     | None \<Rightarrow>
         if be_is_known_null W (sa_db s) a then (Ok 0, s)
         else if be_trie_open W (sa_db s) (sa_root s) \<noteq> None then (Panic Expect_failed, s)
         else (case load_account W (sa_db s) (sa_root s) a of
             Ok (Some ac) \<Rightarrow> (case read_storage W (sa_db s) a key ac of (r, ac1) \<Rightarrow>
               (case r of Panic p \<Rightarrow> (Panic p, s) | _ \<Rightarrow> (r, insert_cache a (new_clean (Some ac1)) s)))
           | Ok None \<Rightarrow> (Ok 0, insert_cache a (new_clean None) s)
           | Err e \<Rightarrow> (Err e, s)
           | Panic p \<Rightarrow> (Panic p, s))))"

text \<open>
  \<open>require_or_from\<close> returns a mutable borrow of the account: \<open>upd\<close> is what its caller does with the borrow.  All callers
  pass a \<open>not_default\<close> that does nothing.
\<close>

definition load_entry :: "('b, 'l, 'e) backend \<Rightarrow> address \<Rightarrow> ('b, 'l, 'e, unit) state_comp" where
  "load_entry W a s =
     (if map_of (sa_cache s) a \<noteq> None then (Ok (), s)
      else case be_get_cached_account W (sa_db s) a of
        Some acc \<Rightarrow> (Ok (), insert_cache a (new_clean_cached acc) s)
      | None \<Rightarrow>
          if be_is_known_null W (sa_db s) a then (Ok (), insert_cache a (new_clean None) s)
          else (case open_and_load W (sa_db s) (sa_root s) a of
              Ok acc \<Rightarrow> (Ok (), insert_cache a (new_clean acc) s)
            | Err e \<Rightarrow> (Err e, s)
            | Panic p \<Rightarrow> (Panic p, s)))"

definition borrow_entry ::
  "('b, 'l, 'e) backend \<Rightarrow> address \<Rightarrow> bool \<Rightarrow> 'l Account \<Rightarrow> ('l Account \<Rightarrow> ('e, 'l Account) outcome) \<Rightarrow> ('b, 'l, 'e, unit) state_comp" where
  "borrow_entry W a require_code dflt upd s = (case map_of (sa_cache s) a of
     None \<Rightarrow> (Panic Expect_failed, s)
   | Some e \<Rightarrow>
       let ac = (case ae_account e of Some ac \<Rightarrow> ac | None \<Rightarrow> dflt);
           x = (if require_code then with_code W RequireCode a ac (sa_db s) else (ac, sa_db s));
           put = (\<lambda>ac. s\<lparr>sa_db := snd x, sa_cache := AList.update a (e\<lparr>ae_account := Some ac, ae_state := Dirty\<rparr>) (sa_cache s)\<rparr>)
       in case upd (fst x) of
            Ok ac2 \<Rightarrow> (Ok (), put ac2)
          | Err err \<Rightarrow> (Err err, put (fst x))
          | Panic p \<Rightarrow> (Panic p, put (fst x)))"

definition require_or_from ::
  "('b, 'l, 'e) backend \<Rightarrow> address \<Rightarrow> bool \<Rightarrow> 'l Account \<Rightarrow> ('l Account \<Rightarrow> ('e, 'l Account) outcome) \<Rightarrow> ('b, 'l, 'e, unit) state_comp" where
  "require_or_from W a require_code dflt upd =
     and_then (load_entry W a) (\<lambda>_ s. borrow_entry W a require_code dflt upd (note_cache (be_lru W) a s))"

definition require :: "('b, 'l, 'e) backend \<Rightarrow> address \<Rightarrow> bool \<Rightarrow> ('l Account \<Rightarrow> ('e, 'l Account) outcome) \<Rightarrow> ('b, 'l, 'e, unit) state_comp" where
  "require W a require_code upd = and_then (gets sa_account_start_nonce) (\<lambda>start.
     require_or_from W a require_code (account_new_basic (be_lru W) 0 start) upd)"

definition state_touch :: "('b, 'l, 'e) backend \<Rightarrow> address \<Rightarrow> ('b, 'l, 'e, unit) state_comp" where
  "state_touch W a = require W a False Ok"

text \<open>
  The touched accounts are a mutable borrow in \<open>TrackTouched\<close>, so that the operations return the mode.  The balance in the
  \<open>trace!\<close> messages is only read when tracing is on and is left out.
\<close>

definition state_add_balance :: "('b, 'l, 'e) backend \<Rightarrow> address \<Rightarrow> u256 \<Rightarrow> CleanupMode \<Rightarrow> ('b, 'l, 'e, CleanupMode) state_comp" where
  "state_add_balance W a incr mode =
     and_then (if incr \<noteq> 0 then ok True
               else if mode = ForceCreate then and_then (state_exists W a) (\<lambda>ex. ok (\<not> ex)) else ok False) (\<lambda>create.
     if create then and_then (require W a False (account_add_balance incr)) (\<lambda>_. ok mode)
     else (case mode of
         TrackTouched touched \<Rightarrow> and_then (state_exists W a) (\<lambda>ex.
           if ex then and_then (state_touch W a) (\<lambda>_. ok (TrackTouched (insert a touched))) else ok mode)
       | _ \<Rightarrow> ok mode))"

definition state_sub_balance :: "('b, 'l, 'e) backend \<Rightarrow> address \<Rightarrow> u256 \<Rightarrow> CleanupMode \<Rightarrow> ('b, 'l, 'e, CleanupMode) state_comp" where
  "state_sub_balance W a decr mode =
     and_then (if decr \<noteq> 0 then ok True else and_then (state_exists W a) (\<lambda>ex. ok (\<not> ex))) (\<lambda>needed.
     and_then (if needed then require W a False (account_sub_balance decr) else ok ()) (\<lambda>_.
     ok (case mode of TrackTouched touched \<Rightarrow> TrackTouched (insert a touched) | _ \<Rightarrow> mode)))"

definition transfer_balance :: "('b, 'l, 'e) backend \<Rightarrow> address \<Rightarrow> address \<Rightarrow> u256 \<Rightarrow> CleanupMode \<Rightarrow> ('b, 'l, 'e, CleanupMode) state_comp" where
  "transfer_balance W frm to by_amount mode =
     and_then (state_sub_balance W frm by_amount mode) (\<lambda>mode. state_add_balance W to by_amount mode)"

definition state_inc_nonce :: "('b, 'l, 'e) backend \<Rightarrow> address \<Rightarrow> ('b, 'l, 'e, unit) state_comp" where
  "state_inc_nonce W a = require W a False account_inc_nonce"

definition state_set_storage :: "('b, 'l, 'e) backend \<Rightarrow> address \<Rightarrow> h256 \<Rightarrow> h256 \<Rightarrow> ('b, 'l, 'e, unit) state_comp" where
  "state_set_storage W a key v = and_then (state_storage_at W a key) (\<lambda>old.
     if old \<noteq> v then require W a False (\<lambda>ac. Ok (account_set_storage key v ac)) else ok ())"

definition state_init_code :: "('b, 'l, 'e) backend \<Rightarrow> address \<Rightarrow> bytes \<Rightarrow> ('b, 'l, 'e, unit) state_comp" where
  "state_init_code W a code = and_then (gets sa_account_start_nonce) (\<lambda>start.
     require_or_from W a True (account_new_contract (be_lru W) 0 start) (\<lambda>ac. Ok (account_init_code (be_keccak W) code ac)))"

definition state_reset_code :: "('b, 'l, 'e) backend \<Rightarrow> address \<Rightarrow> bytes \<Rightarrow> ('b, 'l, 'e, unit) state_comp" where
  "state_reset_code W a code = and_then (gets sa_account_start_nonce) (\<lambda>start.
     require_or_from W a True (account_new_contract (be_lru W) 0 start) (\<lambda>ac. Ok (account_reset_code (be_keccak W) code ac)))"

definition state_clear :: "('b, 'l) State \<Rightarrow> ('b, 'l) State" where
  "state_clear s = s\<lparr>sa_cache := []\<rparr>"

definition is_garbage :: "address set \<Rightarrow> bool \<Rightarrow> u256 option \<Rightarrow> bool \<Rightarrow> address \<Rightarrow> 'l AccountEntry \<Rightarrow> bool" where
  "is_garbage touched remove_empty_touched min_balance kill_contracts a e \<longleftrightarrow>
     a \<in> touched \<and>
     (remove_empty_touched \<and> exists_and_is_null e \<or>
      (case (min_balance, ae_account e) of
         (Some balance, Some ac) \<Rightarrow> (account_is_basic ac \<or> kill_contracts) \<and> ac_balance ac < balance \<and>
           (case ae_old_balance e of None \<Rightarrow> False | Some b \<Rightarrow> ac_balance ac < b)
       | _ \<Rightarrow> False))"

definition kill_garbage :: "address set \<Rightarrow> bool \<Rightarrow> u256 option \<Rightarrow> bool \<Rightarrow> ('b, 'l) State \<Rightarrow> ('b, 'l) State" where
  "kill_garbage touched remove_empty_touched min_balance kill_contracts s =
     fold (\<lambda>(a, _). kill_account a)
       (filter (\<lambda>(a, e). is_garbage touched remove_empty_touched min_balance kill_contracts a e) (sa_cache s)) s"

record Substate =
  sub_suicides :: "address set"
  sub_touched :: "address set"
  sub_logs :: "LogEntry list"
  sub_sstore_clears_count :: u256
  sub_contracts_created :: "address list"

definition accrue :: "Substate \<Rightarrow> Substate \<Rightarrow> ('e, Substate) outcome" where
  "accrue s self = ok_then (word_add (sub_sstore_clears_count self) (sub_sstore_clears_count s)) (\<lambda>n.
     Ok \<lparr>sub_suicides = sub_suicides self \<union> sub_suicides s, sub_touched = sub_touched self \<union> sub_touched s,
         sub_logs = sub_logs self @ sub_logs s, sub_sstore_clears_count = n,
         sub_contracts_created = sub_contracts_created self @ sub_contracts_created s\<rparr>)"

definition to_cleanup_mode :: "Schedule \<Rightarrow> Substate \<Rightarrow> CleanupMode" where
  "to_cleanup_mode sch self =
     (if kill_dust sch = Off \<and> \<not> no_empty sch then ForceCreate
      else if kill_dust sch = Off \<and> no_empty sch \<and> \<not> kill_empty sch then NoEmpty
      else TrackTouched (sub_touched self))"

text \<open>The backend \<open>Basic\<close> wraps a database and caches nothing.\<close>

definition basic_backend ::
  "'l storage_lru \<Rightarrow> (bytes \<Rightarrow> h256) \<Rightarrow> ('b \<Rightarrow> h256 \<Rightarrow> 'e option) \<Rightarrow> ('b \<Rightarrow> h256 \<Rightarrow> address \<Rightarrow> 'e + bytes option) \<Rightarrow>
   ('b \<Rightarrow> h256 \<Rightarrow> 'e storage_db) \<Rightarrow> ('b \<Rightarrow> h256 \<Rightarrow> h256 \<Rightarrow> bytes option) \<Rightarrow> ('b, 'l, 'e) backend" where
  "basic_backend L kec opn trie store code =
     \<lparr>be_lru = L, be_keccak = kec, be_get_cached_account = (\<lambda>_ _. None), be_get_cached = (\<lambda>_ _. None),
      be_put_cached = (\<lambda>_ _ b. b), be_get_cached_code = (\<lambda>_ _. None), be_cache_code = (\<lambda>_ _ b. b),
      be_is_known_null = (\<lambda>_ _. False), be_trie_open = opn, be_trie = trie, be_storage = store, be_code = code\<rparr>"

end
