(* ===== verification/State_Revert.thy ===== *)
theory State_Revert
  imports State_Cache
begin

text \<open>
  Checkpoints of the state.  An account is seen through its cache entry or, when there is none, through the backend; a
  checkpoint stands for the view of all accounts that reverting to it would give.  Every operation of the state leaves the
  views of the open checkpoints as they are, so that a revert restores the accounts.
\<close>

section \<open>Views of the accounts\<close>

type_synonym account_core = "u256 \<times> u256 \<times> h256 \<times> (h256 \<times> h256) list \<times> h256 \<times> Filth"
type_synonym account_sig = "bool \<times> account_core option"

text \<open>What an account is, without what it only caches.\<close>

definition core :: "'l Account \<Rightarrow> account_core" where
  "core ac = (ac_balance ac, ac_nonce ac, ac_storage_root ac, ac_storage_changes ac, ac_code_hash ac, ac_code_filth ac)"

definition entry_sig :: "'l AccountEntry \<Rightarrow> account_sig" where
  "entry_sig e = (entry_is_dirty e, map_option core (ae_account e))"

definition backend_view :: "('b, 'l, 'e) backend \<Rightarrow> 'b \<Rightarrow> h256 \<Rightarrow> address \<Rightarrow> account_core option" where
  "backend_view W b root a = (case be_get_cached_account W b a of
     Some acc \<Rightarrow> map_option core acc
   | None \<Rightarrow> if be_is_known_null W b a then None
       else (case open_and_load W b root a of Ok acc \<Rightarrow> map_option core acc | _ \<Rightarrow> None))"

definition base_view :: "('b, 'l, 'e) backend \<Rightarrow> ('b, 'l) State \<Rightarrow> address \<Rightarrow> account_core option" where
  "base_view W s = backend_view W (sa_db s) (sa_root s)"

definition cache_sig :: "(address \<Rightarrow> account_core option) \<Rightarrow> (address \<rightharpoonup> 'l AccountEntry) \<Rightarrow> address \<Rightarrow> account_sig" where
  "cache_sig base c a = (case c a of Some e \<Rightarrow> entry_sig e | None \<Rightarrow> (False, base a))"

definition state_sig :: "('b, 'l, 'e) backend \<Rightarrow> ('b, 'l) State \<Rightarrow> address \<Rightarrow> account_sig" where
  "state_sig W s = cache_sig (base_view W s) (map_of (sa_cache s))"

definition account_view :: "('b, 'l, 'e) backend \<Rightarrow> ('b, 'l) State \<Rightarrow> address \<Rightarrow> account_core option" where
  "account_view W s a = snd (state_sig W s a)"

text \<open>The view that reverting to a checkpoint gives.\<close>

definition undo ::
  "(address \<Rightarrow> account_core option) \<Rightarrow> (address \<rightharpoonup> 'l AccountEntry option) \<Rightarrow> (address \<Rightarrow> account_sig) \<Rightarrow> address \<Rightarrow> account_sig" where
  "undo base cp \<sigma> a = (case cp a of
     None \<Rightarrow> \<sigma> a
   | Some None \<Rightarrow> (False, base a)
   | Some (Some v) \<Rightarrow> entry_sig v)"

fun levels ::
  "(address \<Rightarrow> account_core option) \<Rightarrow> (address \<times> 'l AccountEntry option) list list \<Rightarrow> (address \<Rightarrow> account_sig) \<Rightarrow> (address \<Rightarrow> account_sig) list" where
  "levels base [] \<sigma> = []"
| "levels base (cp # cps) \<sigma> = undo base (map_of cp) \<sigma> # levels base cps (undo base (map_of cp) \<sigma>)"

text \<open>
  Accounts that are not dirty are those of the backend, and an account that is missing is also missing at the checkpoints
  around it that have recorded it.
\<close>

fun kept ::
  "(address \<Rightarrow> account_core option) \<Rightarrow> (address \<times> 'l AccountEntry option) list list \<Rightarrow> (address \<Rightarrow> account_sig) \<Rightarrow> bool" where
  "kept base [] \<sigma> \<longleftrightarrow> (\<forall>a. \<not> fst (\<sigma> a) \<longrightarrow> snd (\<sigma> a) = base a)"
| "kept base (cp # cps) \<sigma> \<longleftrightarrow> (\<forall>a. \<not> fst (\<sigma> a) \<longrightarrow> snd (\<sigma> a) = base a) \<and> distinct (map fst cp)
     \<and> (\<forall>a. snd (\<sigma> a) = None \<longrightarrow> snd (undo base (map_of cp) \<sigma> a) = None) \<and> kept base cps (undo base (map_of cp) \<sigma>)"

definition state_ok :: "('b, 'l, 'e) backend \<Rightarrow> ('b, 'l) State \<Rightarrow> bool" where
  "state_ok W s \<longleftrightarrow> kept (base_view W s) (sa_checkpoints s) (state_sig W s)"

definition state_levels :: "('b, 'l, 'e) backend \<Rightarrow> ('b, 'l) State \<Rightarrow> (address \<Rightarrow> account_sig) list" where
  "state_levels W s = levels (base_view W s) (sa_checkpoints s) (state_sig W s)"

section \<open>Checkpoints\<close>

lemma kept_clean: "kept base cps \<sigma> \<Longrightarrow> \<not> fst (\<sigma> a) \<Longrightarrow> snd (\<sigma> a) = base a"
  by (cases cps) auto

lemma undo_empty [simp]: "undo base Map.empty \<sigma> = \<sigma>"
  by (simp add: undo_def fun_eq_iff)

lemma map_of_or_insert: "map_of (or_insert k v m) = (if map_of m k = None then (map_of m)(k \<mapsto> v) else map_of m)"
  by (auto simp: or_insert_def update_conv' split: option.splits)

lemma distinct_or_insert: "distinct (map fst m) \<Longrightarrow> distinct (map fst (or_insert k v m))"
  by (simp add: or_insert_def distinct_update split: option.split)

lemma core_clone_dirty [simp]: "core (account_clone_dirty L ac) = core ac"
  by (simp add: core_def account_clone_dirty_def clone_basic_def)

lemma core_overwrite_with [simp]: "core (account_overwrite_with L other ac) = core other"
  by (simp add: core_def account_overwrite_with_def)

lemma entry_sig_clone_dirty [simp]: "entry_sig (entry_clone_dirty L e) = entry_sig e"
  by (simp add: entry_sig_def entry_clone_dirty_def entry_is_dirty_def option.map_comp o_def)

lemma entry_sig_overwrite_with:
  "ae_account e \<noteq> None \<or> ae_account v = None \<Longrightarrow> entry_sig (entry_overwrite_with L v e) = entry_sig v"
  by (auto simp: entry_sig_def entry_overwrite_with_def entry_is_dirty_def Let_def split: option.splits)

lemma map_of_restore_entry_other: "k \<noteq> a \<Longrightarrow> map_of (restore_entry L k v cache) a = map_of cache a"
  by (auto simp: restore_entry_def update_conv' delete_conv' split: option.splits)

lemma map_of_fold_restore:
  "distinct (map fst cp) \<Longrightarrow>
   map_of (fold (\<lambda>(k, v). restore_entry L k v) cp cache) a =
     (case map_of cp a of None \<Rightarrow> map_of cache a | Some v \<Rightarrow> map_of (restore_entry L a v cache) a)"
proof (induction cp arbitrary: cache)
  case (Cons x cp)
  obtain k v where x: "x = (k, v)" by (cases x)
  have "map_of (restore_entry L a w (restore_entry L k v cache)) a = map_of (restore_entry L a w cache) a" if "k \<noteq> a" for w
    using map_of_restore_entry_other [OF that, of L v cache]
    by (simp add: restore_entry_def [of L a] update_conv' delete_conv' split: option.split)
  moreover have "map_of cp k = None" using Cons.prems x by (simp add: map_of_eq_None_iff)
  ultimately show ?case
    using Cons x by (auto simp: map_of_restore_entry_other split: option.split)
qed simp

lemma cache_sig_restore:
  assumes "kept base (cp # cps) (cache_sig base (map_of cache))"
  shows "cache_sig base (map_of (fold (\<lambda>(k, v). restore_entry L k v) cp cache)) = undo base (map_of cp) (cache_sig base (map_of cache))"
proof
  fix a
  let ?\<sigma> = "cache_sig base (map_of cache)"
  have clean: "\<not> fst (?\<sigma> a) \<Longrightarrow> snd (?\<sigma> a) = base a" and lost: "snd (?\<sigma> a) = None \<Longrightarrow> snd (undo base (map_of cp) ?\<sigma> a) = None"
    and d: "distinct (map fst cp)"
    using assms by auto
  show "cache_sig base (map_of (fold (\<lambda>(k, v). restore_entry L k v) cp cache)) a = undo base (map_of cp) ?\<sigma> a"
  proof (cases "map_of cp a")
    case None
    then show ?thesis by (simp add: cache_sig_def undo_def map_of_fold_restore [OF d])
  next
    case (Some v)
    then show ?thesis
    proof (cases v)
      case None
      then show ?thesis using Some clean
        by (cases "map_of cache a")
          (auto simp: cache_sig_def undo_def map_of_fold_restore [OF d] restore_entry_def delete_conv' entry_sig_def prod_eq_iff)
    next
      case (Some w)
      show ?thesis
      proof (cases "map_of cache a")
        case None
        then show ?thesis using \<open>map_of cp a = Some v\<close> Some
          by (simp add: cache_sig_def undo_def map_of_fold_restore [OF d] restore_entry_def update_conv')
      next
        case (Some e)
        have "ae_account e \<noteq> None \<or> ae_account w = None"
          using lost \<open>map_of cp a = Some v\<close> \<open>v = Some w\<close> Some by (cases "ae_account e") (auto simp: cache_sig_def undo_def entry_sig_def)
        then show ?thesis using \<open>map_of cp a = Some v\<close> \<open>v = Some w\<close> Some
          by (simp add: cache_sig_def undo_def map_of_fold_restore [OF d] restore_entry_def update_conv' entry_sig_overwrite_with)
      qed
    qed
  qed
qed

lemma map_of_fold_or_insert:
  "map_of (fold (\<lambda>(k, v). or_insert k v) cp prev) = map_of cp ++ map_of prev"
proof (induction cp arbitrary: prev)
  case (Cons x cp)
  then show ?case by (cases x) (auto simp: map_of_or_insert map_add_def fun_eq_iff split: option.split)
qed simp

lemma distinct_fold_or_insert: "distinct (map fst prev) \<Longrightarrow> distinct (map fst (fold (\<lambda>(k, v). or_insert k v) cp prev))"
  by (induction cp arbitrary: prev) (auto simp: distinct_or_insert)

lemma undo_map_add: "undo base (f ++ g) \<sigma> = undo base g (undo base f \<sigma>)"
  by (auto simp: undo_def map_add_def fun_eq_iff split: option.split)

text \<open>What the three operations on checkpoints do with the views of the checkpoints.\<close>

lemma state_sig_checkpoints [simp]:
  "state_sig W (s\<lparr>sa_checkpoints := x\<rparr>) = state_sig W s" "base_view W (s\<lparr>sa_checkpoints := x\<rparr>) = base_view W s"
  by (simp_all add: state_sig_def base_view_def)

lemma base_view_cache [simp]: "base_view W (s\<lparr>sa_cache := x\<rparr>) = base_view W s"
  by (simp add: base_view_def)

lemma base_view_checkpoint_ops [simp]:
  "base_view W (checkpoint s) = base_view W s" "base_view W (discard_checkpoint s) = base_view W s"
  "base_view W (revert_to_checkpoint L s) = base_view W s"
  by (simp_all add: checkpoint_def discard_checkpoint_def revert_to_checkpoint_def base_view_def split: list.split)

lemma checkpoint_levels:
  assumes "state_ok W s"
  shows "state_ok W (checkpoint s)" and "state_levels W (checkpoint s) = state_sig W s # state_levels W s"
  using assms kept_clean [of "base_view W s" "sa_checkpoints s" "state_sig W s"]
  by (simp_all add: state_ok_def state_levels_def checkpoint_def)

lemma revert_levels:
  assumes "state_ok W s" "sa_checkpoints s \<noteq> []"
  shows "state_ok W (revert_to_checkpoint L s)" and "state_sig W (revert_to_checkpoint L s) = hd (state_levels W s)"
    and "state_levels W (revert_to_checkpoint L s) = tl (state_levels W s)"
proof -
  obtain cp cps where cps: "sa_checkpoints s = cp # cps" using assms(2) by (cases "sa_checkpoints s") auto
  have sig: "state_sig W (revert_to_checkpoint L s) = undo (base_view W s) (map_of cp) (state_sig W s)"
    using cache_sig_restore [of "base_view W s" cp cps "sa_cache s" L] assms(1) cps
    by (simp add: revert_to_checkpoint_def state_sig_def state_ok_def base_view_def)
  then show "state_ok W (revert_to_checkpoint L s)" "state_levels W (revert_to_checkpoint L s) = tl (state_levels W s)"
    "state_sig W (revert_to_checkpoint L s) = hd (state_levels W s)"
    using assms(1) cps by (simp_all add: state_ok_def state_levels_def revert_to_checkpoint_def base_view_def)
qed

lemma kept_merge:
  assumes "kept base (cp # prev # cps) \<sigma>" "map_of m = map_of cp ++ map_of prev" "distinct (map fst m)"
  shows "kept base (m # cps) \<sigma>"
  using assms by (simp add: undo_map_add)

lemma discard_levels:
  assumes "state_ok W s" "sa_checkpoints s \<noteq> []"
  shows "state_ok W (discard_checkpoint s)" and "state_levels W (discard_checkpoint s) = tl (state_levels W s)"
proof -
  obtain cp cps where cps: "sa_checkpoints s = cp # cps" using assms(2) by (cases "sa_checkpoints s") auto
  have "state_ok W (discard_checkpoint s) \<and> state_levels W (discard_checkpoint s) = tl (state_levels W s)"
  proof (cases cps)
    case Nil
    then show ?thesis using assms(1) cps by (simp add: discard_checkpoint_def state_ok_def state_levels_def)
  next
    case (Cons prev rest)
    define m where "m = (if prev = [] then cp else fold (\<lambda>(k, v). or_insert k v) cp prev)"
    have m: "map_of m = map_of cp ++ map_of prev" "distinct (map fst m)"
      using assms(1) cps Cons by (auto simp: m_def map_of_fold_or_insert state_ok_def intro: distinct_fold_or_insert)
    have d: "discard_checkpoint s = s\<lparr>sa_checkpoints := m # rest\<rparr>"
      using cps Cons by (simp add: discard_checkpoint_def m_def)
    show ?thesis
      using kept_merge [OF _ m, of "base_view W s" rest "state_sig W s"] assms(1) cps Cons m(1)
      unfolding d state_ok_def state_levels_def by (simp add: undo_map_add)
  qed
  then show "state_ok W (discard_checkpoint s)" "state_levels W (discard_checkpoint s) = tl (state_levels W s)" by auto
qed

section \<open>Steps that keep the checkpoints\<close>

definition evolves :: "('b, 'l, 'e) backend \<Rightarrow> ('b, 'l) State \<Rightarrow> ('b, 'l) State \<Rightarrow> bool" where
  "evolves W s s' \<longleftrightarrow> (state_ok W s \<longrightarrow>
     state_ok W s' \<and> state_levels W s' = state_levels W s \<and> base_view W s' = base_view W s)"

definition evolving :: "('b, 'l, 'e) backend \<Rightarrow> ('b, 'l, 'e, 'a) state_comp \<Rightarrow> bool" where
  "evolving W m \<longleftrightarrow> (\<forall>s. evolves W s (snd (m s)))"

named_theorems evolving_intros \<open>operations that keep the views of the checkpoints\<close>

lemma evolves_refl [simp]: "evolves W s s"
  by (simp add: evolves_def)

lemma evolves_trans: "evolves W s t \<Longrightarrow> evolves W t u \<Longrightarrow> evolves W s u"
  by (simp add: evolves_def)

lemma evolving_and_then [evolving_intros]: "evolving W m \<Longrightarrow> (\<And>x. evolving W (f x)) \<Longrightarrow> evolving W (and_then m f)"
  by (auto simp: evolving_def and_then_def split: prod.split outcome.split intro: evolves_trans)

lemma evolving_ok [evolving_intros]: "evolving W (ok x)"
  by (simp add: evolving_def ok_def)

lemma evolving_gets [evolving_intros]: "evolving W (gets f)"
  by (simp add: evolving_def gets_def)

lemma evolving_if [evolving_intros]: "evolving W m \<Longrightarrow> evolving W n \<Longrightarrow> evolving W (if b then m else n)"
  by simp

lemma evolves_quiet:
  "state_sig W s' = state_sig W s \<Longrightarrow> base_view W s' = base_view W s \<Longrightarrow> sa_checkpoints s' = sa_checkpoints s \<Longrightarrow> evolves W s s'"
  by (simp add: evolves_def state_ok_def state_levels_def)

lemma evolves_write:
  assumes sig: "state_sig W s' = (state_sig W s)(a := (True, Some c))" and base: "base_view W s' = base_view W s"
    and cps: "sa_checkpoints s' = (case sa_checkpoints s of [] \<Rightarrow> [] | cp # cps \<Rightarrow> or_insert a v cp # cps)"
    and v: "(case v of None \<Rightarrow> (False, base_view W s a) | Some e \<Rightarrow> entry_sig e) = state_sig W s a"
  shows "evolves W s s'"
proof (cases "sa_checkpoints s")
  case Nil
  then show ?thesis using sig base cps by (simp add: evolves_def state_ok_def state_levels_def)
next
  case (Cons cp rest)
  have "undo (base_view W s) (map_of (or_insert a v cp)) (state_sig W s') = undo (base_view W s) (map_of cp) (state_sig W s)"
    using v sig by (auto simp: fun_eq_iff undo_def map_of_or_insert split: option.splits)
  then show ?thesis using sig base cps Cons
    by (auto simp: evolves_def state_ok_def state_levels_def intro: distinct_or_insert)
qed

section \<open>The contract of a backend\<close>

definition same_view :: "('b, 'l, 'e) backend \<Rightarrow> 'b \<Rightarrow> 'b \<Rightarrow> bool" where
  "same_view W b b' \<longleftrightarrow> (\<forall>root a. backend_view W b' root a = backend_view W b root a)"

text \<open>
  What the state relies on: an account that is known to be null is not in the trie, both ways to ask for a cached account
  know the same accounts, and refreshing what a cached account has read, or adding a code to the cache, changes no account.
\<close>

locale backend_laws =
  fixes W :: "('b, 'l, 'e) backend"
  assumes null_law: "be_is_known_null W b a \<Longrightarrow> be_trie W b root a \<noteq> Inr (Some bs)"
    and cached_law: "be_get_cached W b a = None \<longleftrightarrow> be_get_cached_account W b a = None"
    and put_law: "be_get_cached W b a = Some (Some ac) \<Longrightarrow> core ac' = core ac \<Longrightarrow> same_view W b (be_put_cached W a ac' b)"
    and code_law: "same_view W b (be_cache_code W h code b)" "be_get_cached W (be_cache_code W h code b) = be_get_cached W b"
begin

lemma core_address_hash: "core (snd (account_address_hash K a ac)) = core ac"
  by (simp add: account_address_hash_def core_def Let_def split: option.split)

lemma core_cached_storage_at: "core (snd (cached_storage_at L key ac)) = core ac"
  by (simp add: cached_storage_at_def core_def split: option.split)

lemma core_account_storage_at: "core (snd (account_storage_at L db key ac)) = core ac"
  using core_cached_storage_at [of L key ac]
  by (auto simp: account_storage_at_def core_def split: prod.splits option.splits sum.splits outcome.splits)

lemma core_read_storage: "core (snd (read_storage W b a key ac)) = core ac"
  using core_address_hash [of "be_keccak W" a ac]
  by (cases "account_address_hash (be_keccak W) a ac") (simp add: read_storage_def core_account_storage_at)

lemma core_update_account_cache: "core (fst (update_account_cache W r h (ac, b))) = core ac"
  by (auto simp: update_account_cache_def account_cache_code_def cache_code_size_def cache_given_code_def core_def
      split: option.splits RequireCache.splits prod.splits if_splits)

lemma db_update_account_cache:
  "same_view W b (snd (update_account_cache W r h (ac, b))) \<and>
   be_get_cached W (snd (update_account_cache W r h (ac, b))) = be_get_cached W b"
  using code_law by (auto simp: update_account_cache_def same_view_def split: option.splits RequireCache.splits prod.splits)

lemma with_code_keeps:
  assumes "with_code W r a ac b = (ac1, b1)"
  shows "core ac1 = core ac" "same_view W b b1" "be_get_cached W b1 = be_get_cached W b"
proof -
  obtain h ac0 where h: "account_address_hash (be_keccak W) a ac = (h, ac0)" by fastforce
  have "update_account_cache W r h (ac0, b) = (ac1, b1)" using assms h by (simp add: with_code_def)
  then show "core ac1 = core ac" "same_view W b b1" "be_get_cached W b1 = be_get_cached W b"
    using core_update_account_cache [of r h ac0 b] db_update_account_cache [of b r h ac0] core_address_hash [of "be_keccak W" a ac] h
    by simp_all
qed

lemma base_view_db: "same_view W (sa_db s) b \<Longrightarrow> base_view W (s\<lparr>sa_db := b\<rparr>) = base_view W s"
  by (simp add: base_view_def same_view_def fun_eq_iff)

lemma evolves_db: "same_view W (sa_db s) b \<Longrightarrow> evolves W s (s\<lparr>sa_db := b\<rparr>)"
  by (rule evolves_quiet) (simp_all add: base_view_db state_sig_def)

lemma evolves_refresh:
  assumes "map_of (sa_cache s) a = Some e" "entry_sig e' = entry_sig e"
  shows "evolves W s (s\<lparr>sa_cache := AList.update a e' (sa_cache s)\<rparr>)"
  using assms by (intro evolves_quiet) (auto simp: state_sig_def cache_sig_def update_conv' fun_eq_iff)

lemma evolves_load:
  assumes "map_of (sa_cache s) a = None" "entry_sig e = (False, base_view W s a)"
  shows "evolves W s (insert_cache a e s)"
  using assms
  by (intro evolves_quiet) (auto simp: insert_cache_def state_sig_def cache_sig_def update_conv' fun_eq_iff entry_sig_def Let_def)

lemma base_view_uncached:
  assumes "be_get_cached W (sa_db s) a = None" "open_and_load W (sa_db s) (sa_root s) a = Ok acc"
  shows "base_view W s a = map_option core acc"
proof -
  have "acc = None" if "be_is_known_null W (sa_db s) a"
    using null_law [OF that, of "sa_root s"] assms(2)
    by (auto simp: open_and_load_def load_account_def split: option.splits sum.splits)
  then show ?thesis using assms by (auto simp: base_view_def backend_view_def cached_law)
qed

lemma entry_sig_new_clean [simp]:
  "entry_sig (new_clean acc) = (False, map_option core acc)" "entry_sig (new_clean_cached acc) = (False, map_option core acc)"
  "entry_sig (new_dirty acc) = (True, map_option core acc)"
  by (simp_all add: entry_sig_def new_clean_def new_clean_cached_def new_dirty_def entry_is_dirty_def)

lemma ensure_cached_hit:
  assumes hit: "map_of (sa_cache s) a = Some e"
  shows "evolves W s (snd (ensure_cached W a r check_null f s))"
proof (cases "ae_account e")
  case None
  then show ?thesis using hit by (simp add: ensure_cached_def)
next
  case (Some ac)
  obtain ac1 b1 where w: "with_code W r a ac (sa_db s) = (ac1, b1)" by fastforce
  have "evolves W (s\<lparr>sa_db := b1\<rparr>) (s\<lparr>sa_db := b1, sa_cache := AList.update a (e\<lparr>ae_account := Some ac1\<rparr>) (sa_cache s)\<rparr>)"
    using evolves_refresh [of "s\<lparr>sa_db := b1\<rparr>" a e "e\<lparr>ae_account := Some ac1\<rparr>"] hit Some with_code_keeps(1) [OF w]
    by (simp add: entry_sig_def entry_is_dirty_def)
  then have "evolves W s (s\<lparr>sa_db := b1, sa_cache := AList.update a (e\<lparr>ae_account := Some ac1\<rparr>) (sa_cache s)\<rparr>)"
    using evolves_db [OF with_code_keeps(2) [OF w]] by (rule evolves_trans [rotated])
  then show ?thesis using hit Some w by (simp add: ensure_cached_def)
qed

lemma evolves_put_cached:
  assumes "be_get_cached W (sa_db s) a = Some (Some ac)" "core ac1 = core ac" "same_view W (sa_db s) b" "be_get_cached W b = be_get_cached W (sa_db s)"
  shows "evolves W s (s\<lparr>sa_db := be_put_cached W a ac1 b\<rparr>)"
  using put_law [of b a ac ac1] assms by (intro evolves_db) (simp add: same_view_def)

lemma ensure_cached_global:
  assumes "map_of (sa_cache s) a = None" "be_get_cached W (sa_db s) a = Some acc"
  shows "evolves W s (snd (ensure_cached W a r check_null f s))"
proof (cases acc)
  case (Some ac)
  obtain ac1 b1 where w: "with_code W r a ac (sa_db s) = (ac1, b1)" by fastforce
  show ?thesis using assms Some w evolves_put_cached [OF _ with_code_keeps [OF w]] by (simp add: ensure_cached_def)
qed (use assms in \<open>simp add: ensure_cached_def\<close>)

lemma ensure_cached_miss:
  assumes "map_of (sa_cache s) a = None" "be_get_cached W (sa_db s) a = None"
  shows "evolves W s (snd (ensure_cached W a r check_null f s))"
proof (cases "open_and_load W (sa_db s) (sa_root s) a")
  case (Ok acc)
  note base = base_view_uncached [OF assms(2) Ok]
  show ?thesis
  proof (cases acc)
    case None
    then show ?thesis using assms Ok base by (simp add: ensure_cached_def evolves_load)
  next
    case (Some ac)
    obtain ac1 b1 where w: "with_code W r a ac (sa_db s) = (ac1, b1)" by fastforce
    have "evolves W (s\<lparr>sa_db := b1\<rparr>) (insert_cache a (new_clean (Some ac1)) (s\<lparr>sa_db := b1\<rparr>))"
      using assms(1) base Some with_code_keeps(1) [OF w] base_view_db [OF with_code_keeps(2) [OF w]] by (simp add: evolves_load)
    then have "evolves W s (insert_cache a (new_clean (Some ac1)) (s\<lparr>sa_db := b1\<rparr>))"
      using evolves_db [OF with_code_keeps(2) [OF w]] by (rule evolves_trans [rotated])
    then show ?thesis using assms Ok Some w by (simp add: ensure_cached_def)
  qed
qed (use assms in \<open>simp_all add: ensure_cached_def\<close>)

lemma evolving_ensure_cached [evolving_intros]: "evolving W (ensure_cached W a r check_null f)"
  unfolding evolving_def
  by (metis ensure_cached_hit ensure_cached_global ensure_cached_miss option.exhaust)

lemma storage_at_global_evolves: "storage_at_global W a key s = Some (r, s') \<Longrightarrow> evolves W s s'"
  using core_read_storage evolves_put_cached [where b = "sa_db s" and s = s]
  by (auto simp: storage_at_global_def same_view_def split: option.splits prod.splits) (metis snd_conv)

lemma state_storage_at_hit:
  assumes hit: "map_of (sa_cache s) a = Some e"
  shows "evolves W s (snd (state_storage_at W a key s))"
proof (cases "ae_account e")
  case None
  then show ?thesis using hit by (simp add: state_storage_at_def)
next
  case (Some ac)
  obtain v ac1 where c: "cached_storage_at (be_lru W) key ac = (v, ac1)" by fastforce
  define put where "put = (\<lambda>ac s. s\<lparr>sa_cache := AList.update a (e\<lparr>ae_account := Some ac\<rparr>) (sa_cache s)\<rparr> :: ('b, 'l) State)"
  have put: "evolves W s' (put ac' s')" if "map_of (sa_cache s') a = Some e'" "entry_sig e' = entry_sig e" "core ac' = core ac" for s' e' ac'
    unfolding put_def using that Some by (intro evolves_refresh) (auto simp: entry_sig_def entry_is_dirty_def)
  have c1: "core ac1 = core ac" using core_cached_storage_at [of "be_lru W" key ac] c by simp
  have s1: "evolves W s (put ac1 s)" using put [OF hit] c1 by simp
  have e1: "map_of (sa_cache (put ac1 s)) a = Some (e\<lparr>ae_account := Some ac1\<rparr>)" by (simp add: put_def update_conv')
  obtain r ac2 where rd: "read_storage W (sa_db (put ac1 s)) a key ac1 = (r, ac2)" by fastforce
  have c2: "core ac2 = core ac" using core_read_storage [of "sa_db (put ac1 s)" a key ac1] rd c1 by simp
  have s2: "evolves W (put ac1 s) (put ac2 (put ac1 s))"
    using put [OF e1] c1 c2 Some by (simp add: entry_sig_def entry_is_dirty_def)
  show ?thesis
  proof (cases v)
    case None
    then show ?thesis
      using hit Some c s1 evolves_trans [OF s1 s2] rd storage_at_global_evolves [of a key "put ac1 s"]
      by (cases "storage_at_global W a key (put ac1 s)")
        (auto simp: state_storage_at_def Let_def put_def intro: evolves_trans)
  qed (use hit Some c s1 in \<open>simp add: state_storage_at_def Let_def put_def\<close>)
qed

lemma state_storage_at_miss:
  assumes miss: "map_of (sa_cache s) a = None"
  shows "evolves W s (snd (state_storage_at W a key s))"
proof (cases "storage_at_global W a key s")
  case (Some r)
  then show ?thesis using miss storage_at_global_evolves by (cases r) (auto simp: state_storage_at_def)
next
  case None
  then have g: "be_get_cached W (sa_db s) a = None" by (auto simp: storage_at_global_def split: option.splits prod.splits)
  have base: "base_view W s a = map_option core acc"
    if "be_trie_open W (sa_db s) (sa_root s) = None" "load_account W (sa_db s) (sa_root s) a = Ok acc" for acc
    using that by (intro base_view_uncached [OF g]) (simp add: open_and_load_def)
  have ld: "evolves W s (insert_cache a (new_clean (Some (snd (read_storage W (sa_db s) a key ac)))) s)"
    if "be_trie_open W (sa_db s) (sa_root s) = None" "load_account W (sa_db s) (sa_root s) a = Ok (Some ac)" for ac
    using base [OF that] by (intro evolves_load [OF miss]) (simp add: core_read_storage)
  have "evolves W s (insert_cache a (new_clean None) s)"
    if "be_trie_open W (sa_db s) (sa_root s) = None" "load_account W (sa_db s) (sa_root s) a = Ok None"
    using base [OF that] by (intro evolves_load [OF miss]) simp
  with ld show ?thesis using miss None
    by (auto simp: state_storage_at_def split: outcome.split option.split prod.split)
qed

lemma evolving_storage_at [evolving_intros]: "evolving W (state_storage_at W a key)"
  unfolding evolving_def by (metis state_storage_at_hit state_storage_at_miss option.exhaust)

lemma load_entry_evolves: "evolves W s (snd (load_entry W a s))"
proof (cases "map_of (sa_cache s) a")
  case None
  show ?thesis
  proof (cases "be_get_cached_account W (sa_db s) a")
    case miss: None
    have "evolves W s (insert_cache a (new_clean acc) s)" if "open_and_load W (sa_db s) (sa_root s) a = Ok acc" for acc
      using None base_view_uncached [OF _ that] cached_law miss by (intro evolves_load) auto
    moreover have "evolves W s (insert_cache a (new_clean None) s)" if "be_is_known_null W (sa_db s) a"
      using None that miss by (intro evolves_load) (simp_all add: base_view_def backend_view_def)
    ultimately show ?thesis using None miss by (simp add: load_entry_def split: outcome.split)
  next
    case (Some acc)
    then have "evolves W s (insert_cache a (new_clean_cached acc) s)"
      using None by (intro evolves_load) (simp_all add: base_view_def backend_view_def)
    then show ?thesis using None Some by (simp add: load_entry_def)
  qed
qed (simp add: load_entry_def)

lemma state_sig_update:
  assumes "base_view W s' = base_view W s" "map_of (sa_cache s') = (map_of (sa_cache s))(a \<mapsto> e)"
  shows "state_sig W s' = (state_sig W s)(a := entry_sig e)"
  by (simp add: state_sig_def cache_sig_def assms fun_eq_iff)

lemma evolves_note_write:
  assumes "map_of (sa_cache s) a = Some e" "same_view W (sa_db s) b"
  shows "evolves W s ((note_cache L a s)\<lparr>sa_db := b, sa_cache := AList.update a (e\<lparr>ae_account := Some ac, ae_state := Dirty\<rparr>) (sa_cache s)\<rparr>)"
    (is "evolves W s ?s'")
proof -
  let ?s0 = "s\<lparr>sa_db := b\<rparr>"
  have base: "base_view W ?s' = base_view W ?s0" by (simp add: base_view_def note_cache_def split: list.split)
  have sig: "state_sig W ?s' = (state_sig W ?s0)(a := (True, Some (core ac)))"
    using state_sig_update [OF base, of a "e\<lparr>ae_account := Some ac, ae_state := Dirty\<rparr>"]
    by (simp add: update_conv' entry_sig_def entry_is_dirty_def)
  have cps: "sa_checkpoints ?s' = (case sa_checkpoints ?s0 of [] \<Rightarrow> [] | cp # cps \<Rightarrow> or_insert a (Some (entry_clone_dirty L e)) cp # cps)"
    using assms(1) by (simp add: note_cache_def split: list.split)
  have "evolves W ?s0 ?s'"
    using assms(1) by (intro evolves_write [OF sig base cps]) (simp add: state_sig_def cache_sig_def)
  then show ?thesis using evolves_db [OF assms(2)] by (rule evolves_trans [rotated])
qed

lemma borrow_entry_evolves: "evolves W s (snd (borrow_entry W a rc dflt upd (note_cache (be_lru W) a s)))"
proof (cases "map_of (sa_cache s) a")
  case None
  have n: "note_cache (be_lru W) a s = s\<lparr>sa_checkpoints := sa_checkpoints (note_cache (be_lru W) a s)\<rparr>"
    by (simp add: note_cache_def split: list.split)
  have "undo base (map_of (or_insert a None cp)) \<sigma> = undo base (map_of cp) \<sigma>" if "\<sigma> a = (False, base a)"
    for base \<sigma> and cp :: "(address \<times> 'l AccountEntry option) list"
    using that by (auto simp: undo_def map_of_or_insert fun_eq_iff split: option.split)
  then have "evolves W s (note_cache (be_lru W) a s)"
    using None by (auto simp: evolves_def state_ok_def state_levels_def note_cache_def state_sig_def cache_sig_def base_view_def
        distinct_or_insert split: list.split)
  moreover have "map_of (sa_cache (note_cache (be_lru W) a s)) a = None" using None n by (metis State.select_convs(3) State.surjective State.update_convs(4))
  ultimately show ?thesis by (simp add: borrow_entry_def)
next
  case (Some e)
  define ac where "ac = (case ae_account e of Some ac \<Rightarrow> ac | None \<Rightarrow> dflt)"
  obtain ac0 b where x: "(if rc then with_code W RequireCode a ac (sa_db s) else (ac, sa_db s)) = (ac0, b)" by fastforce
  have "same_view W (sa_db s) b"
    using with_code_keeps(2) [of RequireCode a ac "sa_db s"] x by (cases rc) (auto simp: same_view_def)
  note w = evolves_note_write [OF Some this, where L = "be_lru W"]
  have "sa_cache (note_cache (be_lru W) a s) = sa_cache s" "sa_db (note_cache (be_lru W) a s) = sa_db s"
    by (simp_all add: note_cache_def split: list.split)
  then show ?thesis using Some w x unfolding borrow_entry_def Let_def
    by (cases rc; cases "ae_account e"; cases "upd ac0"; simp add: ac_def)
qed

lemma evolving_require_or_from [evolving_intros]: "evolving W (require_or_from W a rc dflt upd)"
  unfolding require_or_from_def
  by (rule evolving_and_then) (simp_all add: evolving_def load_entry_evolves borrow_entry_evolves)

lemma evolving_require [evolving_intros]: "evolving W (require W a rc upd)"
  unfolding require_def by (intro evolving_intros)

lemma evolves_new_contract: "evolves W s (insert_cache a (new_dirty (Some ac)) s)"
proof -
  have base: "base_view W (insert_cache a (new_dirty (Some ac)) s) = base_view W s"
    by (simp add: insert_cache_def base_view_def Let_def split: list.split)
  have sig: "state_sig W (insert_cache a (new_dirty (Some ac)) s) = (state_sig W s)(a := (True, Some (core ac)))"
    using state_sig_update [OF base, of a "new_dirty (Some ac)"]
    by (simp add: insert_cache_def update_conv' Let_def split: list.splits if_splits)
  have cps: "sa_checkpoints (insert_cache a (new_dirty (Some ac)) s) =
      (case sa_checkpoints s of [] \<Rightarrow> [] | cp # cps \<Rightarrow> or_insert a (map_of (sa_cache s) a) cp # cps)"
    by (simp add: insert_cache_def new_dirty_def entry_is_dirty_def Let_def split: list.split)
  show ?thesis by (rule evolves_write [OF sig base cps]) (simp add: state_sig_def cache_sig_def split: option.split)
qed

lemma evolving_new_contract [evolving_intros]: "evolving W (state_new_contract W a balance off)"
  by (auto simp: evolving_def state_new_contract_def and_then_def modify_def evolves_new_contract split: outcome.split)

lemma evolving_balances [evolving_intros]:
  "evolving W (state_exists W a)" "evolving W (state_touch W a)" "evolving W (state_add_balance W a x mode)"
  "evolving W (state_sub_balance W a x mode)" "evolving W (transfer_balance W a c x mode)"
proof -
  show ex: "evolving W (state_exists W a)" and touch: "evolving W (state_touch W a)" for a
    unfolding state_exists_def state_touch_def by (intro evolving_intros)+
  show add: "evolving W (state_add_balance W a x mode)" for a mode
    unfolding state_add_balance_def by (cases mode) (auto intro!: evolving_intros ex touch)
  show sub: "evolving W (state_sub_balance W a x mode)" for a mode
    unfolding state_sub_balance_def by (intro evolving_intros ex)
  show "evolving W (transfer_balance W a c x mode)" unfolding transfer_balance_def by (intro evolving_intros add sub)
qed

lemma evolving_queries [evolving_intros]:
  "evolving W (exists_and_not_null W a)" "evolving W (exists_and_has_code_or_nonce W a)" "evolving W (state_balance W a)"
  "evolving W (state_nonce W a)" "evolving W (state_storage_root W a)" "evolving W (state_code W a)"
  "evolving W (state_code_hash W a)" "evolving W (state_code_size W a)"
  unfolding exists_and_not_null_def exists_and_has_code_or_nonce_def state_balance_def state_nonce_def state_storage_root_def
    state_code_def state_code_hash_def state_code_size_def
  by (intro evolving_intros)+

lemma evolving_updates [evolving_intros]:
  "evolving W (state_inc_nonce W a)" "evolving W (state_set_storage W a key v)" "evolving W (state_init_code W a code)"
  "evolving W (state_reset_code W a code)"
  unfolding state_inc_nonce_def state_set_storage_def state_init_code_def state_reset_code_def
  by (intro evolving_intros)+

end

interpretation basic: backend_laws "basic_backend L kec opn trie store code" for L kec opn trie store code
  by unfold_locales (simp_all add: basic_backend_def same_view_def)

section \<open>Sequences of operations\<close>

datatype state_op =
    Checkpoint | Discard_checkpoint | Revert_to_checkpoint
  | New_contract address u256 u256 | Kill_account address
  | Exists address | Exists_and_not_null address | Exists_and_has_code_or_nonce address
  | Balance address | Nonce address | Storage_root address | Storage_at address h256
  | Code address | Code_hash address | Code_size address
  | Add_balance address u256 CleanupMode | Sub_balance address u256 CleanupMode
  | Transfer_balance address address u256 CleanupMode
  | Inc_nonce address | Set_storage address h256 h256 | Init_code address bytes | Reset_code address bytes

definition run_quiet :: "('b, 'l, 'e, 'a) state_comp \<Rightarrow> ('b, 'l, 'e, unit) state_comp" where
  "run_quiet m = and_then m (\<lambda>_. ok ())"

fun run_op :: "('b, 'l, 'e) backend \<Rightarrow> state_op \<Rightarrow> ('b, 'l, 'e, unit) state_comp" where
  "run_op W Checkpoint = modify checkpoint"
| "run_op W Discard_checkpoint = modify discard_checkpoint"
| "run_op W Revert_to_checkpoint = modify (revert_to_checkpoint (be_lru W))"
| "run_op W (New_contract a balance off) = state_new_contract W a balance off"
| "run_op W (Kill_account a) = modify (kill_account a)"
| "run_op W (Exists a) = run_quiet (state_exists W a)"
| "run_op W (Exists_and_not_null a) = run_quiet (exists_and_not_null W a)"
| "run_op W (Exists_and_has_code_or_nonce a) = run_quiet (exists_and_has_code_or_nonce W a)"
| "run_op W (Balance a) = run_quiet (state_balance W a)"
| "run_op W (Nonce a) = run_quiet (state_nonce W a)"
| "run_op W (Storage_root a) = run_quiet (state_storage_root W a)"
| "run_op W (Storage_at a key) = run_quiet (state_storage_at W a key)"
| "run_op W (Code a) = run_quiet (state_code W a)"
| "run_op W (Code_hash a) = run_quiet (state_code_hash W a)"
| "run_op W (Code_size a) = run_quiet (state_code_size W a)"
| "run_op W (Add_balance a x mode) = run_quiet (state_add_balance W a x mode)"
| "run_op W (Sub_balance a x mode) = run_quiet (state_sub_balance W a x mode)"
| "run_op W (Transfer_balance a c x mode) = run_quiet (transfer_balance W a c x mode)"
| "run_op W (Inc_nonce a) = state_inc_nonce W a"
| "run_op W (Set_storage a key v) = state_set_storage W a key v"
| "run_op W (Init_code a code) = state_init_code W a code"
| "run_op W (Reset_code a code) = state_reset_code W a code"

text \<open>An operation that returns an error leaves its state to the next one; a panic ends the run.\<close>

fun run_ops :: "('b, 'l, 'e) backend \<Rightarrow> state_op list \<Rightarrow> ('b, 'l) State \<Rightarrow> ('b, 'l) State option" where
  "run_ops W [] s = Some s"
| "run_ops W (op # ops) s = (case run_op W op s of (Panic _, _) \<Rightarrow> None | (_, s') \<Rightarrow> run_ops W ops s')"

text \<open>Operations that close the \<open>n\<close> innermost checkpoints and every checkpoint that they open.\<close>

fun closes :: "nat \<Rightarrow> state_op list \<Rightarrow> bool" where
  "closes n [] \<longleftrightarrow> n = 0"
| "closes n (op # ops) \<longleftrightarrow>
     (case op of
        Checkpoint \<Rightarrow> closes (Suc n) ops
      | Discard_checkpoint \<Rightarrow> 0 < n \<and> closes (n - 1) ops
      | Revert_to_checkpoint \<Rightarrow> 0 < n \<and> closes (n - 1) ops
      | _ \<Rightarrow> closes n ops)"

fun is_checkpoint_op :: "state_op \<Rightarrow> bool" where
  "is_checkpoint_op Checkpoint = True"
| "is_checkpoint_op Discard_checkpoint = True"
| "is_checkpoint_op Revert_to_checkpoint = True"
| "is_checkpoint_op _ = False"

lemma length_state_levels: "length (state_levels W s) = length (sa_checkpoints s)"
proof -
  have "length (levels base cps \<sigma>) = length cps" for base \<sigma> and cps :: "(address \<times> 'l AccountEntry option) list list"
    by (induction cps arbitrary: \<sigma>) auto
  then show ?thesis by (simp add: state_levels_def)
qed

context backend_laws
begin

lemma evolving_run_quiet: "evolving W m \<Longrightarrow> evolving W (run_quiet m)"
  unfolding run_quiet_def by (intro evolving_intros)

lemma evolving_run_op: "\<not> is_checkpoint_op op \<Longrightarrow> \<forall>a. op \<noteq> Kill_account a \<Longrightarrow> evolving W (run_op W op)"
  by (cases op) (simp_all add: evolving_run_quiet evolving_intros)

lemma drop_pred_tl: "0 < n \<Longrightarrow> drop (n - 1) (tl xs) = drop n xs"
  by (cases n) (simp_all add: drop_Suc)

lemma run_ops_levels:
  assumes "run_ops W ops s = Some s'" "closes n ops" "\<forall>a. Kill_account a \<notin> set ops" "state_ok W s" "n \<le> length (state_levels W s)"
  shows "state_ok W s' \<and> state_levels W s' = drop n (state_levels W s) \<and> base_view W s' = base_view W s"
  using assms
proof (induction ops arbitrary: s n)
  case (Cons op ops)
  have nz: "sa_checkpoints s \<noteq> []" if "0 < n" using that Cons.prems(5) by (auto simp: length_state_levels)
  show ?case
  proof (cases "is_checkpoint_op op")
    case False
    obtain r s1 where r: "run_op W op s = (r, s1)" by fastforce
    have "evolves W s s1" using evolving_run_op [OF False] Cons.prems(3) r unfolding evolving_def by (metis list.set_intros(1) snd_conv)
    moreover have "run_ops W ops s1 = Some s'" using Cons.prems(1) r by (cases r) auto
    moreover have "closes n ops" using Cons.prems(2) False by (cases op) auto
    ultimately show ?thesis using Cons.IH [of s1 n] Cons.prems(3,4,5) by (simp add: evolves_def)
  next
    case True
    then consider "op = Checkpoint" | "op = Discard_checkpoint" | "op = Revert_to_checkpoint" by (cases op) auto
    then show ?thesis
    proof cases
      case 1
      then show ?thesis using Cons.IH [of "checkpoint s" "Suc n"] Cons.prems checkpoint_levels [OF Cons.prems(4)] by (simp add: modify_def)
    next
      case 2
      then have n: "0 < n" "closes (n - 1) ops" "run_ops W ops (discard_checkpoint s) = Some s'" using Cons.prems by (simp_all add: modify_def)
      note l = discard_levels [OF Cons.prems(4) nz [OF n(1)]]
      show ?thesis using Cons.IH [OF n(3,2) _ l(1)] Cons.prems(3,5) l(2) by (simp add: drop_pred_tl [OF n(1), unfolded One_nat_def])
    next
      case 3
      then have n: "0 < n" "closes (n - 1) ops" "run_ops W ops (revert_to_checkpoint (be_lru W) s) = Some s'"
        using Cons.prems by (simp_all add: modify_def)
      note l = revert_levels [OF Cons.prems(4) nz [OF n(1)], of "be_lru W"]
      show ?thesis using Cons.IH [OF n(3,2) _ l(1)] Cons.prems(3,5) l(3) by (simp add: drop_pred_tl [OF n(1), unfolded One_nat_def])
    qed
  qed
qed simp

lemma run_ops_append: "run_ops W (xs @ ys) s = Option.bind (run_ops W xs s) (run_ops W ys)"
  by (induction xs arbitrary: s) (auto split: prod.split outcome.split)

lemma revert_restores:
  assumes "run_ops W (Checkpoint # ops @ [Revert_to_checkpoint]) s = Some s'" "closes 0 ops" "\<forall>a. Kill_account a \<notin> set ops" "state_ok W s"
  shows "account_view W s' = account_view W s \<and> state_levels W s' = state_levels W s \<and> state_ok W s'"
proof -
  obtain s1 where s1: "run_ops W ops (checkpoint s) = Some s1" "s' = revert_to_checkpoint (be_lru W) s1"
    using assms(1) by (auto simp: modify_def run_ops_append bind_eq_Some_conv)
  have l: "state_ok W s1" "state_levels W s1 = state_sig W s # state_levels W s"
    using run_ops_levels [OF s1(1) assms(2,3) checkpoint_levels(1) [OF assms(4)]] checkpoint_levels(2) [OF assms(4)] by simp_all
  then have "sa_checkpoints s1 \<noteq> []" using length_state_levels [of W s1] by auto
  from revert_levels [OF l(1) this, of "be_lru W"] show ?thesis
    unfolding s1(2) l(2) by (simp add: account_view_def fun_eq_iff)
qed

end

section \<open>Properties\<close>


definition toy_lru :: "(h256 \<times> h256) list storage_lru" where
  "toy_lru = \<lparr>lru_new = (\<lambda>_. []), lru_capacity = (\<lambda>_. 8192), lru_len = length, lru_set_capacity = (\<lambda>_ l. l),
     lru_insert = (\<lambda>k v l. (map_of l k, (k, v) # l)), lru_get_mut = (\<lambda>k l. (map_of l k, l)),
     lru_remove_lru = (\<lambda>l. (None, l)), lru_into_iter = (\<lambda>l. l)\<rparr>"

definition toy_backend :: "(unit, (h256 \<times> h256) list, unit) backend" where
  "toy_backend = basic_backend toy_lru (\<lambda>_. 0) (\<lambda>_ _. None) (\<lambda>_ _ _. Inr None) (\<lambda>_ _ _ _. Inr None) (\<lambda>_ _ _. None)"

definition toy_state :: "(unit, (h256 \<times> h256) list) State" where
  "toy_state = \<lparr>sa_db = (), sa_root = 0, sa_cache = [(1, new_dirty (Some (account_new_basic toy_lru 10 0)))],
     sa_checkpoints = [], sa_account_start_nonce = 0\<rparr>"

lemma toy_backend_laws: "backend_laws toy_backend"
  unfolding toy_backend_def by (rule basic.backend_laws_axioms)

lemma toy_state_ok: "state_ok toy_backend toy_state"
  by (simp add: state_ok_def toy_state_def state_sig_def cache_sig_def entry_sig_def new_dirty_def entry_is_dirty_def)

definition toy_ops :: "state_op list" where
  "toy_ops = [Transfer_balance 1 2 3 NoEmpty, Checkpoint, Inc_nonce 1, Discard_checkpoint, Checkpoint, Add_balance 2 9 NoEmpty,
     Revert_to_checkpoint, New_contract 3 0 0]"

lemmas toy_run_defs = comp_defs transfer_balance_def state_sub_balance_def state_add_balance_def require_def require_or_from_def
  load_entry_def borrow_entry_def note_cache_def insert_cache_def open_and_load_def load_account_def or_insert_def Let_def
  new_dirty_def new_clean_def entry_is_dirty_def account_new_basic_def account_new_contract_def account_sub_balance_def
  account_add_balance_def account_inc_nonce_def state_inc_nonce_def state_new_contract_def word_add_def word_sub_def
  checkpoint_def discard_checkpoint_def revert_to_checkpoint_def restore_entry_def entry_overwrite_with_def entry_clone_dirty_def




text \<open>
  C36: When the shared cache of the backend still has an account at the address of a new contract, the new contract, whose
  storage is empty, reads the storage of the old account: \<open>storage_at\<close> asks the shared cache before the account of its own
  cache.  \<open>Executive\<close> creates contracts only at addresses without code and with the initial nonce.
\<close>

theorem new_contract_reads_old_storage:
  assumes "state_new_contract W a balance off s = (Ok (), s1)"
    and "fst (lru_get_mut (be_lru W) key (lru_new (be_lru W) STORAGE_CACHE_ITEMS)) = None"
    and "be_get_cached W (sa_db s) a = Some (Some old)" "fst (read_storage W (sa_db s) a key old) = Ok v"
  shows "fst (state_storage_at W a key s1) = Ok v \<and>
    (\<exists>ac. map_option ae_account (map_of (sa_cache s1) a) = Some (Some ac) \<and> ac_storage_root ac = KECCAK_NULL_RLP \<and> ac_storage_changes ac = [])"
proof -
  obtain n where s1: "s1 = insert_cache a (new_dirty (Some (account_new_contract (be_lru W) balance n))) s"
    using assms(1) by (auto simp: state_new_contract_def and_then_def modify_def split: outcome.splits)
  define ac where "ac = account_new_contract (be_lru W) balance n"
  have hit: "map_of (sa_cache s1) a = Some (new_dirty (Some ac))" and db: "sa_db s1 = sa_db s"
    by (auto simp: s1 ac_def insert_cache_def update_conv' Let_def split: list.split)
  have "fst (cached_storage_at (be_lru W) key ac) = None"
    using assms(2) by (simp add: cached_storage_at_def ac_def account_new_contract_def empty_storage_cache_def)
  then show ?thesis using assms(3,4) hit db
    by (auto simp: state_storage_at_def storage_at_global_def new_dirty_def Let_def ac_def account_new_contract_def split: prod.split)
qed

definition toy_old :: "(h256 \<times> h256) list Account" where
  "toy_old = account_set_storage 5 6 (account_new_basic toy_lru 1 0)"

theorem new_contract_reads_old_storage_witness:
  "fst (state_storage_at (toy_backend\<lparr>be_get_cached := \<lambda>_ _. Some (Some toy_old)\<rparr>) 1 5
     (snd (state_new_contract (toy_backend\<lparr>be_get_cached := \<lambda>_ _. Some (Some toy_old)\<rparr>) 1 0 0 toy_state))) = Ok 6"
proof -
  let ?W = "toy_backend\<lparr>be_get_cached := \<lambda>_ _. Some (Some toy_old)\<rparr>"
  have n: "state_new_contract ?W 1 0 0 toy_state = (Ok (), snd (state_new_contract ?W 1 0 0 toy_state))"
    by (simp add: state_new_contract_def and_then_def modify_def word_add_def toy_state_def)
  have m: "fst (lru_get_mut (be_lru ?W) 5 (lru_new (be_lru ?W) STORAGE_CACHE_ITEMS)) = None"
    by (simp add: toy_backend_def basic_backend_def toy_lru_def)
  have r: "fst (read_storage ?W (sa_db toy_state) 1 5 toy_old) = Ok 6"
    by (simp add: read_storage_def account_address_hash_def toy_old_def account_set_storage_def account_new_basic_def
        account_storage_at_def cached_storage_at_def Let_def)
  show ?thesis using new_contract_reads_old_storage [OF n m _ r] by simp
qed

section \<open>Transfers\<close>

lemma require_hit:
  assumes "map_of (sa_cache s) a = Some e" "ae_account e = Some ac" "upd ac = Ok ac'"
  shows "\<exists>s'. require W a False upd s = (Ok (), s') \<and> sa_db s' = sa_db s \<and> sa_root s' = sa_root s
    \<and> map_of (sa_cache s') = (map_of (sa_cache s))(a \<mapsto> e\<lparr>ae_account := Some ac', ae_state := Dirty\<rparr>)"
  using assms
  by (auto simp: require_def require_or_from_def gets_def and_then_def load_entry_def borrow_entry_def note_cache_def
      update_conv' Let_def split: list.split)

text \<open>
  C28: A transfer of a positive amount between two different accounts of the cache, of which the first has the amount and
  the second has room for it, succeeds; it moves the amount, so that the sum of the two balances is kept, and changes
  nothing else of these and no other account.
\<close>

theorem transfer_balance_moves:
  fixes W :: "('b, 'l, 'e) backend"
  assumes "frm \<noteq> to" "map_of (sa_cache s) frm = Some e1" "ae_account e1 = Some x" "map_of (sa_cache s) to = Some e2" "ae_account e2 = Some y"
    and "amount \<noteq> 0" "amount \<le> ac_balance x" "unat (ac_balance y) + unat amount < 2 ^ 256"
  shows "\<exists>mode' s'. transfer_balance W frm to amount mode s = (Ok mode', s')
    \<and> account_view W s' = (account_view W s)(frm \<mapsto> core (x\<lparr>ac_balance := ac_balance x - amount\<rparr>), to \<mapsto> core (y\<lparr>ac_balance := ac_balance y + amount\<rparr>))
    \<and> unat (ac_balance x - amount) + unat (ac_balance y + amount) = unat (ac_balance x) + unat (ac_balance y)"
proof -
  have x: "account_sub_balance amount x = (Ok (x\<lparr>ac_balance := ac_balance x - amount\<rparr>) :: ('e, 'l Account) outcome)"
    using assms(7) by (simp add: account_sub_balance_def word_sub_def)
  have y: "account_add_balance amount y = (Ok (y\<lparr>ac_balance := ac_balance y + amount\<rparr>) :: ('e, 'l Account) outcome)"
    using assms(8) by (simp add: account_add_balance_def word_add_def)
  obtain s1 where s1: "require W frm False (account_sub_balance amount) s = (Ok (), s1)" "sa_db s1 = sa_db s" "sa_root s1 = sa_root s"
    "map_of (sa_cache s1) = (map_of (sa_cache s))(frm \<mapsto> e1\<lparr>ae_account := Some (x\<lparr>ac_balance := ac_balance x - amount\<rparr>), ae_state := Dirty\<rparr>)"
    using require_hit [where upd = "account_sub_balance amount", OF assms(2,3) x] by blast
  have hit: "map_of (sa_cache s1) to = Some e2" using s1(4) assms(1,4) by simp
  obtain s2 where s2: "require W to False (account_add_balance amount) s1 = (Ok (), s2)" "sa_db s2 = sa_db s1" "sa_root s2 = sa_root s1"
    "map_of (sa_cache s2) = (map_of (sa_cache s1))(to \<mapsto> e2\<lparr>ae_account := Some (y\<lparr>ac_balance := ac_balance y + amount\<rparr>), ae_state := Dirty\<rparr>)"
    using require_hit [where upd = "account_add_balance amount", OF hit assms(5) y] by blast
  have "account_view W s2 = (account_view W s)(frm \<mapsto> core (x\<lparr>ac_balance := ac_balance x - amount\<rparr>), to \<mapsto> core (y\<lparr>ac_balance := ac_balance y + amount\<rparr>))"
    using s1 s2 assms(1) by (simp add: account_view_def state_sig_def cache_sig_def base_view_def entry_sig_def fun_eq_iff)
  moreover have "unat (ac_balance x - amount) + unat (ac_balance y + amount) = unat (ac_balance x) + unat (ac_balance y)"
    using assms(7,8) by (simp add: unat_sub word_le_nat_alt unat_add_lem [THEN iffD1])
  ultimately show ?thesis
    using assms(6) s1(1) s2(1) by (simp add: transfer_balance_def state_sub_balance_def state_add_balance_def and_then_def ok_def)
qed

theorem transfer_balance_moves_witness:
  "\<exists>mode' s'. transfer_balance toy_backend 1 2 3 NoEmpty (snd (state_new_contract toy_backend 2 4 0 toy_state)) = (Ok mode', s')
    \<and> map_option fst (account_view toy_backend s' 1) = Some 7 \<and> map_option fst (account_view toy_backend s' 2) = Some 7"
proof -
  let ?s = "snd (state_new_contract toy_backend 2 4 0 toy_state)"
  have e: "map_of (sa_cache ?s) 1 = Some (new_dirty (Some (account_new_basic toy_lru 10 0)))"
    "map_of (sa_cache ?s) 2 = Some (new_dirty (Some (account_new_contract toy_lru 4 0)))"
    by (simp_all add: state_new_contract_def and_then_def modify_def word_add_def toy_state_def toy_backend_def basic_backend_def
        insert_cache_def new_dirty_def entry_is_dirty_def Let_def)
  show ?thesis
    using transfer_balance_moves [OF _ e(1) _ e(2), of "account_new_basic toy_lru 10 0" "account_new_contract toy_lru 4 0" 3 toy_backend NoEmpty]
    by (auto simp: new_dirty_def account_new_basic_def account_new_contract_def core_def)
qed

end
