(* ===== verification/Spec2Isabelle.thy ===== *)
theory Spec2Isabelle
  imports Evm_Properties Trace_Types State_Revert
begin

text \<open>
  A verification development for parts of the Parity Ethereum client: the virtual machine for EVM code, the RLP encoding,
  the types of the chain that are stored and sent in this encoding, and the cache of accounts with its checkpoints.

  \<^bold>\<open>The program and its parts.\<close>  A transaction is decoded and its signature checked; it is executed on the state, a
  cache of accounts over a trie, with a checkpoint for every call that can fail; contract code runs in the interpreter, which
  reaches the state through a host; the results are receipts and traces; headers of blocks commit to all of it by
  hashes of RLP encodings.  The executive, which connects these parts, is not modelled: the interpreter is verified
  against every host that keeps the contract of the trait \<open>Ext\<close>, and the state for every sequence of its operations.

  \<^bold>\<open>Conventions.\<close>  A method that may fail or panic returns an outcome \<open>Ok\<close>, \<open>Err\<close> or \<open>Panic\<close>; a method with a
  mutable receiver, or that writes into a cell, is a function from a state to an outcome and a state (\<open>Prelude\<close>).  Fixed-width
  integers are words; \<open>usize\<close> is a natural number with the bound \<open>2 ^ 64\<close> checked where the code computes with it.
  Additions that Rust checks are panics when they overflow.  Traits are records of operations; the laws a client relies on
  are locales.  Cryptography (\<open>keccak\<close>, \<open>secp256k1\<close>), the crate \<open>lru-cache\<close>, blooms, tries and databases are parameters.

  \<^bold>\<open>The virtual machine\<close> (\<open>ethcore/evm/src\<close>, \<open>ethcore/vm/src\<close>, \<open>util/memory_cache/src\<close>).
  \<^item> \<open>Instructions\<close>, \<open>Schedule\<close>, \<open>Vm_Types\<close>: \<open>instructions.rs\<close>, \<open>schedule.rs\<close>, and the errors, parameters and host
    trait of \<open>vm/src\<close>; locale \<open>ext_host\<close> is the contract of a host.
  \<^item> \<open>Cost_Type\<close>, \<open>Evm_Stack\<close>, \<open>Gasometer\<close>, \<open>Evm_Memory\<close>, \<open>Evm_Arith\<close>: \<open>evm.rs\<close>, \<open>stack.rs\<close>, \<open>gasometer.rs\<close>,
    \<open>memory.rs\<close> and the arithmetic of \<open>interpreter/mod.rs\<close>; locale \<open>cost_type\<close> is interpreted for \<open>usize\<close> and \<open>U256\<close>.
  \<^item> \<open>Memory_Cache\<close>, \<open>Shared_Cache\<close>: the cache bounded by memory and the cache of jump destinations built on it;
    locales \<open>lru_crate\<close>, \<open>jump_cache\<close>, \<open>jump_lru\<close>.
  \<^item> \<open>Interpreter\<close>, with the proofs in \<open>Interp_Data\<close>, \<open>Interp_Instr\<close>, \<open>Interp_Calls\<close>, \<open>Interp_Loop\<close>: every
    instruction and the loop.  The loop is a partial function, for which not returning is \<open>None\<close>; there is no fuel, and
    termination is proved because gas decreases.
  \<^item> \<open>Fake_Ext\<close>, \<open>Evm_Factory\<close>, \<open>Evm_Properties\<close>: the host of the tests, on which \<open>ext_host\<close> is interpreted,
    the choice of a machine, and the guarantees: runs end without a panic and within their gas, instructions have the
    effect of their specification, and costs, memory, arithmetic and jump destinations are correct.

  \<^bold>\<open>RLP\<close> (\<open>util/rlp/src\<close>, \<open>util/rlp_derive/src\<close>).
  \<^item> \<open>Rlp_Stream\<close>: the encoder, which patches the prefix of a list when its last item arrives, equals the recursive
    encoding \<open>enc\<close> of a tree; an open list can be completed.
  \<^item> \<open>Rlp_View\<close>: the decoder with its caches of offsets and counts answers \<open>at\<close> and \<open>item_count\<close> like the list; the
    operations named in the property do not panic, and iterations end.
  \<^item> \<open>Rlp_Codec\<close>: the implementations for basic types and the code of the derive macros; locale \<open>codec\<close> is the contract of a type
    that is read back from its encoding, interpreted for all types below.
  The bound \<open>2 ^ 32\<close> on encodings is the one up to which the encoder is correct: it truncates larger sizes.

  \<^bold>\<open>Types of the chain\<close> (\<open>ethcore/types/src\<close>, \<open>ethcore/src/trace/types\<close>, \<open>ethcore/transaction/src\<close>, \<open>ethkey/src\<close>,
  \<open>ethcore/src/header.rs\<close>).  \<open>Chain_Types\<close>, \<open>Trace_Types\<close>, \<open>Transaction\<close> and \<open>Header\<close>: receipts, traces, signed
  transactions and headers survive encoding; a signed transaction keeps its sender and chain; the memoised hashes of a
  header are those of its current fields.  That a signature recovers its key is a hypothesis on \<open>secp256k1\<close>.

  \<^bold>\<open>The state\<close> (\<open>ethcore/src/state\<close>).  \<open>State_Account\<close> and \<open>State_Cache\<close>: accounts, the cache, checkpoints, queries
  and updates over a backend.  \<open>State_Revert\<close>: reverting to a checkpoint restores the accounts and transfers move
  balances.  Locale \<open>backend_laws\<close> is the contract of a backend, interpreted for the backend \<open>Basic\<close>; for \<open>StateDB\<close> it is an
  assumption, because that backend is not modelled.  The restored account comprises balance, nonce, storage root, pending changes
  of storage, code hash and code mark, and not the caches of storage and code.

  \<^bold>\<open>Defects.\<close>  Several theorems describe what the code does against its documentation or intent: panics of the
  gas meter for \<open>U256\<close>, the drifting size of the memory cache, truncated sizes, items read beyond a list, non-canonical
  lengths, the lost chain 0, accounts lost by a revert after they were killed, and storage read through a stale shared cache.
  The last two are not reached by the callers in \<open>executive.rs\<close>.

  \<^bold>\<open>Not modelled.\<close>  Most of the repository: what is modelled is a small share of its lines.  The executive and externalities, blocks,
  verification, the chain, engines, the client, the miner, snapshots, the light client, the state database and the tries
  could be modelled in the same way and have not been taken up.  Networking, RPC, the command line, key
  storage and databases are input and output.  The WebAssembly and JIT machines call libraries outside of the repository.
  Within the modelled parts: \<open>VMTrace\<close>, RLP compression, committing the state to the trie, proofs, the conversions from and
  to JSON, displays and heap sizes.  \<open>trace!\<close> messages, and what they would read, are left out.
\<close>

end
